theory Spec2Isabelle
  imports Complex_Main
begin

section \<open>JavaScript values, errors and outcomes\<close>

text \<open>
  Outcome keys of a superposition are arbitrary JavaScript values. The primitive values are
  modelled; \<open>VUndefined\<close> is JavaScript's \<open>undefined\<close>, which the source tests for
  explicitly. JavaScript numbers are IEEE doubles; throughout this development they are
  idealised as real numbers, so \<open>Number.isFinite\<close> always holds and arithmetic is exact.
\<close>

datatype val = VUndefined | VNull | VBool bool | VNum real | VStr string

fun truthy :: "val \<Rightarrow> bool" where
  "truthy VUndefined = False"
| "truthy VNull = False"
| "truthy (VBool b) = b"
| "truthy (VNum x) = (x \<noteq> 0)"
| "truthy (VStr s) = (s \<noteq> [])"

text \<open>The three exception classes the source throws, each with its message.\<close>

datatype error = TypeError string | RangeError string | Error string

text \<open>A call either throws or returns.\<close>

datatype 'a outcome = Throw error | Return 'a

section \<open>Complex.js\<close>

datatype Complex_t = new_Complex (real_c: real) (imag_c: real)

definition Complex_magnitude :: "Complex_t \<Rightarrow> real" where
  "Complex_magnitude z = sqrt (real_c z * real_c z + imag_c z * imag_c z)"

definition Complex_magnitudeSquared :: "Complex_t \<Rightarrow> real" where
  "Complex_magnitudeSquared z = real_c z * real_c z + imag_c z * imag_c z"

definition Complex_add :: "Complex_t \<Rightarrow> Complex_t \<Rightarrow> Complex_t" where
  "Complex_add z other = new_Complex (real_c z + real_c other) (imag_c z + imag_c other)"

definition Complex_subtract :: "Complex_t \<Rightarrow> Complex_t \<Rightarrow> Complex_t" where
  "Complex_subtract z other = new_Complex (real_c z - real_c other) (imag_c z - imag_c other)"

definition Complex_multiply :: "Complex_t \<Rightarrow> Complex_t \<Rightarrow> Complex_t" where
  "Complex_multiply z other =
     new_Complex (real_c z * real_c other - imag_c z * imag_c other)
                 (real_c z * imag_c other + imag_c z * real_c other)"

definition Complex_scale :: "Complex_t \<Rightarrow> real \<Rightarrow> Complex_t" where
  "Complex_scale z scalar = new_Complex (real_c z * scalar) (imag_c z * scalar)"

definition Complex_equals :: "Complex_t \<Rightarrow> Complex_t \<Rightarrow> real \<Rightarrow> bool" where
  "Complex_equals z other epsilon =
     (\<bar>real_c z - real_c other\<bar> \<le> epsilon \<and> \<bar>imag_c z - imag_c other\<bar> \<le> epsilon)"

definition Complex_clone :: "Complex_t \<Rightarrow> Complex_t" where
  "Complex_clone z = new_Complex (real_c z) (imag_c z)"

definition Complex_fromPolar :: "real \<Rightarrow> real \<Rightarrow> Complex_t outcome" where
  "Complex_fromPolar magnitude phase =
     (if magnitude < 0 then Throw (RangeError ''Polar magnitude must be non-negative.'')
      else Return (new_Complex (magnitude * cos phase) (magnitude * sin phase)))"

definition Complex_zero :: Complex_t where
  "Complex_zero = new_Complex 0 0"

section \<open>JavaScript Map, in insertion order\<close>

text \<open>
  A \<open>Map\<close> is an association list with distinct keys, in insertion order:
  \<open>set\<close> on a present key keeps its position, on an absent key appends.
\<close>

type_synonym ('k, 'v) js_map = "('k \<times> 'v) list"

fun Map_get :: "('k, 'v) js_map \<Rightarrow> 'k \<Rightarrow> 'v option" where
  "Map_get [] k = None"
| "Map_get ((k', v') # m) k = (if k' = k then Some v' else Map_get m k)"

definition Map_has :: "('k, 'v) js_map \<Rightarrow> 'k \<Rightarrow> bool" where
  "Map_has m k = (Map_get m k \<noteq> None)"

fun Map_set :: "('k, 'v) js_map \<Rightarrow> 'k \<Rightarrow> 'v \<Rightarrow> ('k, 'v) js_map" where
  "Map_set [] k v = [(k, v)]"
| "Map_set ((k', v') # m) k v = (if k' = k then (k, v) # m else (k', v') # Map_set m k v)"

text \<open>
  A JavaScript array is a list here. An array has at most \<open>2^32 - 1\<close> elements, so a list
  stands for an array only below that length, and \<open>Array.isArray\<close> says so.
\<close>

definition Array_isArray :: "'a list \<Rightarrow> bool" where
  "Array_isArray xs \<longleftrightarrow> length xs < 2 ^ 32"

section \<open>QuantumState.js: the object itself\<close>

definition AMPLITUDE_PRUNE_EPSILON :: real where
  "AMPLITUDE_PRUNE_EPSILON = 1 / 10 ^ 12"

definition NORMALIZATION_EPSILON :: real where
  "NORMALIZATION_EPSILON = 1 / 10 ^ 15"

record history_entry =
  timestamp :: nat
  result :: val
  reason :: string
  preMeasurementProbs :: "(val, real) js_map"

text \<open>
  A \<open>QuantumState\<close> object. \<open>entanglements\<close> is the set of \<open>Entanglement\<close> objects
  registered on it, as references (indices into the heap below) in insertion order.
\<close>

record QuantumState =
  basis :: "(val, Complex_t) js_map"
  entanglements :: "nat list"
  measurementHistory :: "history_entry list"
  isCollapsed :: bool
  collapsedValue :: val

text \<open>
  \<open>_pruneNearZeroAmplitudes\<close>: deletes the entries below the epsilon, then throws if
  nothing is left. The deletions stay when it throws, so the object is returned with the
  outcome.
\<close>

definition pruneNearZeroAmplitudes :: "QuantumState \<Rightarrow> unit outcome \<times> QuantumState" where
  "pruneNearZeroAmplitudes this =
     (let this1 = this\<lparr>basis :=
            filter (\<lambda>(value, amplitude). \<not> Complex_magnitude amplitude < AMPLITUDE_PRUNE_EPSILON)
                   (basis this)\<rparr>
      in if length (basis this1) = 0
         then (Throw (Error ''Quantum state has no non-zero amplitudes after pruning.''), this1)
         else (Return (), this1))"

definition updateCollapsedFlags :: "QuantumState \<Rightarrow> QuantumState" where
  "updateCollapsedFlags this =
     (case basis this of
        [(value, amplitude)] \<Rightarrow>
          (let c = Complex_equals amplitude (new_Complex 1 0) (1 / 10 ^ 12)
           in this\<lparr>isCollapsed := c, collapsedValue := (if c then value else VUndefined)\<rparr>)
      | _ \<Rightarrow> this\<lparr>isCollapsed := False, collapsedValue := VUndefined\<rparr>)"

definition totalProbability :: "(val, Complex_t) js_map \<Rightarrow> real" where
  "totalProbability b = foldl (\<lambda>total (value, amplitude). total + Complex_magnitudeSquared amplitude) 0 b"

text \<open>
  \<open>normalize\<close> up to, and not including, its last statement
  \<open>this._notifyEntanglementUpdates()\<close>, which needs the heap and is added below.
\<close>

definition normalize_this :: "QuantumState \<Rightarrow> unit outcome \<times> QuantumState" where
  "normalize_this this =
     (if totalProbability (basis this) \<le> NORMALIZATION_EPSILON
      then (Throw (Error ''Quantum state collapsed to zero probability mass.''), this)
      else
        let norm = sqrt (totalProbability (basis this));
            this1 = this\<lparr>basis :=
              map (\<lambda>(value, amplitude). (value, Complex_scale amplitude (1 / norm))) (basis this)\<rparr>
        in case pruneNearZeroAmplitudes this1 of
             (Throw e, this2) \<Rightarrow> (Throw e, this2)
           | (Return u, this2) \<Rightarrow> (Return (), updateCollapsedFlags this2))"

definition getProbabilities :: "QuantumState \<Rightarrow> (val, real) js_map" where
  "getProbabilities this =
     map (\<lambda>(value, amplitude). (value, Complex_magnitudeSquared amplitude)) (basis this)"

definition getAmplitude :: "QuantumState \<Rightarrow> val \<Rightarrow> Complex_t" where
  "getAmplitude this value = (case Map_get (basis this) value of Some a \<Rightarrow> a | None \<Rightarrow> Complex_zero)"

text \<open>
  The constructor. The new object has no entanglements, so the notification that ends its
  \<open>normalize\<close> call visits nothing, and the constructor needs no heap.
\<close>

definition accumulate :: "(val, Complex_t) js_map \<Rightarrow> val \<times> Complex_t \<Rightarrow> (val, Complex_t) js_map" where
  "accumulate m entry =
     (let current = (case Map_get m (fst entry) of Some a \<Rightarrow> a | None \<Rightarrow> Complex_zero)
      in Map_set m (fst entry) (Complex_add current (snd entry)))"

definition new_QuantumState :: "(val \<times> Complex_t) list \<Rightarrow> QuantumState outcome" where
  "new_QuantumState entries =
     (if \<not> Array_isArray entries
      then Throw (TypeError ''QuantumState basis must be an array of { value, amplitude }.'')
      else if length entries = 0
      then Throw (RangeError ''QuantumState basis must contain at least one state.'')
      else
        let this = \<lparr>basis = foldl accumulate [] entries, entanglements = [],
                    measurementHistory = [], isCollapsed = False, collapsedValue = VUndefined\<rparr>
        in case pruneNearZeroAmplitudes this of
             (Throw e, this1) \<Rightarrow> Throw e
           | (Return u, this1) \<Rightarrow>
               (case normalize_this this1 of
                  (Throw e, this2) \<Rightarrow> Throw e
                | (Return u', this2) \<Rightarrow> Return this2))"

definition clone :: "QuantumState \<Rightarrow> QuantumState outcome" where
  "clone this =
     (case new_QuantumState (map (\<lambda>(value, amplitude). (value, Complex_clone amplitude)) (basis this)) of
        Throw e \<Rightarrow> Throw e
      | Return copy \<Rightarrow> Return (copy\<lparr>isCollapsed := isCollapsed this,
                                     collapsedValue := collapsedValue this,
                                     measurementHistory := measurementHistory this\<rparr>))"

section \<open>The heap: QuantumState and Entanglement objects by reference\<close>

record Entanglement =
  state1 :: nat
  state2 :: nat
  relationFn :: "val \<Rightarrow> val"
  isActive :: bool

text \<open>
  Objects are mutable and refer to each other, so they live in a heap indexed by
  reference. \<open>Date_now\<close> is what \<open>Date.now()\<close> reads. \<open>Math_random\<close> is the
  process-wide generator behind \<open>Math.random()\<close>: the sequence of samples it will
  return, with the number of calls made so far. \<open>relationFn\<close> is the caller's function,
  taken as pure; it returns \<open>VUndefined\<close> where the JavaScript function returns
  \<open>undefined\<close>.
\<close>

record world =
  states :: "nat \<Rightarrow> QuantumState"
  ents :: "nat \<Rightarrow> Entanglement"
  next_ref :: nat
  Date_now :: nat
  Math_random :: "nat \<Rightarrow> real"
  random_calls :: nat

definition put_state :: "nat \<Rightarrow> QuantumState \<Rightarrow> world \<Rightarrow> world" where
  "put_state r s w = w\<lparr>states := (states w)(r := s)\<rparr>"

text \<open>The optional second argument of \<open>collapseTo\<close>.\<close>

record metadata =
  m_reason :: "string option"
  m_preMeasurementProbs :: "(val, real) js_map option"

text \<open>
  \<open>normalize\<close>, \<open>updateEntanglement\<close>, \<open>onMeasurement\<close>, \<open>_collapseState2\<close> and
  \<open>collapseTo\<close> call each other through the entanglement graph, which may be cyclic, so
  the recursion need not end: JavaScript then throws a \<open>RangeError\<close> when the call stack
  is exhausted. Each method body is written over the function \<open>rec\<close> that performs a
  nested call, and \<open>exec n\<close> runs a call with room for \<open>n\<close> nested frames.
\<close>

datatype call =
    Normalize nat
  | UpdateEntanglement nat "nat option"
  | OnMeasurement nat nat val
  | CollapseState2 nat val
  | CollapseTo nat val metadata

type_synonym action = "world \<Rightarrow> unit outcome \<times> world"

fun for_each :: "('a \<Rightarrow> action) \<Rightarrow> 'a list \<Rightarrow> action" where
  "for_each f [] w = (Return (), w)"
| "for_each f (x # xs) w =
     (case f x w of
        (Throw e, w') \<Rightarrow> (Throw e, w')
      | (Return u, w') \<Rightarrow> for_each f xs w')"

definition notifyEntanglementUpdates :: "(call \<Rightarrow> action) \<Rightarrow> nat \<Rightarrow> action" where
  "notifyEntanglementUpdates rec this w =
     for_each (\<lambda>entanglement. rec (UpdateEntanglement entanglement (Some this)))
              (entanglements (states w this)) w"

definition notifyEntangledStates :: "(call \<Rightarrow> action) \<Rightarrow> nat \<Rightarrow> val \<Rightarrow> action" where
  "notifyEntangledStates rec this measuredValue w =
     for_each (\<lambda>entanglement. rec (OnMeasurement entanglement this measuredValue))
              (entanglements (states w this)) w"

definition normalize_body :: "(call \<Rightarrow> action) \<Rightarrow> nat \<Rightarrow> action" where
  "normalize_body rec this w =
     (case normalize_this (states w this) of
        (Throw e, s) \<Rightarrow> (Throw e, put_state this s w)
      | (Return u, s) \<Rightarrow> notifyEntanglementUpdates rec this (put_state this s w))"

definition collapseTo_body :: "(call \<Rightarrow> action) \<Rightarrow> nat \<Rightarrow> val \<Rightarrow> metadata \<Rightarrow> action" where
  "collapseTo_body rec this value meta w =
     (if \<not> Map_has (basis (states w this)) value
      then (Throw (RangeError ''Cannot collapse to a value not present in the basis.''), w)
      else
        let s = states w this;
            pre = (case m_preMeasurementProbs meta of Some p \<Rightarrow> p | None \<Rightarrow> getProbabilities s);
            s' = s\<lparr>basis := [(value, new_Complex 1 0)],
                   isCollapsed := True,
                   collapsedValue := value,
                   measurementHistory := measurementHistory s @
                     [\<lparr>timestamp = Date_now w, result = value,
                       reason = (case m_reason meta of
                                   Some r \<Rightarrow> (if r = [] then ''manual-collapse'' else r)
                                 | None \<Rightarrow> ''manual-collapse''),
                       preMeasurementProbs = pre\<rparr>]\<rparr>
        in notifyEntangledStates rec this value (put_state this s' w))"

fun induce :: "(val \<Rightarrow> val) \<Rightarrow> (val, Complex_t) js_map \<Rightarrow> (val \<times> Complex_t) list
                 \<Rightarrow> (val, Complex_t) js_map outcome" where
  "induce f inducedBasis [] = Return inducedBasis"
| "induce f inducedBasis ((value1, amp1) # rest) =
     (let mappedValue = f value1
      in if mappedValue = VUndefined
         then Throw (Error ''Entanglement relationFn returned undefined for an input value.'')
         else induce f (accumulate inducedBasis (mappedValue, amp1)) rest)"

definition updateEntanglement_body :: "(call \<Rightarrow> action) \<Rightarrow> nat \<Rightarrow> nat option \<Rightarrow> action" where
  "updateEntanglement_body rec this source w =
     (if \<not> isActive (ents w this) then (Return (), w)
      else if (case source of Some s \<Rightarrow> s \<noteq> state1 (ents w this) | None \<Rightarrow> False)
      then (Return (), w)
      else if isCollapsed (states w (state1 (ents w this))) then
        (let targetValue = relationFn (ents w this) (collapsedValue (states w (state1 (ents w this))))
         in if targetValue = VUndefined
            then (Throw (Error ''Entanglement relationFn returned undefined during collapsed propagation.''), w)
            else rec (CollapseState2 this targetValue) w)
      else
        (case induce (relationFn (ents w this)) [] (basis (states w (state1 (ents w this)))) of
           Throw e \<Rightarrow> (Throw e, w)
         | Return inducedBasis \<Rightarrow>
             rec (Normalize (state2 (ents w this)))
                 (put_state (state2 (ents w this))
                    ((states w (state2 (ents w this)))\<lparr>basis := inducedBasis\<rparr>) w)))"

definition onMeasurement_body :: "(call \<Rightarrow> action) \<Rightarrow> nat \<Rightarrow> nat \<Rightarrow> val \<Rightarrow> action" where
  "onMeasurement_body rec this measuredState measuredValue w =
     (if \<not> isActive (ents w this) then (Return (), w)
      else if measuredState = state1 (ents w this) then
        (let mappedValue = relationFn (ents w this) measuredValue
         in if mappedValue = VUndefined
            then (Throw (Error ''Entanglement relationFn returned undefined for measured value.''), w)
            else rec (CollapseState2 this mappedValue) w)
      else (Return (), w))"

definition collapseState2_body :: "(call \<Rightarrow> action) \<Rightarrow> nat \<Rightarrow> val \<Rightarrow> action" where
  "collapseState2_body rec this value w =
     (let target = state2 (ents w this); s = states w target
      in if Map_has (basis s) value
         then rec (CollapseTo target value
                     \<lparr>m_reason = Some ''entanglement-collapse'', m_preMeasurementProbs = None\<rparr>) w
         else (Return (),
               put_state target
                 (s\<lparr>basis := [(value, new_Complex 1 0)],
                    isCollapsed := True,
                    collapsedValue := value,
                    measurementHistory := measurementHistory s @
                      [\<lparr>timestamp = Date_now w, result = value,
                        reason = ''entanglement-collapse'', preMeasurementProbs = []\<rparr>]\<rparr>) w))"

fun step :: "(call \<Rightarrow> action) \<Rightarrow> call \<Rightarrow> action" where
  "step rec (Normalize this) = normalize_body rec this"
| "step rec (UpdateEntanglement this source) = updateEntanglement_body rec this source"
| "step rec (OnMeasurement this measuredState measuredValue) =
     onMeasurement_body rec this measuredState measuredValue"
| "step rec (CollapseState2 this value) = collapseState2_body rec this value"
| "step rec (CollapseTo this value meta) = collapseTo_body rec this value meta"

primrec exec :: "nat \<Rightarrow> call \<Rightarrow> action" where
  "exec 0 = (\<lambda>c w. (Throw (RangeError ''Maximum call stack size exceeded''), w))"
| "exec (Suc n) = step (exec n)"

section \<open>QuantumState.js: the public methods that mutate\<close>

text \<open>
  Each takes the depth \<open>n\<close> of call stack left for the calls it makes, and the reference
  \<open>this\<close> of the object.
\<close>

definition normalize :: "nat \<Rightarrow> nat \<Rightarrow> action" where
  "normalize n this = exec n (Normalize this)"

definition collapseTo :: "nat \<Rightarrow> nat \<Rightarrow> val \<Rightarrow> metadata \<Rightarrow> action" where
  "collapseTo n this value meta = exec n (CollapseTo this value meta)"

text \<open>
  The \<open>amplitude\<close> argument of \<open>setAmplitude\<close> is any JavaScript value: \<open>None\<close> stands
  for one that is not an instance of \<open>Complex\<close>.
\<close>

definition setAmplitude :: "nat \<Rightarrow> nat \<Rightarrow> val \<Rightarrow> Complex_t option \<Rightarrow> action" where
  "setAmplitude n this value amplitude w =
     (case amplitude of
        None \<Rightarrow> (Throw (TypeError ''setAmplitude requires amplitude to be Complex.''), w)
      | Some a \<Rightarrow>
          (case pruneNearZeroAmplitudes
                  ((states w this)\<lparr>basis := Map_set (basis (states w this)) value a\<rparr>) of
             (Throw e, s) \<Rightarrow> (Throw e, put_state this s w)
           | (Return u, s) \<Rightarrow>
               if length (basis s) = 0
               then (Throw (Error ''Cannot set amplitude resulting in an empty quantum basis.''),
                     put_state this s w)
               else normalize n this (put_state this s w)))"

definition stabilize :: "nat \<Rightarrow> nat \<Rightarrow> action" where
  "stabilize n this w =
     (case pruneNearZeroAmplitudes (states w this) of
        (Throw e, s) \<Rightarrow> (Throw e, put_state this s w)
      | (Return u, s) \<Rightarrow> normalize n this (put_state this s w))"

fun walk :: "real \<Rightarrow> real \<Rightarrow> (val \<times> real) list \<Rightarrow> val" where
  "walk rand cumulative [] = VUndefined"
| "walk rand cumulative ((value, probability) # rest) =
     (if rand \<le> cumulative + probability then value
      else walk rand (cumulative + probability) rest)"

definition measure_qs :: "nat \<Rightarrow> nat \<Rightarrow> world \<Rightarrow> val outcome \<times> world" where
  "measure_qs n this w =
     (if isCollapsed (states w this) then (Return (collapsedValue (states w this)), w)
      else
        let probabilities = getProbabilities (states w this);
            rand = Math_random w (random_calls w);
            w1 = w\<lparr>random_calls := random_calls w + 1\<rparr>;
            picked = walk rand 0 probabilities;
            measuredValue =
              (if picked = VUndefined
               then (let values = map fst (basis (states w1 this))
                     in if values = [] then VUndefined else last values)
               else picked)
        in case collapseTo n this measuredValue
                  \<lparr>m_reason = Some ''measurement'', m_preMeasurementProbs = Some probabilities\<rparr> w1 of
             (Throw e, w2) \<Rightarrow> (Throw e, w2)
           | (Return u, w2) \<Rightarrow> (Return measuredValue, w2))"

section \<open>Entanglement.js: constructor and public methods\<close>

definition Set_add :: "'a list \<Rightarrow> 'a \<Rightarrow> 'a list" where
  "Set_add xs x = (if x \<in> set xs then xs else xs @ [x])"

definition new_Entanglement :: "nat \<Rightarrow> nat \<Rightarrow> nat \<Rightarrow> (val \<Rightarrow> val) \<Rightarrow> world \<Rightarrow> nat outcome \<times> world" where
  "new_Entanglement n s1 s2 f w =
     (if s1 = s2
      then (Throw (RangeError ''Entanglement requires two distinct quantum states.''), w)
      else
        let this = next_ref w;
            w1 = w\<lparr>ents := (ents w)(this := \<lparr>state1 = s1, state2 = s2, relationFn = f, isActive = True\<rparr>),
                   next_ref := Suc this\<rparr>;
            w2 = put_state s1 ((states w1 s1)\<lparr>entanglements := Set_add (entanglements (states w1 s1)) this\<rparr>) w1;
            w3 = put_state s2 ((states w2 s2)\<lparr>entanglements := Set_add (entanglements (states w2 s2)) this\<rparr>) w2
        in case exec n (UpdateEntanglement this None) w3 of
             (Throw e, w4) \<Rightarrow> (Throw e, w4)
           | (Return u, w4) \<Rightarrow> (Return this, w4))"

definition updateEntanglement :: "nat \<Rightarrow> nat \<Rightarrow> nat option \<Rightarrow> action" where
  "updateEntanglement n this source = exec n (UpdateEntanglement this source)"

definition onMeasurement :: "nat \<Rightarrow> nat \<Rightarrow> nat \<Rightarrow> val \<Rightarrow> action" where
  "onMeasurement n this measuredState measuredValue =
     exec n (OnMeasurement this measuredState measuredValue)"

definition collapseState2 :: "nat \<Rightarrow> nat \<Rightarrow> val \<Rightarrow> action" where
  "collapseState2 n this value = exec n (CollapseState2 this value)"

definition dispose :: "nat \<Rightarrow> world \<Rightarrow> world" where
  "dispose this w =
     (if \<not> isActive (ents w this) then w
      else
        let s1 = state1 (ents w this); s2 = state2 (ents w this);
            w1 = w\<lparr>ents := (ents w)(this := (ents w this)\<lparr>isActive := False\<rparr>)\<rparr>;
            w2 = put_state s1 ((states w1 s1)\<lparr>entanglements := removeAll this (entanglements (states w1 s1))\<rparr>) w1
        in put_state s2 ((states w2 s2)\<lparr>entanglements := removeAll this (entanglements (states w2 s2))\<rparr>) w2)"

section \<open>Interference.js\<close>

definition PRUNE_EPSILON :: real where
  "PRUNE_EPSILON = 1 / 10 ^ 12"

definition Number_EPSILON :: real where
  "Number_EPSILON = 1 / 2 ^ 52"

definition resolveWeights :: "nat \<Rightarrow> real list option \<Rightarrow> real list outcome" where
  "resolveWeights n weights =
     (case weights of
        None \<Rightarrow> Return (replicate n (1 / sqrt (real n)))
      | Some ws \<Rightarrow>
          if \<not> Array_isArray ws \<or> length ws \<noteq> n
          then Throw (RangeError ''weights must be an array of length ${size}.'')
          else
            let sumSquares = foldl (\<lambda>acc w. acc + w * w) 0 ws
            in if sumSquares \<le> Number_EPSILON
               then Throw (RangeError ''weights must not all be zero.'')
               else Return (map (\<lambda>w. w / sqrt sumSquares) ws))"

definition allValues :: "QuantumState list \<Rightarrow> val list" where
  "allValues qstates =
     foldl (\<lambda>acc state. foldl Set_add acc (map fst (basis state))) [] qstates"

definition combinedAmplitude :: "QuantumState list \<Rightarrow> real list \<Rightarrow> val \<Rightarrow> Complex_t" where
  "combinedAmplitude qstates resolvedWeights value =
     foldl (\<lambda>total (state, weight).
              Complex_add total (Complex_scale (getAmplitude state value) weight))
           Complex_zero (zip qstates resolvedWeights)"

definition interfere :: "QuantumState list \<Rightarrow> real list option \<Rightarrow> QuantumState outcome" where
  "interfere qstates weights =
     (if \<not> Array_isArray qstates \<or> length qstates = 0
      then Throw (RangeError ''Interference.interfere requires a non-empty array of QuantumState instances.'')
      else
        case resolveWeights (length qstates) weights of
          Throw e \<Rightarrow> Throw e
        | Return resolvedWeights \<Rightarrow>
            let entries =
                  filter (\<lambda>(value, total). Complex_magnitude total > PRUNE_EPSILON)
                    (map (\<lambda>value. (value, combinedAmplitude qstates resolvedWeights value))
                         (allValues qstates))
            in if length entries = 0
               then Throw (Error ''Interference cancelled all amplitudes to zero.'')
               else new_QuantumState entries)"

section \<open>QuantumGates.js\<close>

definition hadamard :: "QuantumState \<Rightarrow> QuantumState outcome" where
  "hadamard qstate =
     (case map fst (basis qstate) of
        [v0, v1] \<Rightarrow>
          (let a0 = getAmplitude qstate v0;
               a1 = getAmplitude qstate v1;
               factor = 1 / sqrt 2;
               nextA0 = Complex_scale (Complex_add a0 a1) factor;
               nextA1 = Complex_scale (Complex_subtract a0 a1) factor
           in new_QuantumState [(v0, nextA0), (v1, nextA1)])
      | _ \<Rightarrow> Throw (RangeError ''Hadamard requires exactly 2 basis states, received ${values.length}.''))"

definition phase_gate :: "QuantumState \<Rightarrow> val \<Rightarrow> real \<Rightarrow> QuantumState outcome" where
  "phase_gate qstate targetValue phaseAngle =
     (if \<not> Map_has (basis qstate) targetValue
      then Throw (RangeError ''Target value does not exist in quantum basis.'')
      else
        case Complex_fromPolar 1 phaseAngle of
          Throw e \<Rightarrow> Throw e
        | Return phaseFactor \<Rightarrow>
            new_QuantumState
              (map (\<lambda>(value, amplitude).
                      if value = targetValue
                      then (value, Complex_multiply amplitude phaseFactor)
                      else (value, Complex_clone amplitude))
                   (basis qstate)))"

definition rotate_gate :: "QuantumState \<Rightarrow> real \<Rightarrow> QuantumState outcome" where
  "rotate_gate qstate angle =
     (case Complex_fromPolar 1 angle of
        Throw e \<Rightarrow> Throw e
      | Return rotor \<Rightarrow>
          new_QuantumState
            (map (\<lambda>(value, amplitude). (value, Complex_multiply amplitude rotor)) (basis qstate)))"

text \<open>\<open>targetValues\<close> is an array or a set; only its membership test and emptiness are used.\<close>

definition amplify :: "QuantumState \<Rightarrow> val list \<Rightarrow> real \<Rightarrow> QuantumState outcome" where
  "amplify qstate targetValues factor =
     (if factor \<le> 0
      then Throw (RangeError ''Amplification factor must be a finite number > 0.'')
      else if targetValues = []
      then Throw (RangeError ''targetValues must contain at least one value.'')
      else
        let entries = map (\<lambda>(value, amplitude).
                             if value \<in> set targetValues
                             then (value, Complex_scale amplitude factor)
                             else (value, Complex_clone amplitude))
                          (basis qstate);
            matchedAny = list_ex (\<lambda>(value, amplitude). value \<in> set targetValues) (basis qstate)
        in if \<not> matchedAny
           then Throw (RangeError ''None of the targetValues exist in the quantum basis.'')
           else new_QuantumState entries)"

section \<open>QuantumConditionals.js and QuantumLoops.js\<close>

text \<open>
  A branch or body function returns a \<open>QuantumState\<close> or a plain value. The caller's
  functions are taken as pure and total.
\<close>

datatype branch_result = ResultState QuantumState | ResultValue val

definition coerceToState :: "branch_result \<Rightarrow> QuantumState outcome" where
  "coerceToState r =
     (case r of
        ResultState s \<Rightarrow> Return s
      | ResultValue v \<Rightarrow> new_QuantumState [(v, new_Complex 1 0)])"

definition coerceResultState :: "branch_result \<Rightarrow> QuantumState outcome" where
  "coerceResultState r =
     (case r of
        ResultState s \<Rightarrow> Return s
      | ResultValue v \<Rightarrow> new_QuantumState [(v, new_Complex 1 0)])"

text \<open>
  The inner loop shared by every combinator: each amplitude of the branch state, multiplied
  by the amplitude of the outcome that selected the branch, is added into \<open>combined\<close>.
\<close>

definition add_weighted :: "(val, Complex_t) js_map \<Rightarrow> Complex_t \<Rightarrow> (val \<times> Complex_t) list
                              \<Rightarrow> (val, Complex_t) js_map" where
  "add_weighted combined amplitude entries =
     foldl (\<lambda>m (resultValue, resultAmplitude).
              accumulate m (resultValue, Complex_multiply resultAmplitude amplitude))
           combined entries"

definition buildStateFromMap :: "(val, Complex_t) js_map \<Rightarrow> string \<Rightarrow> QuantumState outcome" where
  "buildStateFromMap amplitudeMap operation =
     (if length amplitudeMap = 0
      then Throw (Error (operation @ '' produced an empty superposition.''))
      else new_QuantumState amplitudeMap)"

fun quantumIf_loop :: "(val \<Rightarrow> branch_result) \<Rightarrow> (val \<Rightarrow> branch_result) \<Rightarrow> (val, Complex_t) js_map
                         \<Rightarrow> (val \<times> Complex_t) list \<Rightarrow> (val, Complex_t) js_map outcome" where
  "quantumIf_loop thenBranch elseBranch combined [] = Return combined"
| "quantumIf_loop thenBranch elseBranch combined ((conditionValue, conditionAmplitude) # rest) =
     (case coerceToState (if truthy conditionValue then thenBranch conditionValue
                          else elseBranch conditionValue) of
        Throw e \<Rightarrow> Throw e
      | Return branchState \<Rightarrow>
          quantumIf_loop thenBranch elseBranch
            (add_weighted combined conditionAmplitude (basis branchState)) rest)"

definition quantumIf :: "QuantumState \<Rightarrow> (val \<Rightarrow> branch_result) \<Rightarrow> (val \<Rightarrow> branch_result)
                           \<Rightarrow> QuantumState outcome" where
  "quantumIf condition thenBranch elseBranch =
     (case quantumIf_loop thenBranch elseBranch [] (basis condition) of
        Throw e \<Rightarrow> Throw e
      | Return combined \<Rightarrow> buildStateFromMap combined ''quantumIf'')"

text \<open>
  \<open>quantumSwitch\<close>: \<open>cases\<close> is a plain object, read here through its own-property lookup
  at an outcome value; a property holds a function, \<open>undefined\<close>, or something else.
\<close>

datatype handler = HUndefined | HNotFunction | HFunction "val \<Rightarrow> branch_result"

fun quantumSwitch_loop :: "(val \<Rightarrow> handler option) \<Rightarrow> handler \<Rightarrow> (val, Complex_t) js_map
                             \<Rightarrow> (val \<times> Complex_t) list \<Rightarrow> (val, Complex_t) js_map outcome" where
  "quantumSwitch_loop cases defaultCase combined [] = Return combined"
| "quantumSwitch_loop cases defaultCase combined ((value, amplitude) # rest) =
     (case (case cases value of Some h \<Rightarrow> h | None \<Rightarrow> defaultCase) of
        HUndefined \<Rightarrow> quantumSwitch_loop cases defaultCase combined rest
      | HNotFunction \<Rightarrow> Throw (TypeError ''quantumSwitch handler must be a function.'')
      | HFunction f \<Rightarrow>
          (case coerceToState (f value) of
             Throw e \<Rightarrow> Throw e
           | Return branchState \<Rightarrow>
               quantumSwitch_loop cases defaultCase
                 (add_weighted combined amplitude (basis branchState)) rest))"

definition quantumSwitch :: "QuantumState \<Rightarrow> (val \<Rightarrow> handler option) \<Rightarrow> handler \<Rightarrow> QuantumState outcome" where
  "quantumSwitch qstate cases defaultCase =
     (case defaultCase of
        HNotFunction \<Rightarrow> Throw (TypeError ''quantumSwitch defaultCase must be a function.'')
      | _ \<Rightarrow>
          (case quantumSwitch_loop cases defaultCase [] (basis qstate) of
             Throw e \<Rightarrow> Throw e
           | Return combined \<Rightarrow> buildStateFromMap combined ''quantumSwitch''))"

fun applyBody_loop :: "(val \<Rightarrow> nat \<Rightarrow> branch_result) \<Rightarrow> nat \<Rightarrow> (val, Complex_t) js_map
                         \<Rightarrow> (val \<times> Complex_t) list \<Rightarrow> (val, Complex_t) js_map outcome" where
  "applyBody_loop bodyFn iteration combined [] = Return combined"
| "applyBody_loop bodyFn iteration combined ((value, amplitude) # rest) =
     (case coerceResultState (bodyFn value iteration) of
        Throw e \<Rightarrow> Throw e
      | Return resultState \<Rightarrow>
          applyBody_loop bodyFn iteration
            (add_weighted combined amplitude (basis resultState)) rest)"

definition applyBodyToState :: "QuantumState \<Rightarrow> nat \<Rightarrow> (val \<Rightarrow> nat \<Rightarrow> branch_result)
                                  \<Rightarrow> QuantumState outcome" where
  "applyBodyToState state iteration bodyFn =
     (case applyBody_loop bodyFn iteration [] (basis state) of
        Throw e \<Rightarrow> Throw e
      | Return combined \<Rightarrow> buildStateFromMap combined ''quantumFor'')"

fun applyConditionalBody_loop :: "(val \<Rightarrow> bool) \<Rightarrow> (val \<Rightarrow> nat \<Rightarrow> branch_result) \<Rightarrow> nat
        \<Rightarrow> (val, Complex_t) js_map \<Rightarrow> (val \<times> Complex_t) list \<Rightarrow> (val, Complex_t) js_map outcome" where
  "applyConditionalBody_loop condition bodyFn iteration combined [] = Return combined"
| "applyConditionalBody_loop condition bodyFn iteration combined ((value, amplitude) # rest) =
     (if \<not> condition value
      then applyConditionalBody_loop condition bodyFn iteration
             (accumulate combined (value, amplitude)) rest
      else
        case coerceResultState (bodyFn value iteration) of
          Throw e \<Rightarrow> Throw e
        | Return resultState \<Rightarrow>
            applyConditionalBody_loop condition bodyFn iteration
              (add_weighted combined amplitude (basis resultState)) rest)"

definition applyConditionalBody :: "QuantumState \<Rightarrow> nat \<Rightarrow> (val \<Rightarrow> bool)
                                      \<Rightarrow> (val \<Rightarrow> nat \<Rightarrow> branch_result) \<Rightarrow> QuantumState outcome" where
  "applyConditionalBody state iteration condition bodyFn =
     (case applyConditionalBody_loop condition bodyFn iteration [] (basis state) of
        Throw e \<Rightarrow> Throw e
      | Return combined \<Rightarrow> buildStateFromMap combined ''quantumWhile'')"

record for_result =
  for_finalState :: QuantumState
  for_history :: "QuantumState list"

function for_loop :: "(val \<Rightarrow> nat \<Rightarrow> branch_result) \<Rightarrow> nat \<Rightarrow> nat \<Rightarrow> QuantumState
                        \<Rightarrow> QuantumState list \<Rightarrow> for_result outcome" where
  "for_loop bodyFn iterations index currentState history =
     (if index < iterations then
        (case applyBodyToState currentState index bodyFn of
           Throw e \<Rightarrow> Throw e
         | Return nextState \<Rightarrow>
             (case clone nextState of
                Throw e \<Rightarrow> Throw e
              | Return snapshot \<Rightarrow>
                  for_loop bodyFn iterations (index + 1) nextState (history @ [snapshot])))
      else Return \<lparr>for_finalState = currentState, for_history = history\<rparr>)"
  by pat_completeness auto
termination
  by (relation "measure (\<lambda>(bodyFn, iterations, index, currentState, history). iterations - index)") auto

declare for_loop.simps [simp del]

text \<open>The iteration counts are JavaScript numbers checked to be non-negative integers.\<close>

definition quantumFor :: "int \<Rightarrow> QuantumState \<Rightarrow> (val \<Rightarrow> nat \<Rightarrow> branch_result) \<Rightarrow> for_result outcome" where
  "quantumFor iterations initialState bodyFn =
     (if iterations < 0
      then Throw (RangeError ''quantumFor iterations must be a non-negative integer.'')
      else
        case clone initialState of
          Throw e \<Rightarrow> Throw e
        | Return currentState \<Rightarrow>
            (case clone currentState of
               Throw e \<Rightarrow> Throw e
             | Return snapshot \<Rightarrow> for_loop bodyFn (nat iterations) 0 currentState [snapshot]))"

record while_result =
  finalState :: QuantumState
  history :: "QuantumState list"
  iterations :: nat
  terminatedByMaxIterations :: bool

definition anyTrue :: "(val \<Rightarrow> bool) \<Rightarrow> QuantumState \<Rightarrow> bool" where
  "anyTrue condition currentState = list_ex (\<lambda>(value, amplitude). condition value) (basis currentState)"

function while_loop :: "(val \<Rightarrow> bool) \<Rightarrow> (val \<Rightarrow> nat \<Rightarrow> branch_result) \<Rightarrow> nat \<Rightarrow> nat
                          \<Rightarrow> QuantumState \<Rightarrow> QuantumState list \<Rightarrow> while_result outcome" where
  "while_loop condition bodyFn maxIterations iteration currentState hist =
     (if iteration < maxIterations then
        (if \<not> anyTrue condition currentState
         then Return \<lparr>finalState = currentState, history = hist,
                      iterations = iteration, terminatedByMaxIterations = False\<rparr>
         else
           case applyConditionalBody currentState iteration condition bodyFn of
             Throw e \<Rightarrow> Throw e
           | Return nextState \<Rightarrow>
               (case clone nextState of
                  Throw e \<Rightarrow> Throw e
                | Return snapshot \<Rightarrow>
                    while_loop condition bodyFn maxIterations (iteration + 1) nextState
                      (hist @ [snapshot])))
      else Return \<lparr>finalState = currentState, history = hist,
                   iterations = iteration, terminatedByMaxIterations = True\<rparr>)"
  by pat_completeness auto
termination
  by (relation "measure (\<lambda>(condition, bodyFn, maxIterations, iteration, currentState, hist).
                           maxIterations - iteration)") auto

declare while_loop.simps [simp del]

definition quantumWhile :: "(val \<Rightarrow> bool) \<Rightarrow> (val \<Rightarrow> nat \<Rightarrow> branch_result) \<Rightarrow> QuantumState \<Rightarrow> int
                              \<Rightarrow> while_result outcome" where
  "quantumWhile condition bodyFn initialState maxIterations =
     (if maxIterations < 0
      then Throw (RangeError ''quantumWhile maxIterations must be a non-negative integer.'')
      else
        case clone initialState of
          Throw e \<Rightarrow> Throw e
        | Return currentState \<Rightarrow>
            (case clone currentState of
               Throw e \<Rightarrow> Throw e
             | Return snapshot \<Rightarrow>
                 while_loop condition bodyFn (nat maxIterations) 0 currentState [snapshot]))"

section \<open>Concrete heaps used to exercise the theorems\<close>

definition blank_state :: QuantumState where
  "blank_state = \<lparr>basis = [], entanglements = [], measurementHistory = [],
                   isCollapsed = False, collapsedValue = VUndefined\<rparr>"

definition blank_world :: world where
  "blank_world = \<lparr>states = (\<lambda>r. blank_state),
                   ents = (\<lambda>r. \<lparr>state1 = 0, state2 = 0, relationFn = (\<lambda>v. VUndefined), isActive = False\<rparr>),
                   next_ref = 0, Date_now = 0, Math_random = (\<lambda>k. 0), random_calls = 0\<rparr>"

definition classical_A :: QuantumState where
  "classical_A = \<lparr>basis = [(VStr ''A'', new_Complex 1 0)], entanglements = [],
                   measurementHistory = [], isCollapsed = True, collapsedValue = VStr ''A''\<rparr>"

definition cascade_source :: QuantumState where
  "cascade_source = \<lparr>basis = [(VNum 0, new_Complex 1 0)], entanglements = [],
                      measurementHistory = [], isCollapsed = True, collapsedValue = VNum 0\<rparr>"

definition classical_B :: QuantumState where
  "classical_B = \<lparr>basis = [(VStr ''B'', new_Complex 1 0)], entanglements = [],
                   measurementHistory = [], isCollapsed = True, collapsedValue = VStr ''B''\<rparr>"

definition cascade_world :: world where
  "cascade_world = put_state 0 cascade_source (put_state 1 classical_B blank_world)"

definition cascade_map :: "val \<Rightarrow> val" where
  "cascade_map v = (if v = VNum 0 then VStr ''A'' else VUndefined)"

definition plus_state :: QuantumState where
  "plus_state = \<lparr>basis = [(VStr ''A'', new_Complex (1 / sqrt 2) 0), (VStr ''B'', new_Complex (1 / sqrt 2) 0)],
                  entanglements = [], measurementHistory = [], isCollapsed = False,
                  collapsedValue = VUndefined\<rparr>"

definition minus_state :: QuantumState where
  "minus_state = \<lparr>basis = [(VStr ''A'', new_Complex (- (1 / sqrt 2)) 0), (VStr ''B'', new_Complex (1 / sqrt 2) 0)],
                  entanglements = [], measurementHistory = [], isCollapsed = False,
                  collapsedValue = VUndefined\<rparr>"

definition classical_X :: QuantumState where
  "classical_X = \<lparr>basis = [(VStr ''X'', new_Complex 1 0)], entanglements = [],
                   measurementHistory = [], isCollapsed = True, collapsedValue = VStr ''X''\<rparr>"


text \<open>
  The weighting law of \<open>quantumIf\<close> as the specification words it, to compare with the
  loop above. It is written over the complex numbers of HOL, not over the operations of
  \<open>Complex.js\<close>: every branch result is coerced to a superposition (a plain value
  becomes the single-outcome state with amplitude (1,0)); every outcome \<open>v\<close> of the
  condition selects \<open>thenFn v\<close> if \<open>v\<close> is truthy and \<open>elseFn v\<close> otherwise; every
  amplitude of the branch result is multiplied by the amplitude of \<open>v\<close>; the products are
  merged by complex addition per result value.
\<close>

definition to_complex :: "Complex_t \<Rightarrow> complex" where
  "to_complex z = Complex (real_c z) (imag_c z)"

definition amplitude_at :: "(val, Complex_t) js_map \<Rightarrow> val \<Rightarrow> Complex_t" where
  "amplitude_at m k = (case Map_get m k of Some a \<Rightarrow> a | None \<Rightarrow> Complex_zero)"

definition branch_state :: "branch_result \<Rightarrow> QuantumState" where
  "branch_state r =
     (case r of
        ResultState s \<Rightarrow> s
      | ResultValue v \<Rightarrow> \<lparr>basis = [(v, new_Complex 1 0)], entanglements = [],
                          measurementHistory = [], isCollapsed = True, collapsedValue = v\<rparr>)"

definition weighted_branch :: "(val \<Rightarrow> branch_result) \<Rightarrow> (val \<Rightarrow> branch_result)
                                 \<Rightarrow> val \<times> Complex_t \<Rightarrow> (val \<times> complex) list" where
  "weighted_branch thenFn elseFn outcome =
     map (\<lambda>(r, b). (r, to_complex b * to_complex (snd outcome)))
         (basis (branch_state (if truthy (fst outcome) then thenFn (fst outcome)
                               else elseFn (fst outcome))))"

definition quantumIf_contributions :: "QuantumState \<Rightarrow> (val \<Rightarrow> branch_result)
                                         \<Rightarrow> (val \<Rightarrow> branch_result) \<Rightarrow> (val \<times> complex) list" where
  "quantumIf_contributions condition thenFn elseFn =
     concat (map (weighted_branch thenFn elseFn) (basis condition))"

definition merged_amplitude :: "(val \<times> complex) list \<Rightarrow> val \<Rightarrow> complex" where
  "merged_amplitude contributions r =
     sum_list (map snd (filter (\<lambda>(k, x). k = r) contributions))"

definition condition_70_30 :: QuantumState where
  "condition_70_30 = \<lparr>basis = [(VBool True, new_Complex (sqrt (7 / 10)) 0),
                                (VBool False, new_Complex (sqrt (3 / 10)) 0)],
                       entanglements = [], measurementHistory = [], isCollapsed = False,
                       collapsedValue = VUndefined\<rparr>"

definition result_70_30 :: QuantumState where
  "result_70_30 = \<lparr>basis = [(VStr ''then'', new_Complex (sqrt (7 / 10)) 0),
                             (VStr ''else'', new_Complex (sqrt (3 / 10)) 0)],
                    entanglements = [], measurementHistory = [], isCollapsed = False,
                    collapsedValue = VUndefined\<rparr>"

text \<open>
  A condition and two branches whose amplitudes are not units and whose results collide:
  the outcome 1 (truthy) has amplitude 3/5 and selects \<open>{x: 3/5, y: 4/5 i}\<close>, the outcome
  \<open>''\<close> (the empty string, falsy) has amplitude 4/5 i and selects \<open>{y: i}\<close>.
\<close>

definition condition_3_4 :: QuantumState where
  "condition_3_4 = \<lparr>basis = [(VNum 1, new_Complex (3 / 5) 0), (VStr [], new_Complex 0 (4 / 5))],
                     entanglements = [], measurementHistory = [], isCollapsed = False,
                     collapsedValue = VUndefined\<rparr>"

definition then_xy :: QuantumState where
  "then_xy = \<lparr>basis = [(VStr ''x'', new_Complex (3 / 5) 0), (VStr ''y'', new_Complex 0 (4 / 5))],
               entanglements = [], measurementHistory = [], isCollapsed = False,
               collapsedValue = VUndefined\<rparr>"

definition else_y :: QuantumState where
  "else_y = \<lparr>basis = [(VStr ''y'', new_Complex 0 1)],
              entanglements = [], measurementHistory = [], isCollapsed = False,
              collapsedValue = VUndefined\<rparr>"

definition result_3_4 :: QuantumState where
  "result_3_4 = \<lparr>basis = [(VStr ''x'', new_Complex (9 / 25) 0),
                           (VStr ''y'', new_Complex (- (4 / 5)) (12 / 25))],
                  entanglements = [], measurementHistory = [], isCollapsed = False,
                  collapsedValue = VUndefined\<rparr>"

text \<open>
  Whether the object is the source (\<open>state1\<close>) of an active entanglement registered on
  it: only then do its notifications propagate anything.
\<close>

definition is_active_source :: "world \<Rightarrow> nat \<Rightarrow> bool" where
  "is_active_source w this =
     list_ex (\<lambda>x. isActive (ents w x) \<and> state1 (ents w x) = this) (entanglements (states w this))"

definition pruned_overwrite :: "QuantumState \<Rightarrow> val \<Rightarrow> Complex_t \<Rightarrow> (val, Complex_t) js_map" where
  "pruned_overwrite s value a =
     filter (\<lambda>(k, amplitude). \<not> Complex_magnitude amplitude < AMPLITUDE_PRUNE_EPSILON)
            (Map_set (basis s) value a)"

definition A_to_x :: "val \<Rightarrow> val" where
  "A_to_x v = (if v = VStr ''A'' then VStr ''x'' else VUndefined)"

definition correlated_world :: world where
  "correlated_world =
     blank_world\<lparr>states := (\<lambda>r. blank_state)
                    (0 := classical_A\<lparr>entanglements := [0]\<rparr>,
                     1 := \<lparr>basis = [(VStr ''x'', new_Complex 1 0)], entanglements = [0],
                           measurementHistory = [], isCollapsed = True,
                           collapsedValue = VStr ''x''\<rparr>),
                  ents := (\<lambda>r. \<lparr>state1 = 0, state2 = 0, relationFn = (\<lambda>v. VUndefined), isActive = False\<rparr>)
                    (0 := \<lparr>state1 = 0, state2 = 1, relationFn = A_to_x, isActive = True\<rparr>),
                  next_ref := 1\<rparr>"

text \<open>
  The entanglement graph: an edge from the source to the target of every active
  entanglement. \<open>targets w c\<close> are the objects a call writes itself before any nested
  call; the objects a call can write at all are those reachable from its targets.
\<close>

definition edges :: "world \<Rightarrow> (nat \<times> nat) set" where
  "edges w = {(a, b). \<exists>e. isActive (ents w e) \<and> state1 (ents w e) = a \<and> state2 (ents w e) = b}"

fun targets :: "world \<Rightarrow> call \<Rightarrow> nat set" where
  "targets w (Normalize this) = {this}"
| "targets w (CollapseTo this value meta) = {this}"
| "targets w (CollapseState2 e value) = {state2 (ents w e)}"
| "targets w (UpdateEntanglement e source) =
     (if isActive (ents w e) \<and> (source = None \<or> source = Some (state1 (ents w e)))
      then {state2 (ents w e)} else {})"
| "targets w (OnMeasurement e measuredState measuredValue) =
     (if isActive (ents w e) \<and> measuredState = state1 (ents w e)
      then {state2 (ents w e)} else {})"

text \<open>
  \<open>same_except R w w'\<close>: from \<open>w\<close> to \<open>w'\<close> only \<open>QuantumState\<close> objects in \<open>R\<close> changed,
  and of those neither the registered entanglements; the entanglement objects, the clock and
  the random generator are as they were.
\<close>

definition same_except :: "nat set \<Rightarrow> world \<Rightarrow> world \<Rightarrow> bool" where
  "same_except R w w' \<longleftrightarrow>
     ents w' = ents w \<and> next_ref w' = next_ref w \<and> Date_now w' = Date_now w \<and>
     Math_random w' = Math_random w \<and> random_calls w' = random_calls w \<and>
     (\<forall>t. entanglements (states w' t) = entanglements (states w t)) \<and>
     (\<forall>t. t \<notin> R \<longrightarrow> states w' t = states w t)"

definition frame_ok :: "(call \<Rightarrow> action) \<Rightarrow> bool" where
  "frame_ok rec \<longleftrightarrow>
     (\<forall>c w r w'. rec c w = (r, w') \<longrightarrow> same_except ((edges w)\<^sup>* `` targets w c) w w')"

text \<open>The entanglement graph without the edge of one entanglement.\<close>

definition edges_without :: "nat \<Rightarrow> world \<Rightarrow> (nat \<times> nat) set" where
  "edges_without e w =
     {(a, b). \<exists>e'. e' \<noteq> e \<and> isActive (ents w e') \<and> state1 (ents w e') = a \<and> state2 (ents w e') = b}"

definition fair_coin_world :: world where
  "fair_coin_world = put_state 0 plus_state blank_world"

text \<open>
  The calls made while a collapse propagates: \<open>collapseTo\<close>, \<open>onMeasurement\<close> and
  \<open>_collapseState2\<close> call only each other. \<open>keeps_collapsed rec\<close>: whatever such a call
  does through \<open>rec\<close>, returning or raising, an object that was collapsed is collapsed
  afterwards.
\<close>

fun collapsing :: "call \<Rightarrow> bool" where
  "collapsing (Normalize this) = False"
| "collapsing (UpdateEntanglement e source) = False"
| "collapsing (OnMeasurement e measuredState measuredValue) = True"
| "collapsing (CollapseState2 e value) = True"
| "collapsing (CollapseTo this value meta) = True"

definition keeps_collapsed :: "(call \<Rightarrow> action) \<Rightarrow> bool" where
  "keeps_collapsed rec \<longleftrightarrow>
     (\<forall>c w r w' t. collapsing c \<longrightarrow> rec c w = (r, w') \<longrightarrow> isCollapsed (states w t)
        \<longrightarrow> isCollapsed (states w' t))"

text \<open>Replacing the process-wide generator and its position.\<close>

definition reseed :: "(nat \<Rightarrow> real) \<Rightarrow> nat \<Rightarrow> world \<Rightarrow> world" where
  "reseed g k w = w\<lparr>Math_random := g, random_calls := k\<rparr>"

definition reseeds :: "(nat \<Rightarrow> real) \<Rightarrow> nat \<Rightarrow> (call \<Rightarrow> action) \<Rightarrow> bool" where
  "reseeds g k rec \<longleftrightarrow> (\<forall>c w. rec c (reseed g k w) = apsnd (reseed g k) (rec c w))"

text \<open>The outcome \<open>measure\<close> selects for a given sample: the walk, then the guard.\<close>

definition measured_value :: "real \<Rightarrow> QuantumState \<Rightarrow> val" where
  "measured_value rand s =
     (if walk rand 0 (getProbabilities s) = VUndefined
      then (if map fst (basis s) = [] then VUndefined else last (map fst (basis s)))
      else walk rand 0 (getProbabilities s))"

definition seeded :: "nat \<Rightarrow> real" where
  "seeded j = (if j = 7 then 0 else 1)"

text \<open>
  The invariants of a superposition: the basis is not empty, no entry is below the prune
  epsilon, and the squared magnitudes sum to 1 within \<open>1e-9\<close>.
\<close>

definition normalized :: "QuantumState \<Rightarrow> bool" where
  "normalized s \<longleftrightarrow>
     basis s \<noteq> [] \<and>
     (\<forall>entry\<in>set (basis s). AMPLITUDE_PRUNE_EPSILON \<le> Complex_magnitude (snd entry)) \<and>
     \<bar>totalProbability (basis s) - 1\<bar> \<le> 1 / 10 ^ 9"

text \<open>
  For the propagation: a bound on the size of every basis in the heap, and the relation
  between the heap before and after a call that every object the call wrote satisfies the
  invariants, within the bound.
\<close>

definition bounded :: "nat \<Rightarrow> world \<Rightarrow> bool" where
  "bounded K w \<longleftrightarrow> (\<forall>t. length (basis (states w t)) \<le> K)"

definition fits :: "nat \<Rightarrow> QuantumState \<Rightarrow> bool" where
  "fits K s \<longleftrightarrow> normalized s \<and> length (basis s) \<le> K"

definition good :: "nat \<Rightarrow> world \<Rightarrow> world \<Rightarrow> bool" where
  "good K w w' \<longleftrightarrow> ents w' = ents w \<and> (\<forall>t. states w' t = states w t \<or> fits K (states w' t))"

fun established :: "nat \<Rightarrow> world \<Rightarrow> call \<Rightarrow> bool" where
  "established K w' (Normalize this) = fits K (states w' this)"
| "established K w' (CollapseTo this value meta) = fits K (states w' this)"
| "established K w' (CollapseState2 e value) = fits K (states w' (state2 (ents w' e)))"
| "established K w' (UpdateEntanglement e source) = True"
| "established K w' (OnMeasurement e measuredState measuredValue) = True"

definition keeps_normalized :: "nat \<Rightarrow> (call \<Rightarrow> action) \<Rightarrow> bool" where
  "keeps_normalized K rec \<longleftrightarrow>
     (\<forall>c w u w'. bounded K w \<and> rec c w = (Return u, w') \<longrightarrow> good K w w' \<and> established K w' c)"

text \<open>The sum of the squared magnitudes of a basis, as a sum over the list.\<close>

definition mass :: "(val, Complex_t) js_map \<Rightarrow> real" where
  "mass b = sum_list (map (\<lambda>entry. Complex_magnitudeSquared (snd entry)) b)"

text \<open>
  Three objects correlated in a ring, built by the constructors alone:
  \<open>a = new Entanglement(s1, s2, v => v === 'A' ? 'p' : 'q')\<close>,
  \<open>b = new Entanglement(s2, s0, () => 'k')\<close> and \<open>c = new Entanglement(s0, s1, () => 'z')\<close>,
  on \<open>s0\<close> and \<open>s2\<close> classical and \<open>s1\<close> an even superposition of \<open>A\<close> and \<open>B\<close>.
\<close>

definition to_pq :: "val \<Rightarrow> val" where
  "to_pq v = (if v = VStr ''A'' then VStr ''p'' else VStr ''q'')"

definition to_k :: "val \<Rightarrow> val" where
  "to_k v = VStr ''k''"

definition to_z :: "val \<Rightarrow> val" where
  "to_z v = VStr ''z''"

definition ring_start :: world where
  "ring_start = put_state 0 classical_A (put_state 1 plus_state (put_state 2 classical_A blank_world))"

definition ring_a :: world where
  "ring_a = snd (new_Entanglement 3 1 2 to_pq ring_start)"

definition ring_b :: world where
  "ring_b = snd (new_Entanglement 3 2 0 to_k ring_a)"

definition ring_world :: world where
  "ring_world = snd (new_Entanglement 3 0 1 to_z ring_b)"

text \<open>
  A counting loop: the condition \<open>(value) => value < 2\<close> and the body
  \<open>(value) => value + 1\<close>, on number outcomes, and the classical state of a number.
\<close>

definition below_two :: "val \<Rightarrow> bool" where
  "below_two v = (case v of VNum x \<Rightarrow> x < 2 | _ \<Rightarrow> False)"

definition add_one :: "val \<Rightarrow> nat \<Rightarrow> branch_result" where
  "add_one v i = ResultValue (case v of VNum x \<Rightarrow> VNum (x + 1) | _ \<Rightarrow> v)"

definition classical_num :: "real \<Rightarrow> QuantumState" where
  "classical_num x = \<lparr>basis = [(VNum x, new_Complex 1 0)], entanglements = [],
                       measurementHistory = [], isCollapsed = True, collapsedValue = VNum x\<rparr>"

section \<open>Measurement of a collapsed state\<close>

text \<open>
  C9. For every superposition that is already collapsed, a further \<open>measure()\<close> call returns
  the stored \<open>collapsedValue\<close> and leaves everything unchanged: the basis, the collapsed
  flag and value, and the measurement history of the object (no audit record is appended),
  and indeed the whole heap, whatever call-stack depth is available.
\<close>

theorem measure_collapsed_unchanged:
  assumes "isCollapsed (states w this)"
  shows "measure_qs n this w = (Return (collapsedValue (states w this)), w)"
  using assms by (simp add: measure_qs_def)

theorem measure_collapsed_unchanged_witness:
  "isCollapsed (states (put_state 0 classical_A blank_world) 0) \<and>
   measure_qs 3 0 (put_state 0 classical_A blank_world)
     = (Return (VStr ''A''), put_state 0 classical_A blank_world)"
  using measure_collapsed_unchanged [of "put_state 0 classical_A blank_world" 0 3]
  by (simp add: put_state_def classical_A_def)
section \<open>Auxiliary facts\<close>

lemma magnitude_real_axis [simp]: "Complex_magnitude (new_Complex x 0) = \<bar>x\<bar>"
  by (simp add: Complex_magnitude_def)

lemma sqrt2_bounds: "1 < sqrt 2" "sqrt 2 < 2"
proof -
  show "1 < sqrt 2" by simp
  show "sqrt 2 < 2" by (rule real_less_lsqrt) simp_all
qed

lemma sqrt2_not_pruned: "\<not> sqrt 2 * 1000000000000 < 1" "sqrt 2 * 1000000000000 \<noteq> 1"
proof -
  have "1 < sqrt 2" by simp
  then show "\<not> sqrt 2 * 1000000000000 < 1" "sqrt 2 * 1000000000000 \<noteq> 1" by linarith+
qed

lemma inv_sqrt2_not_pruned: "\<not> 1 / sqrt 2 < (1::real) / 10 ^ 12"
proof -
  have "1 / 2 < 1 / sqrt 2" using sqrt2_bounds by (simp add: field_simps)
  then show ?thesis by simp
qed

lemmas ctor_defs = new_QuantumState_def Array_isArray_def accumulate_def Complex_add_def Complex_zero_def
      pruneNearZeroAmplitudes_def AMPLITUDE_PRUNE_EPSILON_def normalize_this_def
      totalProbability_def Complex_magnitudeSquared_def NORMALIZATION_EPSILON_def
      Complex_scale_def updateCollapsedFlags_def Complex_equals_def Let_def

lemma Map_get_Map_set: "Map_get (Map_set m k v) r = (if k = r then Some v else Map_get m r)"
  by (induction m) auto

lemma keys_Map_set:
  "map fst (Map_set m k v) = (if k \<in> set (map fst m) then map fst m else map fst m @ [k])"
  by (induction m) force+

lemma amplitude_at_accumulate:
  "amplitude_at (accumulate m (k, x)) r =
     (if k = r then Complex_add (amplitude_at m r) x else amplitude_at m r)"
  by (simp add: amplitude_at_def accumulate_def Map_get_Map_set)

lemma keys_accumulate:
  "map fst (accumulate m e) = (if fst e \<in> set (map fst m) then map fst m else map fst m @ [fst e])"
  by (simp add: accumulate_def keys_Map_set)

lemma amplitude_at_foldl_accumulate:
  "amplitude_at (foldl accumulate m xs) r =
     foldl Complex_add (amplitude_at m r) (map snd (filter (\<lambda>(k, x). k = r) xs))"
proof (induction xs arbitrary: m)
  case Nil
  show ?case by simp
next
  case (Cons e xs)
  obtain k x where e: "e = (k, x)" by (cases e)
  show ?case by (simp add: e Cons.IH amplitude_at_accumulate)
qed

lemma distinct_foldl_accumulate:
  "distinct (map fst m) \<Longrightarrow> distinct (map fst (foldl accumulate m xs))"
proof (induction xs arbitrary: m)
  case Nil
  then show ?case by simp
next
  case (Cons e xs)
  have "distinct (map fst (accumulate m e))"
    using Cons.prems by (simp add: keys_accumulate)
  then show ?case using Cons.IH by simp
qed

lemma keys_foldl_accumulate:
  "set (map fst (foldl accumulate m xs)) = set (map fst m) \<union> set (map fst xs)"
proof (induction xs arbitrary: m)
  case Nil
  show ?case by simp
next
  case (Cons e xs)
  have "set (map fst (accumulate m e)) = insert (fst e) (set (map fst m))"
    by (auto simp add: keys_accumulate)
  then show ?case using Cons.IH [of "accumulate m e"] by auto
qed

lemma coerceToState_total: "coerceToState r = Return (branch_state r)"
  by (cases r) (simp_all add: coerceToState_def branch_state_def ctor_defs)

lemma coerceResultState_total: "coerceResultState r = Return (branch_state r)"
  by (cases r) (simp_all add: coerceResultState_def branch_state_def ctor_defs)

lemma add_weighted_foldl:
  "add_weighted combined a entries =
     foldl accumulate combined (map (\<lambda>(r, b). (r, Complex_multiply b a)) entries)"
  by (simp add: add_weighted_def foldl_map case_prod_unfold)

lemma quantumIf_loop_foldl:
  "quantumIf_loop thenFn elseFn m entries =
     Return (foldl accumulate m
       (concat (map (\<lambda>(v, a). map (\<lambda>(r, b). (r, Complex_multiply b a))
                                  (basis (branch_state (if truthy v then thenFn v else elseFn v))))
                    entries)))"
proof (induction entries arbitrary: m)
  case Nil
  show ?case by simp
next
  case (Cons e entries)
  obtain v a where e: "e = (v, a)" by (cases e)
  show ?case
    by (simp add: e coerceToState_total add_weighted_foldl Cons.IH)
qed

lemma pruneNearZeroAmplitudes_fields:
  assumes "pruneNearZeroAmplitudes s = (r, s')"
  shows "entanglements s' = entanglements s \<and> measurementHistory s' = measurementHistory s \<and>
         isCollapsed s' = isCollapsed s \<and> collapsedValue s' = collapsedValue s \<and>
         basis s' = filter (\<lambda>(k, amplitude). \<not> Complex_magnitude amplitude < AMPLITUDE_PRUNE_EPSILON) (basis s) \<and>
         (r = Return () \<or> (r = Throw (Error ''Quantum state has no non-zero amplitudes after pruning.'') \<and> basis s' = []))"
  using assms by (auto simp add: pruneNearZeroAmplitudes_def Let_def split: if_splits)

lemma updateCollapsedFlags_fields:
  "entanglements (updateCollapsedFlags s) = entanglements s \<and>
   measurementHistory (updateCollapsedFlags s) = measurementHistory s \<and>
   basis (updateCollapsedFlags s) = basis s"
  by (simp add: updateCollapsedFlags_def Let_def split: list.splits prod.splits)

lemma normalize_this_fields:
  assumes "normalize_this s = (r, s')"
  shows "entanglements s' = entanglements s \<and> measurementHistory s' = measurementHistory s"
  using assms
  by (auto simp add: normalize_this_def Let_def updateCollapsedFlags_fields
      split: if_splits prod.splits outcome.splits dest!: pruneNearZeroAmplitudes_fields)

lemma normalize_this_throw:
  assumes "normalize_this s = (Throw e, s')"
  shows "isCollapsed s' = isCollapsed s \<and> collapsedValue s' = collapsedValue s \<and>
         (basis s' = basis s \<or> basis s' = [])"
  using assms
  by (auto simp add: normalize_this_def Let_def
      split: if_splits prod.splits outcome.splits dest!: pruneNearZeroAmplitudes_fields)

lemma notify_updates_noop:
  assumes "\<forall>x\<in>set es. \<not> (isActive (ents w x) \<and> state1 (ents w x) = this)"
  shows "for_each (\<lambda>x. exec (Suc k) (UpdateEntanglement x (Some this))) es w = (Return (), w)"
  using assms by (induction es) (auto simp add: updateEntanglement_body_def)


lemma normalize_no_propagation:
  assumes na: "\<not> is_active_source w this"
    and nt: "normalize_this (states w this) = (r, s')"
  shows "normalize (Suc (Suc k)) this w =
           (r, put_state this s' w)"
proof (cases r)
  case (Throw e)
  with nt show ?thesis by (simp add: normalize_def normalize_body_def)
next
  case (Return u)
  have e: "entanglements s' = entanglements (states w this)"
    using normalize_this_fields [OF nt] by simp
  have "\<forall>x\<in>set (entanglements (states w this)).
          \<not> (isActive (ents (put_state this s' w) x) \<and> state1 (ents (put_state this s' w) x) = this)"
    using na by (simp add: is_active_source_def list_ex_iff put_state_def)
  from notify_updates_noop [OF this, of k]
  show ?thesis using nt Return e
    by (simp add: normalize_def normalize_body_def notifyEntanglementUpdates_def put_state_def)
qed

lemma while_loop_unfold:
  "while_loop condition bodyFn maxIterations iteration currentState hist =
     (if iteration < maxIterations then
        (if \<not> anyTrue condition currentState
         then Return \<lparr>finalState = currentState, history = hist,
                      iterations = iteration, terminatedByMaxIterations = False\<rparr>
         else
           case applyConditionalBody currentState iteration condition bodyFn of
             Throw e \<Rightarrow> Throw e
           | Return nextState \<Rightarrow>
               (case clone nextState of
                  Throw e \<Rightarrow> Throw e
                | Return snapshot \<Rightarrow>
                    while_loop condition bodyFn maxIterations (iteration + 1) nextState
                      (hist @ [snapshot])))
      else Return \<lparr>finalState = currentState, history = hist,
                   iterations = iteration, terminatedByMaxIterations = True\<rparr>)"
  by (rule while_loop.simps)


section \<open>What a call can write: the frame of the propagation\<close>

lemma same_except_refl: "same_except R w w"
  by (simp add: same_except_def)

lemma same_except_trans:
  "same_except R w w1 \<Longrightarrow> same_except R w1 w2 \<Longrightarrow> same_except R w w2"
  by (simp add: same_except_def)

lemma same_except_mono: "same_except R w w' \<Longrightarrow> R \<subseteq> R' \<Longrightarrow> same_except R' w w'"
  by (auto simp add: same_except_def)

lemma same_except_edges: "same_except R w w' \<Longrightarrow> edges w' = edges w"
  by (simp add: same_except_def edges_def)

lemma same_except_put_state:
  "entanglements s = entanglements (states w this) \<Longrightarrow> this \<in> R \<Longrightarrow>
   same_except R w (put_state this s w)"
  by (simp add: same_except_def put_state_def)

lemma for_each_same_except:
  assumes "\<And>x w r w'. x \<in> set xs \<Longrightarrow> ents w = E \<Longrightarrow> f x w = (r, w') \<Longrightarrow> same_except R w w'"
    and "ents w = E" and "for_each f xs w = (r, w')"
  shows "same_except R w w'"
  using assms
proof (induction xs arbitrary: w)
  case Nil
  then show ?case by (simp add: same_except_refl)
next
  case (Cons x xs)
  obtain r1 w1 where f: "f x w = (r1, w1)" by (cases "f x w")
  have s1: "same_except R w w1" using Cons.prems(1) [OF _ Cons.prems(2) f] by simp
  show ?case
  proof (cases r1)
    case (Throw e)
    with f Cons.prems(3) have "w' = w1" by simp
    with s1 show ?thesis by simp
  next
    case (Return u)
    with f Cons.prems(3) have rest: "for_each f xs w1 = (r, w')" by simp
    have e1: "ents w1 = E" using s1 Cons.prems(2) by (simp add: same_except_def)
    have "same_except R w1 w'"
      by (rule Cons.IH [OF _ e1 rest]) (rule Cons.prems(1), simp_all)
    with s1 show ?thesis by (rule same_except_trans)
  qed
qed

lemma edges_ents: "ents w' = ents w \<Longrightarrow> edges w' = edges w"
  by (simp add: edges_def)

lemma frame_okD:
  "frame_ok rec \<Longrightarrow> rec c w = (r, w') \<Longrightarrow> same_except ((edges w)\<^sup>* `` targets w c) w w'"
  unfolding frame_ok_def by blast

lemma reach_succ:
  "(edges w)\<^sup>* `` (edges w `` {a}) \<subseteq> (edges w)\<^sup>* `` {a}"
  by (auto intro: converse_rtrancl_into_rtrancl)

lemma notifyEntanglementUpdates_frame_succ:
  assumes ok: "frame_ok rec"
    and n: "notifyEntanglementUpdates rec this w = (r, w')"
  shows "same_except ((edges w)\<^sup>* `` (edges w `` {this})) w w'"
proof (rule for_each_same_except [where E = "ents w" and xs = "entanglements (states w this)"
          and f = "\<lambda>e. rec (UpdateEntanglement e (Some this))"])
  fix x w0 r0 w0'
  assume e: "ents w0 = ents w" and c: "rec (UpdateEntanglement x (Some this)) w0 = (r0, w0')"
  from ok c have s: "same_except ((edges w0)\<^sup>* `` targets w0 (UpdateEntanglement x (Some this))) w0 w0'"
    by (rule frame_okD)
  have ed: "edges w0 = edges w" using e by (rule edges_ents)
  have "targets w0 (UpdateEntanglement x (Some this)) \<subseteq> edges w0 `` {this}"
    by (auto simp add: edges_def)
  then have "(edges w0)\<^sup>* `` targets w0 (UpdateEntanglement x (Some this))
               \<subseteq> (edges w)\<^sup>* `` (edges w `` {this})"
    unfolding ed by (rule Image_mono [OF subset_refl])
  with s show "same_except ((edges w)\<^sup>* `` (edges w `` {this})) w0 w0'" by (rule same_except_mono)
next
  show "ents w = ents w" by simp
next
  from n show "for_each (\<lambda>e. rec (UpdateEntanglement e (Some this))) (entanglements (states w this)) w = (r, w')"
    by (simp add: notifyEntanglementUpdates_def)
qed

lemma notifyEntanglementUpdates_frame:
  assumes ok: "frame_ok rec"
    and n: "notifyEntanglementUpdates rec this w = (r, w')"
  shows "same_except ((edges w)\<^sup>* `` {this}) w w'"
  using notifyEntanglementUpdates_frame_succ [OF ok n] reach_succ by (rule same_except_mono)

lemma notifyEntangledStates_frame_succ:
  assumes ok: "frame_ok rec"
    and n: "notifyEntangledStates rec this v w = (r, w')"
  shows "same_except ((edges w)\<^sup>* `` (edges w `` {this})) w w'"
proof (rule for_each_same_except [where E = "ents w" and xs = "entanglements (states w this)"
          and f = "\<lambda>e. rec (OnMeasurement e this v)"])
  fix x w0 r0 w0'
  assume e: "ents w0 = ents w" and c: "rec (OnMeasurement x this v) w0 = (r0, w0')"
  from ok c have s: "same_except ((edges w0)\<^sup>* `` targets w0 (OnMeasurement x this v)) w0 w0'"
    by (rule frame_okD)
  have ed: "edges w0 = edges w" using e by (rule edges_ents)
  have "targets w0 (OnMeasurement x this v) \<subseteq> edges w0 `` {this}"
    by (auto simp add: edges_def)
  then have "(edges w0)\<^sup>* `` targets w0 (OnMeasurement x this v)
               \<subseteq> (edges w)\<^sup>* `` (edges w `` {this})"
    unfolding ed by (rule Image_mono [OF subset_refl])
  with s show "same_except ((edges w)\<^sup>* `` (edges w `` {this})) w0 w0'" by (rule same_except_mono)
next
  show "ents w = ents w" by simp
next
  from n show "for_each (\<lambda>e. rec (OnMeasurement e this v)) (entanglements (states w this)) w = (r, w')"
    by (simp add: notifyEntangledStates_def)
qed

lemma notifyEntangledStates_frame:
  assumes ok: "frame_ok rec"
    and n: "notifyEntangledStates rec this v w = (r, w')"
  shows "same_except ((edges w)\<^sup>* `` {this}) w w'"
  using notifyEntangledStates_frame_succ [OF ok n] reach_succ by (rule same_except_mono)

lemma reach_refl: "this \<in> (edges w)\<^sup>* `` {this}"
  by auto

lemma normalize_body_frame:
  assumes ok: "frame_ok rec" and b: "normalize_body rec this w = (r, w')"
  shows "same_except ((edges w)\<^sup>* `` {this}) w w'"
proof -
  obtain r0 s where nt: "normalize_this (states w this) = (r0, s)"
    by (cases "normalize_this (states w this)")
  have s1: "same_except ((edges w)\<^sup>* `` {this}) w (put_state this s w)"
    using normalize_this_fields [OF nt] by (intro same_except_put_state reach_refl) simp
  show ?thesis
  proof (cases r0)
    case (Throw e)
    with b nt have "w' = put_state this s w" by (simp add: normalize_body_def)
    with s1 show ?thesis by simp
  next
    case (Return u)
    with b nt have "notifyEntanglementUpdates rec this (put_state this s w) = (r, w')"
      by (simp add: normalize_body_def)
    from notifyEntanglementUpdates_frame [OF ok this] same_except_edges [OF s1]
    have "same_except ((edges w)\<^sup>* `` {this}) (put_state this s w) w'" by simp
    with s1 show ?thesis by (rule same_except_trans)
  qed
qed

lemma collapseTo_body_frame:
  assumes ok: "frame_ok rec" and b: "collapseTo_body rec this v meta w = (r, w')"
  shows "same_except ((edges w)\<^sup>* `` {this}) w w'"
proof (cases "Map_has (basis (states w this)) v")
  case False
  with b have "w' = w" by (simp add: collapseTo_body_def)
  then show ?thesis by (simp add: same_except_refl)
next
  case True
  with b obtain s' where n: "notifyEntangledStates rec this v (put_state this s' w) = (r, w')"
    and e: "entanglements s' = entanglements (states w this)"
    by (simp add: collapseTo_body_def Let_def)
  have s1: "same_except ((edges w)\<^sup>* `` {this}) w (put_state this s' w)"
    using e by (intro same_except_put_state reach_refl)
  from notifyEntangledStates_frame [OF ok n] same_except_edges [OF s1]
  have "same_except ((edges w)\<^sup>* `` {this}) (put_state this s' w) w'" by simp
  with s1 show ?thesis by (rule same_except_trans)
qed

lemma collapseState2_body_frame:
  assumes ok: "frame_ok rec" and b: "collapseState2_body rec e v w = (r, w')"
  shows "same_except ((edges w)\<^sup>* `` {state2 (ents w e)}) w w'"
proof (cases "Map_has (basis (states w (state2 (ents w e)))) v")
  case True
  with b have "rec (CollapseTo (state2 (ents w e)) v
                     \<lparr>m_reason = Some ''entanglement-collapse'', m_preMeasurementProbs = None\<rparr>) w = (r, w')"
    by (simp add: collapseState2_body_def Let_def)
  from frame_okD [OF ok this] show ?thesis by simp
next
  case False
  with b obtain s' where "w' = put_state (state2 (ents w e)) s' w"
    and "entanglements s' = entanglements (states w (state2 (ents w e)))"
    by (auto simp add: collapseState2_body_def Let_def)
  then show ?thesis by (simp add: same_except_put_state)
qed

lemma onMeasurement_body_frame:
  assumes ok: "frame_ok rec" and b: "onMeasurement_body rec e m v w = (r, w')"
  shows "same_except ((edges w)\<^sup>* `` targets w (OnMeasurement e m v)) w w'"
proof (cases "isActive (ents w e) \<and> m = state1 (ents w e)")
  case False
  with b have "w' = w" by (auto simp add: onMeasurement_body_def split: if_splits)
  then show ?thesis by (simp add: same_except_refl)
next
  case True
  show ?thesis
  proof (cases "relationFn (ents w e) v = VUndefined")
    case u: True
    with True b have "w' = w" by (simp add: onMeasurement_body_def)
    then show ?thesis by (simp add: same_except_refl)
  next
    case u: False
    with True b have "rec (CollapseState2 e (relationFn (ents w e) v)) w = (r, w')"
      by (simp add: onMeasurement_body_def)
    from frame_okD [OF ok this] True show ?thesis by simp
  qed
qed

lemma updateEntanglement_body_frame:
  assumes ok: "frame_ok rec" and b: "updateEntanglement_body rec e source w = (r, w')"
  shows "same_except ((edges w)\<^sup>* `` targets w (UpdateEntanglement e source)) w w'"
proof (cases "isActive (ents w e) \<and> (source = None \<or> source = Some (state1 (ents w e)))")
  case False
  with b have "w' = w"
    by (cases source) (auto simp add: updateEntanglement_body_def split: if_splits)
  then show ?thesis by (simp add: same_except_refl)
next
  case act: True
  then have src: "\<not> (case source of Some s \<Rightarrow> s \<noteq> state1 (ents w e) | None \<Rightarrow> False)"
    by auto
  let ?t = "state2 (ents w e)"
  have tg: "targets w (UpdateEntanglement e source) = {?t}" using act by simp
  show ?thesis
  proof (cases "isCollapsed (states w (state1 (ents w e)))")
    case True
    let ?v = "relationFn (ents w e) (collapsedValue (states w (state1 (ents w e))))"
    show ?thesis
    proof (cases "?v = VUndefined")
      case u: True
      with True act src b have "w' = w" by (simp add: updateEntanglement_body_def Let_def)
      then show ?thesis by (simp add: same_except_refl)
    next
      case u: False
      with True act src b have "rec (CollapseState2 e ?v) w = (r, w')"
        by (simp add: updateEntanglement_body_def Let_def)
      from frame_okD [OF ok this] tg show ?thesis by simp
    qed
  next
    case nc: False
    show ?thesis
    proof (cases "induce (relationFn (ents w e)) [] (basis (states w (state1 (ents w e))))")
      case (Throw x)
      with nc act src b have "w' = w" by (simp add: updateEntanglement_body_def)
      then show ?thesis by (simp add: same_except_refl)
    next
      case (Return ib)
      let ?w1 = "put_state ?t ((states w ?t)\<lparr>basis := ib\<rparr>) w"
      from Return nc act src b have c: "rec (Normalize ?t) ?w1 = (r, w')"
        by (simp add: updateEntanglement_body_def)
      have s1: "same_except ((edges w)\<^sup>* `` {?t}) w ?w1"
        by (intro same_except_put_state reach_refl) simp
      from frame_okD [OF ok c] same_except_edges [OF s1]
      have "same_except ((edges w)\<^sup>* `` {?t}) ?w1 w'" by simp
      with s1 tg show ?thesis by (simp add: same_except_trans)
    qed
  qed
qed

lemma frame_ok_step: "frame_ok rec \<Longrightarrow> frame_ok (step rec)"
  unfolding frame_ok_def [of "step rec"]
proof (intro allI impI)
  fix c w r w'
  assume ok: "frame_ok rec" and s: "step rec c w = (r, w')"
  show "same_except ((edges w)\<^sup>* `` targets w c) w w'"
  proof (cases c)
    case (Normalize this)
    with s normalize_body_frame [OF ok, of this w r w'] show ?thesis by simp
  next
    case (UpdateEntanglement e source)
    with s updateEntanglement_body_frame [OF ok, of e source w r w'] show ?thesis by simp
  next
    case (OnMeasurement e m v)
    with s onMeasurement_body_frame [OF ok, of e m v w r w'] show ?thesis by simp
  next
    case (CollapseState2 e v)
    with s collapseState2_body_frame [OF ok, of e v w r w'] show ?thesis by simp
  next
    case (CollapseTo this v meta)
    with s collapseTo_body_frame [OF ok, of this v meta w r w'] show ?thesis by simp
  qed
qed

lemma frame_ok_exec: "frame_ok (exec n)"
proof (induction n)
  case 0
  show ?case by (simp add: frame_ok_def same_except_refl)
next
  case (Suc n)
  then show ?case by (simp add: frame_ok_step)
qed

lemma exec_frame:
  "exec n c w = (r, w') \<Longrightarrow> same_except ((edges w)\<^sup>* `` targets w c) w w'"
  using frame_ok_exec by (rule frame_okD)

lemma normalize_frame:
  "normalize n this w = (r, w') \<Longrightarrow> same_except ((edges w)\<^sup>* `` {this}) w w'"
  using exec_frame [of n "Normalize this" w r w'] by (simp add: normalize_def)

lemma collapseTo_frame:
  "collapseTo n this v meta w = (r, w') \<Longrightarrow> same_except ((edges w)\<^sup>* `` {this}) w w'"
  using exec_frame [of n "CollapseTo this v meta" w r w'] by (simp add: collapseTo_def)

lemma after_put_state_frame:
  assumes e: "entanglements s = entanglements (states w this)"
    and f: "same_except ((edges (put_state this s w))\<^sup>* `` {this}) (put_state this s w) w'"
  shows "same_except ((edges w)\<^sup>* `` {this}) w w'"
proof -
  have s1: "same_except ((edges w)\<^sup>* `` {this}) w (put_state this s w)"
    using e by (intro same_except_put_state reach_refl)
  from f same_except_edges [OF s1]
  have "same_except ((edges w)\<^sup>* `` {this}) (put_state this s w) w'" by simp
  with s1 show ?thesis by (rule same_except_trans)
qed

lemma stabilize_frame:
  assumes "stabilize n this w = (r, w')"
  shows "same_except ((edges w)\<^sup>* `` {this}) w w'"
proof -
  obtain r0 s where p: "pruneNearZeroAmplitudes (states w this) = (r0, s)"
    by (cases "pruneNearZeroAmplitudes (states w this)")
  have e: "entanglements s = entanglements (states w this)"
    using pruneNearZeroAmplitudes_fields [OF p] by simp
  show ?thesis
  proof (cases r0)
    case (Throw x)
    with assms p have "w' = put_state this s w" by (simp add: stabilize_def)
    with e show ?thesis by (simp add: same_except_put_state)
  next
    case (Return u)
    with assms p have "normalize n this (put_state this s w) = (r, w')"
      by (simp add: stabilize_def)
    from after_put_state_frame [OF e normalize_frame [OF this]] show ?thesis .
  qed
qed

lemma setAmplitude_frame:
  assumes "setAmplitude n this value amplitude w = (r, w')"
  shows "same_except ((edges w)\<^sup>* `` {this}) w w'"
proof (cases amplitude)
  case None
  with assms have "w' = w" by (simp add: setAmplitude_def)
  then show ?thesis by (simp add: same_except_refl)
next
  case (Some a)
  let ?s1 = "(states w this)\<lparr>basis := Map_set (basis (states w this)) value a\<rparr>"
  obtain r0 s where p: "pruneNearZeroAmplitudes ?s1 = (r0, s)"
    by (cases "pruneNearZeroAmplitudes ?s1")
  have e: "entanglements s = entanglements (states w this)"
    using pruneNearZeroAmplitudes_fields [OF p] by simp
  show ?thesis
  proof (cases "r0 = Return () \<and> basis s \<noteq> []")
    case False
    with assms p Some have "w' = put_state this s w"
      by (cases r0) (auto simp add: setAmplitude_def)
    with e show ?thesis by (simp add: same_except_put_state)
  next
    case True
    with assms p Some have "normalize n this (put_state this s w) = (r, w')"
      by (simp add: setAmplitude_def)
    from after_put_state_frame [OF e normalize_frame [OF this]] show ?thesis .
  qed
qed

lemma measure_frame:
  assumes "measure_qs n this w = (r, w')"
  shows "ents w' = ents w \<and> (\<forall>t. t \<notin> (edges w)\<^sup>* `` {this} \<longrightarrow> states w' t = states w t)"
proof (cases "isCollapsed (states w this)")
  case True
  with assms show ?thesis by (simp add: measure_qs_def)
next
  case False
  let ?w1 = "w\<lparr>random_calls := random_calls w + 1\<rparr>"
  from False assms obtain v meta r1 where c: "collapseTo n this v meta ?w1 = (r1, w')"
    by (auto simp add: measure_qs_def Let_def split: prod.splits outcome.splits)
  have "edges ?w1 = edges w" by (simp add: edges_def)
  with collapseTo_frame [OF c] show ?thesis by (simp add: same_except_def)
qed


section \<open>Propagation does not read the random generator\<close>

lemma reseed_fields [simp]:
  "states (reseed g k w) = states w" "ents (reseed g k w) = ents w"
  "Date_now (reseed g k w) = Date_now w" "next_ref (reseed g k w) = next_ref w"
  "Math_random (reseed g k w) = g" "random_calls (reseed g k w) = k"
  by (simp_all add: reseed_def)

lemma put_state_reseed: "put_state r s (reseed g k w) = reseed g k (put_state r s w)"
  by (simp add: put_state_def reseed_def)

lemma for_each_reseed:
  assumes "\<And>x w. f x (reseed g k w) = apsnd (reseed g k) (f x w)"
  shows "for_each f xs (reseed g k w) = apsnd (reseed g k) (for_each f xs w)"
proof (induction xs arbitrary: w)
  case Nil
  show ?case by simp
next
  case (Cons x xs)
  obtain r1 w1 where f: "f x w = (r1, w1)" by (cases "f x w")
  show ?case
    by (cases r1) (simp_all add: assms f Cons.IH)
qed

lemma reseedsD: "reseeds g k rec \<Longrightarrow> rec c (reseed g k w) = apsnd (reseed g k) (rec c w)"
  by (simp add: reseeds_def)

lemma notifyEntanglementUpdates_reseed:
  assumes "reseeds g k rec"
  shows "notifyEntanglementUpdates rec this (reseed g k w)
           = apsnd (reseed g k) (notifyEntanglementUpdates rec this w)"
  unfolding notifyEntanglementUpdates_def
  using for_each_reseed [of "\<lambda>e. rec (UpdateEntanglement e (Some this))" g k
      "entanglements (states w this)" w] reseedsD [OF assms]
  by simp

lemma notifyEntangledStates_reseed:
  assumes "reseeds g k rec"
  shows "notifyEntangledStates rec this v (reseed g k w)
           = apsnd (reseed g k) (notifyEntangledStates rec this v w)"
  unfolding notifyEntangledStates_def
  using for_each_reseed [of "\<lambda>e. rec (OnMeasurement e this v)" g k
      "entanglements (states w this)" w] reseedsD [OF assms]
  by simp

lemma normalize_body_reseed:
  assumes "reseeds g k rec"
  shows "normalize_body rec this (reseed g k w) = apsnd (reseed g k) (normalize_body rec this w)"
proof -
  obtain r0 s where nt: "normalize_this (states w this) = (r0, s)"
    by (cases "normalize_this (states w this)")
  show ?thesis
    by (cases r0)
      (simp_all add: normalize_body_def nt put_state_reseed notifyEntanglementUpdates_reseed [OF assms])
qed

lemma collapseTo_body_reseed:
  assumes "reseeds g k rec"
  shows "collapseTo_body rec this v meta (reseed g k w)
           = apsnd (reseed g k) (collapseTo_body rec this v meta w)"
  by (simp add: collapseTo_body_def Let_def put_state_reseed notifyEntangledStates_reseed [OF assms])

lemma collapseState2_body_reseed:
  assumes "reseeds g k rec"
  shows "collapseState2_body rec e v (reseed g k w)
           = apsnd (reseed g k) (collapseState2_body rec e v w)"
  by (simp add: collapseState2_body_def Let_def put_state_reseed reseedsD [OF assms])

lemma onMeasurement_body_reseed:
  assumes "reseeds g k rec"
  shows "onMeasurement_body rec e m v (reseed g k w)
           = apsnd (reseed g k) (onMeasurement_body rec e m v w)"
  by (simp add: onMeasurement_body_def Let_def reseedsD [OF assms])

lemma updateEntanglement_body_reseed:
  assumes "reseeds g k rec"
  shows "updateEntanglement_body rec e source (reseed g k w)
           = apsnd (reseed g k) (updateEntanglement_body rec e source w)"
proof -
  obtain ib where i: "induce (relationFn (ents w e)) [] (basis (states w (state1 (ents w e)))) = ib"
    by simp
  show ?thesis
    by (cases source; cases ib)
      (simp_all add: updateEntanglement_body_def Let_def put_state_reseed reseedsD [OF assms] i)
qed

lemma reseeds_step: "reseeds g k rec \<Longrightarrow> reseeds g k (step rec)"
  unfolding reseeds_def [of g k "step rec"]
proof (intro allI)
  fix c w
  assume a: "reseeds g k rec"
  show "step rec c (reseed g k w) = apsnd (reseed g k) (step rec c w)"
    by (cases c)
      (simp_all add: normalize_body_reseed [OF a] collapseTo_body_reseed [OF a]
        collapseState2_body_reseed [OF a] onMeasurement_body_reseed [OF a]
        updateEntanglement_body_reseed [OF a])
qed

lemma reseeds_exec: "reseeds g k (exec n)"
proof (induction n)
  case 0
  show ?case by (simp add: reseeds_def)
next
  case (Suc n)
  then show ?case by (simp add: reseeds_step)
qed

lemma exec_reseed: "exec n c (reseed g k w) = apsnd (reseed g k) (exec n c w)"
  using reseeds_exec by (rule reseedsD)

section \<open>Concrete states, constructed\<close>

lemma new_plus_state:
  "new_QuantumState [(VStr ''A'', new_Complex 1 0), (VStr ''B'', new_Complex 1 0)] = Return plus_state"
  using inv_sqrt2_not_pruned
  by (simp add: ctor_defs plus_state_def)

lemma new_minus_state:
  "new_QuantumState [(VStr ''A'', new_Complex (-1) 0), (VStr ''B'', new_Complex 1 0)] = Return minus_state"
  using inv_sqrt2_not_pruned
  by (simp add: ctor_defs minus_state_def)

lemma new_classical_B:
  "new_QuantumState [(VStr ''B'', new_Complex 1 0)] = Return classical_B"
  by (simp add: ctor_defs classical_B_def)

lemma new_classical_X:
  "new_QuantumState [(VStr ''X'', new_Complex 1 0)] = Return classical_X"
  by (simp add: ctor_defs classical_X_def)


section \<open>A fair coin, measured\<close>

lemma fair_coin_edges: "edges fair_coin_world = {}"
  by (simp add: edges_def fair_coin_world_def put_state_def blank_world_def)

lemma fair_coin_first:
  "measure_qs 1 0 fair_coin_world =
     (Return (VStr ''A''),
      put_state 0
        (plus_state\<lparr>basis := [(VStr ''A'', new_Complex 1 0)], isCollapsed := True,
           collapsedValue := VStr ''A'',
           measurementHistory :=
             [\<lparr>timestamp = 0, result = VStr ''A'', reason = ''measurement'',
               preMeasurementProbs = [(VStr ''A'', 1 / 2), (VStr ''B'', 1 / 2)]\<rparr>]\<rparr>)
        (fair_coin_world\<lparr>random_calls := 1\<rparr>))"
  by (simp add: measure_qs_def fair_coin_world_def put_state_def blank_world_def plus_state_def
      getProbabilities_def Complex_magnitudeSquared_def Let_def collapseTo_def
      collapseTo_body_def Map_has_def notifyEntangledStates_def)


section \<open>The probability mass of a basis\<close>

lemma foldl_total: "foldl (\<lambda>total (value, amplitude). total + Complex_magnitudeSquared amplitude) x b
                      = x + mass b"
  by (induction b arbitrary: x) (auto simp add: mass_def)

lemma totalProbability_mass: "totalProbability b = mass b"
  by (simp add: totalProbability_def foldl_total)

lemma magnitudeSquared_nonneg: "0 \<le> Complex_magnitudeSquared a"
  by (simp add: Complex_magnitudeSquared_def)

lemma mass_Nil [simp]: "mass [] = 0"
  by (simp add: mass_def)

lemma mass_Cons [simp]: "mass (x # b) = Complex_magnitudeSquared (snd x) + mass b"
  by (simp add: mass_def)

lemma mass_nonneg: "0 \<le> mass b"
  by (induction b) (simp_all add: magnitudeSquared_nonneg)

lemma magnitude_sqrt: "Complex_magnitude a = sqrt (Complex_magnitudeSquared a)"
  by (simp add: Complex_magnitude_def Complex_magnitudeSquared_def)

lemma below_epsilon_mass:
  assumes "Complex_magnitude a < AMPLITUDE_PRUNE_EPSILON"
  shows "Complex_magnitudeSquared a \<le> 1 / 10 ^ 24"
proof -
  let ?x = "Complex_magnitudeSquared a"
  have lt: "sqrt ?x < 1 / 10 ^ 12"
    using assms by (simp only: magnitude_sqrt AMPLITUDE_PRUNE_EPSILON_def)
  have nn: "0 \<le> sqrt ?x" using magnitudeSquared_nonneg [of a] by simp
  have "(sqrt ?x)\<^sup>2 < (1 / 10 ^ 12)\<^sup>2"
    using lt nn by (rule power_strict_mono) simp
  moreover have "(sqrt ?x)\<^sup>2 = ?x" using magnitudeSquared_nonneg [of a] by simp
  moreover have "((1::real) / 10 ^ 12)\<^sup>2 = 1 / 10 ^ 24" by (simp add: power2_eq_square)
  ultimately show ?thesis by simp
qed

lemma magnitudeSquared_scale:
  "Complex_magnitudeSquared (Complex_scale a k) = k\<^sup>2 * Complex_magnitudeSquared a"
  by (simp add: Complex_scale_def Complex_magnitudeSquared_def power2_eq_square algebra_simps)

lemma mass_scale:
  "mass (map (\<lambda>(value, amplitude). (value, Complex_scale amplitude k)) b) = k\<^sup>2 * mass b"
proof (induction b)
  case Nil
  show ?case by simp
next
  case (Cons x b)
  obtain v a where x: "x = (v, a)" by (cases x)
  show ?case by (simp add: x Cons.IH magnitudeSquared_scale distrib_left)
qed

lemma mass_filter_split:
  "mass b = mass (filter P b) + mass (filter (\<lambda>x. \<not> P x) b)"
  by (induction b) simp_all

lemma mass_dropped_bound:
  "mass (filter (\<lambda>x. Complex_magnitude (snd x) < AMPLITUDE_PRUNE_EPSILON) b)
     \<le> real (length b) * (1 / 10 ^ 24)"
proof (induction b)
  case Nil
  show ?case by simp
next
  case (Cons x b)
  show ?case
  proof (cases "Complex_magnitude (snd x) < AMPLITUDE_PRUNE_EPSILON")
    case True
    have "mass (filter (\<lambda>x. Complex_magnitude (snd x) < AMPLITUDE_PRUNE_EPSILON) (x # b))
            = Complex_magnitudeSquared (snd x)
              + mass (filter (\<lambda>x. Complex_magnitude (snd x) < AMPLITUDE_PRUNE_EPSILON) b)"
      using True by simp
    also have "\<dots> \<le> 1 / 10 ^ 24 + real (length b) * (1 / 10 ^ 24)"
      using below_epsilon_mass [OF True] Cons.IH by (rule add_mono)
    also have "\<dots> = real (length (x # b)) * (1 / 10 ^ 24)"
      by (simp add: distrib_right)
    finally show ?thesis .
  next
    case False
    have "mass (filter (\<lambda>x. Complex_magnitude (snd x) < AMPLITUDE_PRUNE_EPSILON) (x # b))
            = mass (filter (\<lambda>x. Complex_magnitude (snd x) < AMPLITUDE_PRUNE_EPSILON) b)"
      using False by simp
    also have "\<dots> \<le> real (length b) * (1 / 10 ^ 24)" by (rule Cons.IH)
    also have "\<dots> \<le> real (length (x # b)) * (1 / 10 ^ 24)" by simp
    finally show ?thesis .
  qed
qed

lemma prune_filter_snd:
  "filter (\<lambda>(value, amplitude). \<not> Complex_magnitude amplitude < AMPLITUDE_PRUNE_EPSILON) b
     = filter (\<lambda>x. \<not> Complex_magnitude (snd x) < AMPLITUDE_PRUNE_EPSILON) b"
  by (simp add: case_prod_unfold)

lemma pruned_mass:
  assumes "length b \<le> 10 ^ 15"
  shows "mass b - 1 / 10 ^ 9 \<le> mass (filter (\<lambda>x. \<not> Complex_magnitude (snd x) < AMPLITUDE_PRUNE_EPSILON) b)"
    and "mass (filter (\<lambda>x. \<not> Complex_magnitude (snd x) < AMPLITUDE_PRUNE_EPSILON) b) \<le> mass b"
proof -
  let ?keep = "filter (\<lambda>x. \<not> Complex_magnitude (snd x) < AMPLITUDE_PRUNE_EPSILON) b"
  let ?drop = "filter (\<lambda>x. Complex_magnitude (snd x) < AMPLITUDE_PRUNE_EPSILON) b"
  have split: "mass b = mass ?keep + mass ?drop"
    using mass_filter_split [of b "\<lambda>x. \<not> Complex_magnitude (snd x) < AMPLITUDE_PRUNE_EPSILON"]
    by simp
  have "real (length b) \<le> 10 ^ 15" using assms by (metis of_nat_le_iff of_nat_numeral of_nat_power)
  then have "real (length b) * (1 / 10 ^ 24) \<le> 10 ^ 15 * (1 / 10 ^ 24)"
    by (rule mult_right_mono) simp
  also have "\<dots> = (1::real) / 10 ^ 9" by simp
  finally have "real (length b) * (1 / 10 ^ 24) \<le> 1 / 10 ^ 9" .
  with mass_dropped_bound [of b] have d: "mass ?drop \<le> 1 / 10 ^ 9" by linarith
  from split d show "mass b - 1 / 10 ^ 9 \<le> mass ?keep" by linarith
  from split mass_nonneg [of ?drop] show "mass ?keep \<le> mass b" by linarith
qed

lemma normalize_this_normalized:
  assumes n: "normalize_this s = (Return u, s')"
    and len: "length (basis s) \<le> 10 ^ 15"
  shows "normalized s' \<and> length (basis s') \<le> length (basis s)"
proof -
  let ?T = "totalProbability (basis s)"
  have T: "\<not> ?T \<le> NORMALIZATION_EPSILON"
    using n by (auto simp add: normalize_this_def split: if_splits)
  then have Tpos: "0 < ?T" by (simp add: NORMALIZATION_EPSILON_def)
  let ?k = "1 / sqrt ?T"
  let ?scaled = "map (\<lambda>(value, amplitude). (value, Complex_scale amplitude ?k)) (basis s)"
  let ?keep = "filter (\<lambda>x. \<not> Complex_magnitude (snd x) < AMPLITUDE_PRUNE_EPSILON) ?scaled"
  obtain r2 s2 where p: "pruneNearZeroAmplitudes (s\<lparr>basis := ?scaled\<rparr>) = (r2, s2)"
    by (cases "pruneNearZeroAmplitudes (s\<lparr>basis := ?scaled\<rparr>)")
  from n T p have r2: "r2 = Return ()" and s': "s' = updateCollapsedFlags s2"
    by (auto simp add: normalize_this_def Let_def split: outcome.splits)
  have b2: "basis s2 = ?keep"
    using pruneNearZeroAmplitudes_fields [OF p] by (simp add: prune_filter_snd)
  have ne: "basis s2 \<noteq> []"
    using p r2 by (auto simp add: pruneNearZeroAmplitudes_def Let_def split: if_splits)
  have bs': "basis s' = ?keep"
    using s' b2 updateCollapsedFlags_fields [of s2] by simp
  have k2: "?k\<^sup>2 = 1 / ?T" using Tpos by (simp add: power_divide)
  have "mass ?scaled = ?k\<^sup>2 * mass (basis s)" by (rule mass_scale)
  also have "\<dots> = (1 / ?T) * ?T" unfolding k2 by (simp only: totalProbability_mass)
  also have "\<dots> = 1" using Tpos by simp
  finally have m1: "mass ?scaled = 1" .
  have "length ?scaled \<le> 10 ^ 15" using len by simp
  from pruned_mass [OF this] m1
  have "1 - 1 / 10 ^ 9 \<le> mass ?keep" "mass ?keep \<le> 1" by simp_all
  then have tot: "\<bar>totalProbability (basis s') - 1\<bar> \<le> 1 / 10 ^ 9"
    unfolding bs' totalProbability_mass by linarith
  have ent: "\<forall>entry\<in>set (basis s'). AMPLITUDE_PRUNE_EPSILON \<le> Complex_magnitude (snd entry)"
    unfolding bs' by auto
  have "length (basis s') \<le> length (basis s)"
    unfolding bs' using length_filter_le [of _ ?scaled] by simp
  with tot ent ne b2 bs' show ?thesis by (simp add: normalized_def)
qed

section \<open>Every constructed state satisfies the invariants\<close>

lemma length_accumulate: "length (accumulate m e) \<le> Suc (length m)"
proof -
  have "length (map fst (accumulate m e)) \<le> Suc (length m)"
    unfolding keys_accumulate by simp
  then show ?thesis by simp
qed

lemma length_foldl_accumulate: "length (foldl accumulate m xs) \<le> length m + length xs"
proof (induction xs arbitrary: m)
  case Nil
  show ?case by simp
next
  case (Cons e xs)
  from Cons.IH [of "accumulate m e"] length_accumulate [of m e]
  show ?case by simp
qed

lemma normalized_basis_cong: "basis s = basis s' \<Longrightarrow> normalized s = normalized s'"
  by (simp add: normalized_def)

lemma array_fits: "Array_isArray xs \<Longrightarrow> length xs \<le> 10 ^ 15"
  by (simp add: Array_isArray_def)

lemma new_QuantumState_normalized:
  assumes "new_QuantumState entries = Return s"
  shows "normalized s"
proof -
  let ?obj = "\<lparr>basis = foldl accumulate [] entries, entanglements = [],
                 measurementHistory = [], isCollapsed = False, collapsedValue = VUndefined\<rparr>"
  from assms have arr: "Array_isArray entries"
    by (auto simp add: new_QuantumState_def split: if_splits)
  obtain r1 s1 where p: "pruneNearZeroAmplitudes ?obj = (r1, s1)"
    by (cases "pruneNearZeroAmplitudes ?obj")
  obtain r2 s2 where n: "normalize_this s1 = (r2, s2)"
    by (cases "normalize_this s1")
  from assms p n have r2: "r2 = Return ()" and s: "s = s2"
    by (auto simp add: new_QuantumState_def Let_def split: if_splits outcome.splits)
  have "length (basis s1) \<le> length (foldl accumulate [] entries)"
    using pruneNearZeroAmplitudes_fields [OF p] by simp
  also have "\<dots> \<le> length entries" using length_foldl_accumulate [of "[]" entries] by simp
  also have "\<dots> \<le> 10 ^ 15" using arr by (rule array_fits)
  finally have "length (basis s1) \<le> 10 ^ 15" .
  with n r2 s normalize_this_normalized [of s1 "()" s2] show ?thesis by simp
qed

lemma clone_normalized:
  assumes "clone q = Return s"
  shows "normalized s"
proof -
  from assms obtain c where c: "new_QuantumState
      (map (\<lambda>(value, amplitude). (value, Complex_clone amplitude)) (basis q)) = Return c"
    and s: "s = c\<lparr>isCollapsed := isCollapsed q, collapsedValue := collapsedValue q,
                   measurementHistory := measurementHistory q\<rparr>"
    by (auto simp add: clone_def split: outcome.splits)
  from s have "basis s = basis c" by simp
  from normalized_basis_cong [OF this] new_QuantumState_normalized [OF c]
  show ?thesis by simp
qed

lemma hadamard_normalized: "hadamard q = Return s \<Longrightarrow> normalized s"
  by (auto simp add: hadamard_def Let_def split: list.splits dest: new_QuantumState_normalized)

lemma phase_gate_normalized: "phase_gate q target angle = Return s \<Longrightarrow> normalized s"
  by (auto simp add: phase_gate_def split: if_splits outcome.splits
      dest: new_QuantumState_normalized)

lemma rotate_gate_normalized: "rotate_gate q angle = Return s \<Longrightarrow> normalized s"
  by (auto simp add: rotate_gate_def split: outcome.splits dest: new_QuantumState_normalized)

lemma amplify_normalized: "amplify q targetValues factor = Return s \<Longrightarrow> normalized s"
  by (auto simp add: amplify_def Let_def split: if_splits dest: new_QuantumState_normalized)

lemma interfere_normalized: "interfere qs weights = Return s \<Longrightarrow> normalized s"
  by (auto simp add: interfere_def Let_def split: if_splits outcome.splits
      dest: new_QuantumState_normalized)

lemma buildStateFromMap_normalized: "buildStateFromMap m operation = Return s \<Longrightarrow> normalized s"
  by (auto simp add: buildStateFromMap_def split: if_splits dest: new_QuantumState_normalized)

lemma quantumIf_normalized: "quantumIf c thenFn elseFn = Return s \<Longrightarrow> normalized s"
  by (auto simp add: quantumIf_def split: outcome.splits dest: buildStateFromMap_normalized)

lemma quantumSwitch_normalized: "quantumSwitch q cases defaultCase = Return s \<Longrightarrow> normalized s"
  by (auto simp add: quantumSwitch_def split: outcome.splits handler.splits
      dest: buildStateFromMap_normalized)

lemma applyBodyToState_normalized: "applyBodyToState q i bodyFn = Return s \<Longrightarrow> normalized s"
  by (auto simp add: applyBodyToState_def split: outcome.splits dest: buildStateFromMap_normalized)

lemma applyConditionalBody_normalized:
  "applyConditionalBody q i condition bodyFn = Return s \<Longrightarrow> normalized s"
  by (auto simp add: applyConditionalBody_def split: outcome.splits
      dest: buildStateFromMap_normalized)

lemma for_loop_unfold:
  "for_loop bodyFn iters index currentState hist =
     (if index < iters then
        (case applyBodyToState currentState index bodyFn of
           Throw e \<Rightarrow> Throw e
         | Return nextState \<Rightarrow>
             (case clone nextState of
                Throw e \<Rightarrow> Throw e
              | Return snapshot \<Rightarrow>
                  for_loop bodyFn iters (index + 1) nextState (hist @ [snapshot])))
      else Return \<lparr>for_finalState = currentState, for_history = hist\<rparr>)"
  by (rule for_loop.simps)

lemma for_loop_normalized:
  assumes "for_loop bodyFn iters index currentState hist = Return r"
    and "normalized currentState" and "\<forall>h\<in>set hist. normalized h"
  shows "normalized (for_finalState r) \<and> (\<forall>h\<in>set (for_history r). normalized h)"
  using assms
proof (induction bodyFn iters index currentState hist rule: for_loop.induct)
  case (1 bodyFn iters index currentState hist)
  note u = for_loop_unfold [of bodyFn iters index currentState hist]
  show ?case
  proof (cases "index < iters")
    case False
    with "1.prems"(1) have "r = \<lparr>for_finalState = currentState, for_history = hist\<rparr>"
      unfolding u by simp
    with "1.prems"(2,3) show ?thesis by simp
  next
    case lt: True
    from "1.prems"(1) have
      "(case applyBodyToState currentState index bodyFn of
           Throw e \<Rightarrow> Throw e
         | Return nextState \<Rightarrow>
             (case clone nextState of
                Throw e \<Rightarrow> Throw e
              | Return snapshot \<Rightarrow>
                  for_loop bodyFn iters (index + 1) nextState (hist @ [snapshot]))) = Return r"
      unfolding u using lt by simp
    then obtain nextState snapshot where
      a: "applyBodyToState currentState index bodyFn = Return nextState"
      and c: "clone nextState = Return snapshot"
      and w: "for_loop bodyFn iters (index + 1) nextState (hist @ [snapshot]) = Return r"
      by (auto split: outcome.splits)
    have "\<forall>h\<in>set (hist @ [snapshot]). normalized h"
      using "1.prems"(3) clone_normalized [OF c] by simp
    from "1.IH" [OF lt a c w applyBodyToState_normalized [OF a] this]
    show ?thesis .
  qed
qed

lemma quantumFor_normalized:
  assumes "quantumFor iters initialState bodyFn = Return r"
  shows "normalized (for_finalState r) \<and> (\<forall>h\<in>set (for_history r). normalized h)"
proof -
  from assms obtain currentState snapshot where
    c1: "clone initialState = Return currentState" and c2: "clone currentState = Return snapshot"
    and l: "for_loop bodyFn (nat iters) 0 currentState [snapshot] = Return r"
    by (auto simp add: quantumFor_def split: if_splits outcome.splits)
  have "\<forall>h\<in>set [snapshot]. normalized h" using clone_normalized [OF c2] by simp
  from for_loop_normalized [OF l clone_normalized [OF c1] this] show ?thesis .
qed

lemma while_loop_normalized:
  assumes "while_loop condition bodyFn maxIterations iteration currentState hist = Return r"
    and "normalized currentState" and "\<forall>h\<in>set hist. normalized h"
  shows "normalized (finalState r) \<and> (\<forall>h\<in>set (history r). normalized h)"
  using assms
proof (induction condition bodyFn maxIterations iteration currentState hist rule: while_loop.induct)
  case (1 condition bodyFn maxIterations iteration currentState hist)
  note u = while_loop_unfold [of condition bodyFn maxIterations iteration currentState hist]
  show ?case
  proof (cases "iteration < maxIterations \<and> anyTrue condition currentState")
    case False
    with "1.prems"(1) have "finalState r = currentState \<and> history r = hist"
      unfolding u by (auto split: if_splits)
    with "1.prems"(2,3) show ?thesis by simp
  next
    case True
    then have lt: "iteration < maxIterations" and any: "\<not> \<not> anyTrue condition currentState"
      by simp_all
    from "1.prems"(1) have
      "(case applyConditionalBody currentState iteration condition bodyFn of
             Throw e \<Rightarrow> Throw e
           | Return nextState \<Rightarrow>
               (case clone nextState of
                  Throw e \<Rightarrow> Throw e
                | Return snapshot \<Rightarrow>
                    while_loop condition bodyFn maxIterations (iteration + 1) nextState
                      (hist @ [snapshot]))) = Return r"
      unfolding u using True by simp
    then obtain nextState snapshot where
      a: "applyConditionalBody currentState iteration condition bodyFn = Return nextState"
      and c: "clone nextState = Return snapshot"
      and w: "while_loop condition bodyFn maxIterations (iteration + 1) nextState (hist @ [snapshot]) = Return r"
      by (auto split: outcome.splits)
    have "\<forall>h\<in>set (hist @ [snapshot]). normalized h"
      using "1.prems"(3) clone_normalized [OF c] by simp
    from "1.IH" [OF lt any a c w applyConditionalBody_normalized [OF a] this]
    show ?thesis .
  qed
qed

lemma quantumWhile_normalized:
  assumes "quantumWhile condition bodyFn initialState maxIterations = Return r"
  shows "normalized (finalState r) \<and> (\<forall>h\<in>set (history r). normalized h)"
proof -
  from assms obtain currentState snapshot where
    c1: "clone initialState = Return currentState" and c2: "clone currentState = Return snapshot"
    and l: "while_loop condition bodyFn (nat maxIterations) 0 currentState [snapshot] = Return r"
    by (auto simp add: quantumWhile_def split: if_splits outcome.splits)
  have "\<forall>h\<in>set [snapshot]. normalized h" using clone_normalized [OF c2] by simp
  from while_loop_normalized [OF l clone_normalized [OF c1] this] show ?thesis .
qed

section \<open>Propagation leaves every state it writes within the invariants\<close>

lemma good_refl: "good K w w"
  by (simp add: good_def)

lemma good_trans: "good K w w1 \<Longrightarrow> good K w1 w2 \<Longrightarrow> good K w w2"
  unfolding good_def by metis

lemma good_bounded: "bounded K w \<Longrightarrow> good K w w' \<Longrightarrow> bounded K w'"
  unfolding good_def bounded_def fits_def by metis

lemma good_put_state: "fits K s \<Longrightarrow> good K w (put_state r s w)"
  by (simp add: good_def put_state_def)

lemma keeps_normalizedD:
  "keeps_normalized K rec \<Longrightarrow> bounded K w \<Longrightarrow> rec c w = (Return u, w') \<Longrightarrow>
     good K w w' \<and> established K w' c"
  unfolding keeps_normalized_def by blast

lemma for_each_good:
  assumes "\<And>x w u w'. bounded K w \<Longrightarrow> f x w = (Return u, w') \<Longrightarrow> good K w w'"
    and "bounded K w" and "for_each f xs w = (Return u, w')"
  shows "good K w w'"
  using assms(2,3)
proof (induction xs arbitrary: w)
  case Nil
  then show ?case by (simp add: good_refl)
next
  case (Cons x xs)
  obtain r1 w1 where f: "f x w = (r1, w1)" by (cases "f x w")
  with Cons.prems(2) obtain u1 where r1: "r1 = Return u1" and rest: "for_each f xs w1 = (Return u, w')"
    by (cases r1) auto
  have g1: "good K w w1" using assms(1) [OF Cons.prems(1)] f r1 by simp
  from Cons.IH [OF good_bounded [OF Cons.prems(1) g1] rest] g1
  show ?case by (rule good_trans [rotated])
qed

lemma fits_single:
  assumes "1 \<le> K" and "basis s = [(v, new_Complex 1 0)]"
  shows "fits K s"
  using assms
  by (simp add: fits_def normalized_def totalProbability_def Complex_magnitudeSquared_def
      AMPLITUDE_PRUNE_EPSILON_def)

lemma notify_updates_good:
  assumes kn: "keeps_normalized K rec" and b: "bounded K w"
    and n: "notifyEntanglementUpdates rec this w = (Return u, w')"
  shows "good K w w'"
proof (rule for_each_good [where f = "\<lambda>e. rec (UpdateEntanglement e (Some this))"
        and xs = "entanglements (states w this)", OF _ b])
  fix x w0 u0 w0'
  assume "bounded K w0" "rec (UpdateEntanglement x (Some this)) w0 = (Return u0, w0')"
  from keeps_normalizedD [OF kn this] show "good K w0 w0'" by simp
next
  from n show "for_each (\<lambda>e. rec (UpdateEntanglement e (Some this))) (entanglements (states w this)) w
                 = (Return u, w')"
    by (simp add: notifyEntanglementUpdates_def)
qed

lemma notify_states_good:
  assumes kn: "keeps_normalized K rec" and b: "bounded K w"
    and n: "notifyEntangledStates rec this v w = (Return u, w')"
  shows "good K w w'"
proof (rule for_each_good [where f = "\<lambda>e. rec (OnMeasurement e this v)"
        and xs = "entanglements (states w this)", OF _ b])
  fix x w0 u0 w0'
  assume "bounded K w0" "rec (OnMeasurement x this v) w0 = (Return u0, w0')"
  from keeps_normalizedD [OF kn this] show "good K w0 w0'" by simp
next
  from n show "for_each (\<lambda>e. rec (OnMeasurement e this v)) (entanglements (states w this)) w
                 = (Return u, w')"
    by (simp add: notifyEntangledStates_def)
qed

lemma written_then_good:
  assumes f: "fits K s" and g: "good K (put_state this s w) w'"
  shows "good K w w' \<and> fits K (states w' this)"
proof -
  have "good K w w'" using good_trans [OF good_put_state [OF f] g] .
  moreover have "states w' this = states (put_state this s w) this \<or> fits K (states w' this)"
    using g by (simp add: good_def)
  then have "fits K (states w' this)" using f by (auto simp add: put_state_def)
  ultimately show ?thesis by simp
qed


lemma length_induce:
  "induce f m xs = Return ib \<Longrightarrow> length ib \<le> length m + length xs"
proof (induction xs arbitrary: m)
  case Nil
  then show ?case by simp
next
  case (Cons x xs)
  obtain v a where x: "x = (v, a)" by (cases x)
  from Cons.prems have i: "induce f (accumulate m (f v, a)) xs = Return ib"
    by (auto simp add: x Let_def split: if_splits)
  from Cons.IH [OF i] length_accumulate [of m "(f v, a)"] show ?case by simp
qed

lemma normalize_body_good:
  assumes kn: "keeps_normalized K rec" and K: "K \<le> 10 ^ 15" and b: "bounded K w"
    and n: "normalize_body rec this w = (Return u, w')"
  shows "good K w w' \<and> fits K (states w' this)"
proof -
  obtain r0 s where nt: "normalize_this (states w this) = (r0, s)"
    by (cases "normalize_this (states w this)")
  with n have r0: "r0 = Return ()"
    and nf: "notifyEntanglementUpdates rec this (put_state this s w) = (Return u, w')"
    by (cases r0; simp add: normalize_body_def)+
  have "length (basis (states w this)) \<le> 10 ^ 15"
    using b K unfolding bounded_def by (meson le_trans)
  from normalize_this_normalized [OF nt [unfolded r0] this] b
  have f: "fits K s" unfolding fits_def bounded_def by (meson le_trans)
  have "bounded K (put_state this s w)"
    using b f by (simp add: bounded_def put_state_def fits_def)
  from written_then_good [OF f notify_updates_good [OF kn this nf]] show ?thesis .
qed

lemma collapseTo_body_good:
  assumes kn: "keeps_normalized K rec" and K: "1 \<le> K" and b: "bounded K w"
    and c: "collapseTo_body rec this v meta w = (Return u, w')"
  shows "good K w w' \<and> fits K (states w' this)"
proof -
  from c have has: "Map_has (basis (states w this)) v"
    by (auto simp add: collapseTo_body_def split: if_splits)
  with c obtain s' where n: "notifyEntangledStates rec this v (put_state this s' w) = (Return u, w')"
    and bs: "basis s' = [(v, new_Complex 1 0)]"
    by (simp add: collapseTo_body_def Let_def)
  have f: "fits K s'" using K bs by (rule fits_single)
  have "bounded K (put_state this s' w)"
    using b f by (simp add: bounded_def put_state_def fits_def)
  from written_then_good [OF f notify_states_good [OF kn this n]] show ?thesis .
qed

lemma collapseState2_body_good:
  assumes kn: "keeps_normalized K rec" and K: "1 \<le> K" and b: "bounded K w"
    and c: "collapseState2_body rec e v w = (Return u, w')"
  shows "good K w w' \<and> fits K (states w' (state2 (ents w' e)))"
proof (cases "Map_has (basis (states w (state2 (ents w e)))) v")
  case True
  with c have "rec (CollapseTo (state2 (ents w e)) v
                     \<lparr>m_reason = Some ''entanglement-collapse'', m_preMeasurementProbs = None\<rparr>) w
                 = (Return u, w')"
    by (simp add: collapseState2_body_def Let_def)
  from keeps_normalizedD [OF kn b this]
  have g: "good K w w'" and f: "fits K (states w' (state2 (ents w e)))" by simp_all
  from g have "ents w' = ents w" by (simp add: good_def)
  with g f show ?thesis by simp
next
  case False
  with c obtain s' where w': "w' = put_state (state2 (ents w e)) s' w"
    and bs: "basis s' = [(v, new_Complex 1 0)]"
    by (auto simp add: collapseState2_body_def Let_def)
  have f: "fits K s'" using K bs by (rule fits_single)
  from good_put_state [OF f, where r = "state2 (ents w e)" and w = w] f w'
  show ?thesis by (simp add: put_state_def)
qed

lemma onMeasurement_body_good:
  assumes kn: "keeps_normalized K rec" and b: "bounded K w"
    and c: "onMeasurement_body rec e m v w = (Return u, w')"
  shows "good K w w'"
proof (cases "isActive (ents w e) \<and> m = state1 (ents w e)")
  case False
  with c have "w' = w" by (auto simp add: onMeasurement_body_def split: if_splits)
  then show ?thesis by (simp add: good_refl)
next
  case True
  with c have "rec (CollapseState2 e (relationFn (ents w e) v)) w = (Return u, w')"
    by (auto simp add: onMeasurement_body_def Let_def split: if_splits)
  from keeps_normalizedD [OF kn b this] show ?thesis by simp
qed

lemma updateEntanglement_body_good:
  assumes kn: "keeps_normalized K rec" and b: "bounded K w"
    and c: "updateEntanglement_body rec e source w = (Return u, w')"
  shows "good K w w'"
proof (cases "isActive (ents w e) \<and> (source = None \<or> source = Some (state1 (ents w e)))")
  case False
  with c have "w' = w"
    by (cases source) (auto simp add: updateEntanglement_body_def split: if_splits)
  then show ?thesis by (simp add: good_refl)
next
  case act: True
  then have src: "\<not> (case source of Some s \<Rightarrow> s \<noteq> state1 (ents w e) | None \<Rightarrow> False)"
    by auto
  let ?t = "state2 (ents w e)"
  show ?thesis
  proof (cases "isCollapsed (states w (state1 (ents w e)))")
    case True
    with act src c have
      "rec (CollapseState2 e (relationFn (ents w e) (collapsedValue (states w (state1 (ents w e)))))) w
         = (Return u, w')"
      by (auto simp add: updateEntanglement_body_def Let_def split: if_splits)
    from keeps_normalizedD [OF kn b this] show ?thesis by simp
  next
    case nc: False
    with act src c obtain ib where
      i: "induce (relationFn (ents w e)) [] (basis (states w (state1 (ents w e)))) = Return ib"
      and r: "rec (Normalize ?t) (put_state ?t ((states w ?t)\<lparr>basis := ib\<rparr>) w) = (Return u, w')"
      by (auto simp add: updateEntanglement_body_def split: outcome.splits)
    let ?w1 = "put_state ?t ((states w ?t)\<lparr>basis := ib\<rparr>) w"
    have "length ib \<le> K"
      using length_induce [OF i] b unfolding bounded_def by (simp add: le_trans)
    then have b1: "bounded K ?w1" using b by (simp add: bounded_def put_state_def)
    from keeps_normalizedD [OF kn b1 r]
    have g: "good K ?w1 w'" and f: "fits K (states w' ?t)" by simp_all
    show ?thesis
      unfolding good_def
    proof (intro conjI allI)
      show "ents w' = ents w" using g by (simp add: good_def put_state_def)
      fix t
      show "states w' t = states w t \<or> fits K (states w' t)"
      proof (cases "t = ?t")
        case True
        with f show ?thesis by simp
      next
        case False
        from g have "states w' t = states ?w1 t \<or> fits K (states w' t)" by (simp add: good_def)
        with False show ?thesis by (simp add: put_state_def)
      qed
    qed
  qed
qed

lemma keeps_normalized_step:
  assumes kn: "keeps_normalized K rec" and K: "1 \<le> K" "K \<le> 10 ^ 15"
  shows "keeps_normalized K (step rec)"
  unfolding keeps_normalized_def [of K "step rec"]
proof (intro allI impI)
  fix c w u w'
  assume a: "bounded K w \<and> step rec c w = (Return u, w')"
  then have b: "bounded K w" and s: "step rec c w = (Return u, w')" by simp_all
  show "good K w w' \<and> established K w' c"
  proof (cases c)
    case (Normalize this)
    with s normalize_body_good [OF kn K(2) b, of this u w'] show ?thesis by simp
  next
    case (UpdateEntanglement e source)
    with s updateEntanglement_body_good [OF kn b, of e source u w'] show ?thesis by simp
  next
    case (OnMeasurement e m v)
    with s onMeasurement_body_good [OF kn b, of e m v u w'] show ?thesis by simp
  next
    case (CollapseState2 e v)
    with s collapseState2_body_good [OF kn K(1) b, of e v u w'] show ?thesis by simp
  next
    case (CollapseTo this v meta)
    with s collapseTo_body_good [OF kn K(1) b, of this v meta u w'] show ?thesis by simp
  qed
qed

lemma keeps_normalized_exec:
  assumes "1 \<le> K" "K \<le> 10 ^ 15"
  shows "keeps_normalized K (exec n)"
proof (induction n)
  case 0
  show ?case by (simp add: keeps_normalized_def)
next
  case (Suc n)
  from keeps_normalized_step [OF Suc assms] show ?case by simp
qed

section \<open>The entanglement cascade\<close>

lemma new_source:
  "new_QuantumState [(VNum 0, new_Complex 1 0), (VNum 1, new_Complex 0 0)] = Return cascade_source"
  by (simp add: ctor_defs cascade_source_def)

lemma collapseState2_inject:
  assumes "\<not> Map_has (basis (states w (state2 (ents w e)))) v"
  shows "collapseState2 (Suc n) e v w =
     (Return (), put_state (state2 (ents w e))
        ((states w (state2 (ents w e)))\<lparr>basis := [(v, new_Complex 1 0)], isCollapsed := True,
           collapsedValue := v,
           measurementHistory := measurementHistory (states w (state2 (ents w e))) @
             [\<lparr>timestamp = Date_now w, result = v, reason = ''entanglement-collapse'',
               preMeasurementProbs = []\<rparr>]\<rparr>) w)"
  using assms by (simp add: collapseState2_def collapseState2_body_def Let_def)


lemma cascade_scenario:
  assumes src: "states w s1 = cascade_source"
    and ne: "s1 \<noteq> s2"
    and noent: "entanglements (states w s2) = []"
    and f: "f (VNum 0) = VStr ''A''"
    and n: "4 \<le> n"
  shows "\<exists>w'. new_Entanglement n s1 s2 f w = (Return (next_ref w), w') \<and>
           (\<forall>m. measure_qs m s1 w' = (Return (VNum 0), w')) \<and>
           basis (states w' s2) = [(VStr ''A'', new_Complex 1 0)] \<and>
           isCollapsed (states w' s2) \<and>
           collapsedValue (states w' s2) = VStr ''A'' \<and>
           getProbabilities (states w' s2) = [(VStr ''A'', 1)] \<and>
           random_calls w' = random_calls w"
proof -
  from n obtain k where k: "n = Suc (Suc (Suc (Suc k)))"
    using that [of "n - 4"] by simp
  show ?thesis
  proof (cases "Map_has (basis (states w s2)) (VStr ''A'')")
    case True
    then show ?thesis using src ne noent f
      by (simp add: k new_Entanglement_def Let_def put_state_def Set_add_def
          updateEntanglement_body_def collapseState2_body_def collapseTo_body_def
          notifyEntangledStates_def onMeasurement_body_def cascade_source_def
          measure_qs_def getProbabilities_def Complex_magnitudeSquared_def)
  next
    case False
    then show ?thesis using src ne noent f
      by (simp add: k new_Entanglement_def Let_def put_state_def Set_add_def
          updateEntanglement_body_def collapseState2_body_def cascade_source_def
          measure_qs_def getProbabilities_def Complex_magnitudeSquared_def)
  qed
qed


lemma updateEntanglement_inject:
  assumes "isActive (ents w e)"
    and "source = None \<or> source = Some (state1 (ents w e))"
    and "isCollapsed (states w (state1 (ents w e)))"
    and "relationFn (ents w e) (collapsedValue (states w (state1 (ents w e)))) = v"
    and "v \<noteq> VUndefined"
    and "\<not> Map_has (basis (states w (state2 (ents w e)))) v"
  shows "\<exists>w'. updateEntanglement (Suc (Suc n)) e source w = (Return (), w') \<and>
           basis (states w' (state2 (ents w e))) = [(v, new_Complex 1 0)] \<and>
           isCollapsed (states w' (state2 (ents w e))) \<and>
           collapsedValue (states w' (state2 (ents w e))) = v"
  using assms
  by (auto simp add: updateEntanglement_def updateEntanglement_body_def collapseState2_body_def
      Let_def put_state_def)

lemma onMeasurement_inject:
  assumes "isActive (ents w e)"
    and "measuredState = state1 (ents w e)"
    and "relationFn (ents w e) measuredValue = v"
    and "v \<noteq> VUndefined"
    and "\<not> Map_has (basis (states w (state2 (ents w e)))) v"
  shows "\<exists>w'. onMeasurement (Suc (Suc n)) e measuredState measuredValue w = (Return (), w') \<and>
           basis (states w' (state2 (ents w e))) = [(v, new_Complex 1 0)] \<and>
           isCollapsed (states w' (state2 (ents w e))) \<and>
           collapsedValue (states w' (state2 (ents w e))) = v"
  using assms
  by (auto simp add: onMeasurement_def onMeasurement_body_def collapseState2_body_def
      Let_def put_state_def)

text \<open>
  C3. A source built from \<open>{0:(1,0), 1:(0,0)}\<close> is classical once pruned. Correlating it
  to any target (with no other correlation registered on it) through a mapping that sends
  0 to "A" succeeds; the target then has the single entry "A" with amplitude (1,0), is
  collapsed to "A" with probability 1, the source measures to 0, and \<open>Math.random\<close> was
  never called, so the target was never measured. In general, when the source of an active
  correlation is collapsed (on an update) or has just been measured (on a measurement
  notification) and the mapped key is absent from the target's basis, the call returns and
  the key is the sole entry of the target, with amplitude (1,0), and the target is collapsed
  to it.
\<close>

theorem entanglement_cascade:
  "(\<forall>source w s1 s2 f n.
      new_QuantumState [(VNum 0, new_Complex 1 0), (VNum 1, new_Complex 0 0)] = Return source \<and>
      states w s1 = source \<and> s1 \<noteq> s2 \<and> entanglements (states w s2) = [] \<and>
      f (VNum 0) = VStr ''A'' \<and> 4 \<le> n \<longrightarrow>
      (\<exists>w'. new_Entanglement n s1 s2 f w = (Return (next_ref w), w') \<and>
           (\<forall>m. measure_qs m s1 w' = (Return (VNum 0), w')) \<and>
           basis (states w' s2) = [(VStr ''A'', new_Complex 1 0)] \<and>
           isCollapsed (states w' s2) \<and>
           collapsedValue (states w' s2) = VStr ''A'' \<and>
           getProbabilities (states w' s2) = [(VStr ''A'', 1)] \<and>
           random_calls w' = random_calls w)) \<and>
   (\<forall>w e source v n.
      isActive (ents w e) \<and> (source = None \<or> source = Some (state1 (ents w e))) \<and>
      isCollapsed (states w (state1 (ents w e))) \<and>
      relationFn (ents w e) (collapsedValue (states w (state1 (ents w e)))) = v \<and>
      v \<noteq> VUndefined \<and> \<not> Map_has (basis (states w (state2 (ents w e)))) v \<longrightarrow>
      (\<exists>w'. updateEntanglement (Suc (Suc n)) e source w = (Return (), w') \<and>
           basis (states w' (state2 (ents w e))) = [(v, new_Complex 1 0)] \<and>
           isCollapsed (states w' (state2 (ents w e))) \<and>
           collapsedValue (states w' (state2 (ents w e))) = v)) \<and>
   (\<forall>w e measuredValue v n.
      isActive (ents w e) \<and> relationFn (ents w e) measuredValue = v \<and>
      v \<noteq> VUndefined \<and> \<not> Map_has (basis (states w (state2 (ents w e)))) v \<longrightarrow>
      (\<exists>w'. onMeasurement (Suc (Suc n)) e (state1 (ents w e)) measuredValue w = (Return (), w') \<and>
           basis (states w' (state2 (ents w e))) = [(v, new_Complex 1 0)] \<and>
           isCollapsed (states w' (state2 (ents w e))) \<and>
           collapsedValue (states w' (state2 (ents w e))) = v))"
proof (intro conjI allI impI)
  fix source :: QuantumState and w :: world and s1 s2 :: nat and f :: "val \<Rightarrow> val" and n :: nat
  assume a: "new_QuantumState [(VNum 0, new_Complex 1 0), (VNum 1, new_Complex 0 0)] = Return source \<and>
      states w s1 = source \<and> s1 \<noteq> s2 \<and> entanglements (states w s2) = [] \<and>
      f (VNum 0) = VStr ''A'' \<and> 4 \<le> n"
  then have "source = cascade_source" by (simp add: new_source)
  with a show "\<exists>w'. new_Entanglement n s1 s2 f w = (Return (next_ref w), w') \<and>
           (\<forall>m. measure_qs m s1 w' = (Return (VNum 0), w')) \<and>
           basis (states w' s2) = [(VStr ''A'', new_Complex 1 0)] \<and>
           isCollapsed (states w' s2) \<and>
           collapsedValue (states w' s2) = VStr ''A'' \<and>
           getProbabilities (states w' s2) = [(VStr ''A'', 1)] \<and>
           random_calls w' = random_calls w"
    using cascade_scenario [of w s1 s2 f n] by simp
next
  fix w :: world and e :: nat and source :: "nat option" and v :: val and n :: nat
  assume "isActive (ents w e) \<and> (source = None \<or> source = Some (state1 (ents w e))) \<and>
      isCollapsed (states w (state1 (ents w e))) \<and>
      relationFn (ents w e) (collapsedValue (states w (state1 (ents w e)))) = v \<and>
      v \<noteq> VUndefined \<and> \<not> Map_has (basis (states w (state2 (ents w e)))) v"
  then show "\<exists>w'. updateEntanglement (Suc (Suc n)) e source w = (Return (), w') \<and>
           basis (states w' (state2 (ents w e))) = [(v, new_Complex 1 0)] \<and>
           isCollapsed (states w' (state2 (ents w e))) \<and>
           collapsedValue (states w' (state2 (ents w e))) = v"
    using updateEntanglement_inject [of w e source v n] by blast
next
  fix w :: world and e :: nat and measuredValue v :: val and n :: nat
  assume "isActive (ents w e) \<and> relationFn (ents w e) measuredValue = v \<and>
      v \<noteq> VUndefined \<and> \<not> Map_has (basis (states w (state2 (ents w e)))) v"
  then show "\<exists>w'. onMeasurement (Suc (Suc n)) e (state1 (ents w e)) measuredValue w = (Return (), w') \<and>
           basis (states w' (state2 (ents w e))) = [(v, new_Complex 1 0)] \<and>
           isCollapsed (states w' (state2 (ents w e))) \<and>
           collapsedValue (states w' (state2 (ents w e))) = v"
    using onMeasurement_inject [of w e "state1 (ents w e)" measuredValue v n] by blast
qed

theorem entanglement_cascade_witness:
  "new_QuantumState [(VNum 0, new_Complex 1 0), (VNum 1, new_Complex 0 0)] = Return cascade_source \<and>
   states cascade_world 0 = cascade_source \<and> (0::nat) \<noteq> 1 \<and>
   entanglements (states cascade_world 1) = [] \<and> cascade_map (VNum 0) = VStr ''A'' \<and>
   \<not> Map_has (basis (states cascade_world 1)) (VStr ''A'') \<and>
   (\<exists>w'. new_Entanglement 4 0 1 cascade_map cascade_world = (Return 0, w') \<and>
         measure_qs 1 0 w' = (Return (VNum 0), w') \<and>
         getProbabilities (states w' 1) = [(VStr ''A'', 1)] \<and>
         isCollapsed (states w' 1))"
proof -
  have h: "new_QuantumState [(VNum 0, new_Complex 1 0), (VNum 1, new_Complex 0 0)] = Return cascade_source \<and>
      states cascade_world 0 = cascade_source \<and> (0::nat) \<noteq> 1 \<and>
      entanglements (states cascade_world 1) = [] \<and>
      cascade_map (VNum 0) = VStr ''A'' \<and> (4::nat) \<le> 4"
    by (simp add: new_source cascade_world_def put_state_def classical_B_def blank_world_def
        cascade_map_def)
  have nr: "next_ref cascade_world = 0"
    by (simp add: cascade_world_def put_state_def blank_world_def)
  have nh: "\<not> Map_has (basis (states cascade_world 1)) (VStr ''A'')"
    by (simp add: cascade_world_def put_state_def classical_B_def Map_has_def)
  from entanglement_cascade [THEN conjunct1, rule_format, of cascade_source cascade_world 0 1 cascade_map 4, OF h] nr
  obtain w' where "new_Entanglement 4 0 1 cascade_map cascade_world = (Return 0, w')"
    "\<forall>m. measure_qs m 0 w' = (Return (VNum 0), w')"
    "getProbabilities (states w' 1) = [(VStr ''A'', 1)]" "isCollapsed (states w' 1)"
    by auto
  with h nh show ?thesis by blast
qed

section \<open>Interference: the two reference cases\<close>

lemmas interfere_defs = interfere_def Array_isArray_def resolveWeights_def allValues_def Set_add_def
  combinedAmplitude_def getAmplitude_def PRUNE_EPSILON_def Complex_scale_def Complex_add_def Complex_zero_def

lemma destructive: "interfere [plus_state, minus_state] None = Return classical_B"
  by (simp add: interfere_defs plus_state_def minus_state_def new_classical_B)


lemma constructive: "interfere [classical_X, classical_X] None = Return classical_X"
proof -
  have a: "combinedAmplitude [classical_X, classical_X] [1 / sqrt 2, 1 / sqrt 2] (VStr ''X'')
             = new_Complex (sqrt 2) 0"
    by (simp add: combinedAmplitude_def getAmplitude_def classical_X_def Complex_scale_def
        Complex_add_def Complex_zero_def real_div_sqrt)
  have b: "new_QuantumState [(VStr ''X'', new_Complex (sqrt 2) 0)] = Return classical_X"
    using sqrt2_not_pruned by (simp add: ctor_defs classical_X_def)
  have c: "allValues [classical_X, classical_X] = [VStr ''X'']"
    by (simp add: allValues_def Set_add_def classical_X_def)
  show ?thesis
    using sqrt2_not_pruned by (simp add: interfere_def Array_isArray_def resolveWeights_def a b c PRUNE_EPSILON_def)
qed

text \<open>
  C4. With the default uniform weights, interfering the states built from
  \<open>{A:(1,0), B:(1,0)}\<close> and \<open>{A:(-1,0), B:(1,0)}\<close> succeeds and the result has no entry
  for A (it cancelled and was pruned), so probability(A) is 0, and probability(B) is 1;
  interfering two states both built from \<open>{X:(1,0)}\<close> succeeds with probability(X) equal
  to 1. Over the reals the values are exact.
\<close>

theorem interfere_reference_cases:
  "(\<exists>q1 q2 r.
      new_QuantumState [(VStr ''A'', new_Complex 1 0), (VStr ''B'', new_Complex 1 0)] = Return q1 \<and>
      new_QuantumState [(VStr ''A'', new_Complex (-1) 0), (VStr ''B'', new_Complex 1 0)] = Return q2 \<and>
      interfere [q1, q2] None = Return r \<and>
      \<not> Map_has (basis r) (VStr ''A'') \<and>
      Complex_magnitudeSquared (getAmplitude r (VStr ''A'')) = 0 \<and>
      Complex_magnitudeSquared (getAmplitude r (VStr ''B'')) = 1 \<and>
      getProbabilities r = [(VStr ''B'', 1)]) \<and>
   (\<exists>x r.
      new_QuantumState [(VStr ''X'', new_Complex 1 0)] = Return x \<and>
      interfere [x, x] None = Return r \<and>
      Complex_magnitudeSquared (getAmplitude r (VStr ''X'')) = 1 \<and>
      getProbabilities r = [(VStr ''X'', 1)])"
proof (intro conjI)
  show "\<exists>q1 q2 r.
      new_QuantumState [(VStr ''A'', new_Complex 1 0), (VStr ''B'', new_Complex 1 0)] = Return q1 \<and>
      new_QuantumState [(VStr ''A'', new_Complex (-1) 0), (VStr ''B'', new_Complex 1 0)] = Return q2 \<and>
      interfere [q1, q2] None = Return r \<and>
      \<not> Map_has (basis r) (VStr ''A'') \<and>
      Complex_magnitudeSquared (getAmplitude r (VStr ''A'')) = 0 \<and>
      Complex_magnitudeSquared (getAmplitude r (VStr ''B'')) = 1 \<and>
      getProbabilities r = [(VStr ''B'', 1)]"
    apply (rule exI [of _ plus_state], rule exI [of _ minus_state], rule exI [of _ classical_B])
    apply (simp add: new_plus_state new_minus_state destructive)
    apply (simp add: classical_B_def Map_has_def getAmplitude_def getProbabilities_def
        Complex_magnitudeSquared_def Complex_zero_def)
    done
  show "\<exists>x r.
      new_QuantumState [(VStr ''X'', new_Complex 1 0)] = Return x \<and>
      interfere [x, x] None = Return r \<and>
      Complex_magnitudeSquared (getAmplitude r (VStr ''X'')) = 1 \<and>
      getProbabilities r = [(VStr ''X'', 1)]"
    apply (rule exI [of _ classical_X], rule exI [of _ classical_X])
    apply (simp add: new_classical_X constructive)
    apply (simp add: classical_X_def getAmplitude_def getProbabilities_def
        Complex_magnitudeSquared_def)
    done
qed

theorem interfere_reference_cases_witness:
  "\<exists>r x. interfere [plus_state, minus_state] None = Return r \<and>
         \<not> Map_has (basis r) (VStr ''A'') \<and>
         getProbabilities r = [(VStr ''B'', 1)] \<and>
         interfere [classical_X, classical_X] None = Return x \<and>
         getProbabilities x = [(VStr ''X'', 1)]"
proof -
  from interfere_reference_cases obtain q1 q2 r where
    "new_QuantumState [(VStr ''A'', new_Complex 1 0), (VStr ''B'', new_Complex 1 0)] = Return q1"
    "new_QuantumState [(VStr ''A'', new_Complex (-1) 0), (VStr ''B'', new_Complex 1 0)] = Return q2"
    and r: "interfere [q1, q2] None = Return r" "\<not> Map_has (basis r) (VStr ''A'')"
      "getProbabilities r = [(VStr ''B'', 1)]"
    by blast
  then have q: "q1 = plus_state" "q2 = minus_state"
    by (simp_all add: new_plus_state new_minus_state)
  from interfere_reference_cases obtain x0 x where
    "new_QuantumState [(VStr ''X'', new_Complex 1 0)] = Return x0"
    and x: "interfere [x0, x0] None = Return x" "getProbabilities x = [(VStr ''X'', 1)]"
    by blast
  then have "x0 = classical_X" by (simp add: new_classical_X)
  with r q x show ?thesis by blast
qed

section \<open>The weighting law of quantumIf\<close>

lemma half_less_sqrt: "1 / 2 < sqrt (7 / 10)" "1 / 2 < sqrt (3 / 10)"
  by (rule real_less_rsqrt, simp add: power2_eq_square)+

lemma new_condition_70_30:
  "new_QuantumState [(VBool True, new_Complex (sqrt (7 / 10)) 0),
                     (VBool False, new_Complex (sqrt (3 / 10)) 0)] = Return condition_70_30"
proof -
  have "\<not> sqrt (7 / 10) < 1 / 10 ^ 12" "\<not> sqrt (3 / 10) < 1 / 10 ^ 12"
    using half_less_sqrt by simp_all
  then show ?thesis
    by (simp add: ctor_defs condition_70_30_def)
qed


lemma quantumIf_70_30:
  "quantumIf condition_70_30 (\<lambda>v. ResultValue (VStr ''then'')) (\<lambda>v. ResultValue (VStr ''else''))
     = Return result_70_30"
proof -
  have np: "\<not> sqrt (7 / 10) < 1 / 10 ^ 12" "\<not> sqrt (3 / 10) < 1 / 10 ^ 12"
    using half_less_sqrt by simp_all
  have loop: "quantumIf_loop (\<lambda>v. ResultValue (VStr ''then'')) (\<lambda>v. ResultValue (VStr ''else'')) []
          (basis condition_70_30)
        = Return [(VStr ''then'', new_Complex (sqrt (7 / 10)) 0),
                  (VStr ''else'', new_Complex (sqrt (3 / 10)) 0)]"
    by (simp add: condition_70_30_def coerceToState_total branch_state_def add_weighted_def
        accumulate_def Complex_multiply_def Complex_add_def Complex_zero_def)
  have build: "new_QuantumState [(VStr ''then'', new_Complex (sqrt (7 / 10)) 0),
                  (VStr ''else'', new_Complex (sqrt (3 / 10)) 0)] = Return result_70_30"
    using np by (simp add: ctor_defs result_70_30_def)
  show ?thesis
    by (simp add: quantumIf_def loop buildStateFromMap_def build)
qed


lemma not_pruned_sqrt: "1 / 10 ^ 24 \<le> y \<Longrightarrow> \<not> sqrt y < (1::real) / 10 ^ 12"
  using real_le_rsqrt [of "1 / 10 ^ 12" y] by (simp add: power2_eq_square)

lemma new_condition_3_4:
  "new_QuantumState [(VNum 1, new_Complex (3 / 5) 0), (VStr [], new_Complex 0 (4 / 5))]
     = Return condition_3_4"
proof -
  have "\<not> sqrt (9 / 25) < (1::real) / 10 ^ 12" "\<not> sqrt (16 / 25) < (1::real) / 10 ^ 12"
    by (rule not_pruned_sqrt, simp)+
  then show ?thesis
    by (simp add: ctor_defs condition_3_4_def Complex_magnitude_def)
qed

lemma new_then_xy:
  "new_QuantumState [(VStr ''x'', new_Complex (3 / 5) 0), (VStr ''y'', new_Complex 0 (4 / 5))]
     = Return then_xy"
proof -
  have "\<not> sqrt (9 / 25) < (1::real) / 10 ^ 12" "\<not> sqrt (16 / 25) < (1::real) / 10 ^ 12"
    by (rule not_pruned_sqrt, simp)+
  then show ?thesis
    by (simp add: ctor_defs then_xy_def Complex_magnitude_def)
qed

lemma new_else_y: "new_QuantumState [(VStr ''y'', new_Complex 0 1)] = Return else_y"
  by (simp add: ctor_defs else_y_def Complex_magnitude_def)

lemma quantumIf_3_4:
  "quantumIf condition_3_4 (\<lambda>v. ResultState then_xy) (\<lambda>v. ResultState else_y) = Return result_3_4"
proof -
  have loop: "quantumIf_loop (\<lambda>v. ResultState then_xy) (\<lambda>v. ResultState else_y) []
          (basis condition_3_4)
        = Return [(VStr ''x'', new_Complex (9 / 25) 0),
                  (VStr ''y'', new_Complex (- (4 / 5)) (12 / 25))]"
    by (simp add: condition_3_4_def then_xy_def else_y_def coerceToState_def add_weighted_def
        accumulate_def Complex_multiply_def Complex_add_def Complex_zero_def)
  have "\<not> sqrt (81 / 625) < (1::real) / 10 ^ 12" "\<not> sqrt (544 / 625) < (1::real) / 10 ^ 12"
    by (rule not_pruned_sqrt, simp)+
  then have build: "new_QuantumState [(VStr ''x'', new_Complex (9 / 25) 0),
                  (VStr ''y'', new_Complex (- (4 / 5)) (12 / 25))] = Return result_3_4"
    by (simp add: ctor_defs result_3_4_def Complex_magnitude_def)
  show ?thesis
    by (simp add: quantumIf_def loop buildStateFromMap_def build)
qed

lemma to_complex_zero: "to_complex Complex_zero = 0"
  by (simp add: to_complex_def Complex_zero_def complex_eq_iff)

lemma to_complex_add: "to_complex (Complex_add a b) = to_complex a + to_complex b"
  by (simp add: to_complex_def Complex_add_def complex_eq_iff)

lemma to_complex_multiply: "to_complex (Complex_multiply a b) = to_complex a * to_complex b"
  by (simp add: to_complex_def Complex_multiply_def complex_eq_iff)

lemma to_complex_new: "to_complex a = Complex p q \<longleftrightarrow> a = new_Complex p q"
  by (cases a) (simp add: to_complex_def)

lemma to_complex_foldl:
  "to_complex (foldl Complex_add z xs) = to_complex z + sum_list (map to_complex xs)"
  by (induction xs arbitrary: z) (simp_all add: to_complex_add)

lemma merged_amplitude_map:
  "merged_amplitude (map (\<lambda>(k, x). (k, to_complex x)) xs) r =
     sum_list (map to_complex (map snd (filter (\<lambda>(k, x). k = r) xs)))"
  by (induction xs) (auto simp add: merged_amplitude_def)

lemma contributions_of_loop:
  "map (\<lambda>(k, x). (k, to_complex x))
     (concat (map (\<lambda>(v, a). map (\<lambda>(r, b). (r, Complex_multiply b a))
                               (basis (branch_state (if truthy v then thenFn v else elseFn v))))
                  entries))
   = concat (map (weighted_branch thenFn elseFn) entries)"
  by (induction entries) (auto simp add: weighted_branch_def to_complex_multiply)

text \<open>
  C6. For the condition built from \<open>{true: \<surd>0.7, false: \<surd>0.3}\<close>, with \<open>thenFn\<close> returning
  the plain value "then" and \<open>elseFn\<close> returning "else", \<open>quantumIf\<close> returns the state
  with probabilities "then": 0.7 and "else": 0.3 (exactly, over the reals). For the
  condition \<open>{1: 3/5, '': 4/5 i}\<close> with \<open>thenFn\<close> returning \<open>{x: 3/5, y: 4/5 i}\<close> and \<open>elseFn\<close>
  returning \<open>{y: i}\<close>, it returns \<open>{x: 9/25, y: -4/5 + 12/25 i}\<close>: the amplitude at \<open>y\<close>
  is the sum \<open>(4/5 i)(3/5) + (i)(4/5 i)\<close>. In general the loop of \<open>quantumIf\<close> never throws,
  and the map it builds is the merge the specification describes: its keys are the result
  values of the selected branches, each once, and the amplitude at a result value is, as a
  complex number, the sum of the branch amplitudes for that value, each multiplied by the
  amplitude of the condition outcome that selected the branch, where an outcome selects
  \<open>thenFn\<close> if its value is truthy and \<open>elseFn\<close> otherwise. The result is the state
  constructed from that map.
\<close>

theorem quantumIf_weighting_law:
  "(\<exists>condition r.
      new_QuantumState [(VBool True, new_Complex (sqrt (7 / 10)) 0),
                        (VBool False, new_Complex (sqrt (3 / 10)) 0)] = Return condition \<and>
      quantumIf condition (\<lambda>v. ResultValue (VStr ''then'')) (\<lambda>v. ResultValue (VStr ''else''))
        = Return r \<and>
      getProbabilities r = [(VStr ''then'', 7 / 10), (VStr ''else'', 3 / 10)]) \<and>
   (\<exists>condition thenState elseState r.
      new_QuantumState [(VNum 1, new_Complex (3 / 5) 0), (VStr [], new_Complex 0 (4 / 5))]
        = Return condition \<and>
      new_QuantumState [(VStr ''x'', new_Complex (3 / 5) 0), (VStr ''y'', new_Complex 0 (4 / 5))]
        = Return thenState \<and>
      new_QuantumState [(VStr ''y'', new_Complex 0 1)] = Return elseState \<and>
      quantumIf condition (\<lambda>v. ResultState thenState) (\<lambda>v. ResultState elseState) = Return r \<and>
      basis r = [(VStr ''x'', new_Complex (9 / 25) 0),
                 (VStr ''y'', new_Complex (- (4 / 5)) (12 / 25))] \<and>
      getProbabilities r = [(VStr ''x'', 81 / 625), (VStr ''y'', 544 / 625)]) \<and>
   (\<forall>condition thenFn elseFn. \<exists>combined.
      quantumIf_loop thenFn elseFn [] (basis condition) = Return combined \<and>
      quantumIf condition thenFn elseFn = buildStateFromMap combined ''quantumIf'' \<and>
      distinct (map fst combined) \<and>
      set (map fst combined) = set (map fst (quantumIf_contributions condition thenFn elseFn)) \<and>
      (\<forall>r. to_complex (amplitude_at combined r)
             = merged_amplitude (quantumIf_contributions condition thenFn elseFn) r))"
proof -
  have A: "\<exists>condition r.
      new_QuantumState [(VBool True, new_Complex (sqrt (7 / 10)) 0),
                        (VBool False, new_Complex (sqrt (3 / 10)) 0)] = Return condition \<and>
      quantumIf condition (\<lambda>v. ResultValue (VStr ''then'')) (\<lambda>v. ResultValue (VStr ''else''))
        = Return r \<and>
      getProbabilities r = [(VStr ''then'', 7 / 10), (VStr ''else'', 3 / 10)]"
    apply (rule exI [of _ condition_70_30], rule exI [of _ result_70_30])
    apply (simp add: new_condition_70_30 quantumIf_70_30)
    apply (simp add: result_70_30_def getProbabilities_def Complex_magnitudeSquared_def)
    done
  have B: "\<exists>condition thenState elseState r.
      new_QuantumState [(VNum 1, new_Complex (3 / 5) 0), (VStr [], new_Complex 0 (4 / 5))]
        = Return condition \<and>
      new_QuantumState [(VStr ''x'', new_Complex (3 / 5) 0), (VStr ''y'', new_Complex 0 (4 / 5))]
        = Return thenState \<and>
      new_QuantumState [(VStr ''y'', new_Complex 0 1)] = Return elseState \<and>
      quantumIf condition (\<lambda>v. ResultState thenState) (\<lambda>v. ResultState elseState) = Return r \<and>
      basis r = [(VStr ''x'', new_Complex (9 / 25) 0),
                 (VStr ''y'', new_Complex (- (4 / 5)) (12 / 25))] \<and>
      getProbabilities r = [(VStr ''x'', 81 / 625), (VStr ''y'', 544 / 625)]"
    apply (rule exI [of _ condition_3_4], rule exI [of _ then_xy], rule exI [of _ else_y],
        rule exI [of _ result_3_4])
    apply (simp add: new_condition_3_4 new_then_xy new_else_y quantumIf_3_4)
    apply (simp add: result_3_4_def getProbabilities_def Complex_magnitudeSquared_def)
    done
  have C: "\<forall>condition thenFn elseFn. \<exists>combined.
      quantumIf_loop thenFn elseFn [] (basis condition) = Return combined \<and>
      quantumIf condition thenFn elseFn = buildStateFromMap combined ''quantumIf'' \<and>
      distinct (map fst combined) \<and>
      set (map fst combined) = set (map fst (quantumIf_contributions condition thenFn elseFn)) \<and>
      (\<forall>r. to_complex (amplitude_at combined r)
             = merged_amplitude (quantumIf_contributions condition thenFn elseFn) r)"
  proof (intro allI)
    fix condition :: QuantumState and thenFn elseFn :: "val \<Rightarrow> branch_result"
    let ?c = "quantumIf_contributions condition thenFn elseFn"
    let ?s = "concat (map (\<lambda>(v, a). map (\<lambda>(r, b). (r, Complex_multiply b a))
                               (basis (branch_state (if truthy v then thenFn v else elseFn v))))
                  (basis condition))"
    have cs: "map (\<lambda>(k, x). (k, to_complex x)) ?s = ?c"
      by (simp add: contributions_of_loop quantumIf_contributions_def)
    have loop: "quantumIf_loop thenFn elseFn [] (basis condition) = Return (foldl accumulate [] ?s)"
      by (simp add: quantumIf_loop_foldl)
    have amp: "\<forall>r. to_complex (amplitude_at (foldl accumulate [] ?s) r) = merged_amplitude ?c r"
    proof
      fix r
      have "amplitude_at [] r = Complex_zero" by (simp add: amplitude_at_def)
      then have "to_complex (amplitude_at (foldl accumulate [] ?s) r)
                   = sum_list (map to_complex (map snd (filter (\<lambda>(k, x). k = r) ?s)))"
        by (simp add: amplitude_at_foldl_accumulate to_complex_foldl to_complex_zero)
      also have "\<dots> = merged_amplitude (map (\<lambda>(k, x). (k, to_complex x)) ?s) r"
        by (simp only: merged_amplitude_map)
      finally show "to_complex (amplitude_at (foldl accumulate [] ?s) r) = merged_amplitude ?c r"
        by (simp only: cs)
    qed
    have d: "distinct (map fst (foldl accumulate [] ?s))"
      by (rule distinct_foldl_accumulate) simp
    have "map fst ?c = map fst ?s"
      unfolding cs [symmetric] by (simp add: case_prod_unfold comp_def)
    then have k: "set (map fst (foldl accumulate [] ?s)) = set (map fst ?c)"
      using keys_foldl_accumulate [of "[]" ?s] by simp
    show "\<exists>combined.
      quantumIf_loop thenFn elseFn [] (basis condition) = Return combined \<and>
      quantumIf condition thenFn elseFn = buildStateFromMap combined ''quantumIf'' \<and>
      distinct (map fst combined) \<and>
      set (map fst combined) = set (map fst (quantumIf_contributions condition thenFn elseFn)) \<and>
      (\<forall>r. to_complex (amplitude_at combined r)
             = merged_amplitude (quantumIf_contributions condition thenFn elseFn) r)"
      apply (rule exI [of _ "foldl accumulate [] ?s"])
      using loop amp d k by (simp add: quantumIf_def)
  qed
  from A B C show ?thesis by (intro conjI)
qed

theorem quantumIf_weighting_law_witness:
  "\<exists>combined.
     quantumIf_loop (\<lambda>v. ResultState then_xy) (\<lambda>v. ResultState else_y) []
       (basis condition_3_4) = Return combined \<and>
     amplitude_at combined (VStr ''x'') = new_Complex (9 / 25) 0 \<and>
     amplitude_at combined (VStr ''y'') = new_Complex (- (4 / 5)) (12 / 25) \<and>
     amplitude_at combined (VStr ''z'') = Complex_zero"
proof -
  let ?t = "\<lambda>v. ResultState then_xy" and ?e = "\<lambda>v. ResultState else_y"
  have c: "quantumIf_contributions condition_3_4 ?t ?e
             = [(VStr ''x'', Complex (3 / 5) 0 * Complex (3 / 5) 0),
                (VStr ''y'', Complex 0 (4 / 5) * Complex (3 / 5) 0),
                (VStr ''y'', Complex 0 1 * Complex 0 (4 / 5))]"
    by (simp add: quantumIf_contributions_def condition_3_4_def weighted_branch_def
        branch_state_def then_xy_def else_y_def to_complex_def)
  from quantumIf_weighting_law [THEN conjunct2, THEN conjunct2, rule_format,
      where condition = condition_3_4 and thenFn = ?t and elseFn = ?e]
  obtain combined where
    l: "quantumIf_loop ?t ?e [] (basis condition_3_4) = Return combined"
    and a: "\<forall>r. to_complex (amplitude_at combined r)
              = merged_amplitude (quantumIf_contributions condition_3_4 ?t ?e) r"
    by blast
  have "to_complex (amplitude_at combined (VStr ''x'')) = Complex (9 / 25) 0"
    "to_complex (amplitude_at combined (VStr ''y'')) = Complex (- (4 / 5)) (12 / 25)"
    "to_complex (amplitude_at combined (VStr ''z'')) = Complex 0 0"
    unfolding a [rule_format] c
    by (simp_all add: merged_amplitude_def complex_eq_iff)
  then have "amplitude_at combined (VStr ''x'') = new_Complex (9 / 25) 0"
    "amplitude_at combined (VStr ''y'') = new_Complex (- (4 / 5)) (12 / 25)"
    "amplitude_at combined (VStr ''z'') = Complex_zero"
    by (simp_all only: to_complex_new Complex_zero_def)
  with l show ?thesis by blast
qed

section \<open>The termination flag of quantumWhile\<close>

lemma while_loop_flag:
  assumes "while_loop condition bodyFn maxIterations iteration currentState hist = Return r"
    and "iteration \<le> maxIterations"
  shows "iteration \<le> iterations r \<and> iterations r \<le> maxIterations \<and>
         (terminatedByMaxIterations r \<longleftrightarrow> iterations r = maxIterations) \<and>
         (\<not> terminatedByMaxIterations r \<longrightarrow> \<not> anyTrue condition (finalState r))"
  using assms
proof (induction condition bodyFn maxIterations iteration currentState hist rule: while_loop.induct)
  case (1 condition bodyFn maxIterations iteration currentState hist)
  note u = while_loop_unfold [of condition bodyFn maxIterations iteration currentState hist]
  show ?case
  proof (cases "iteration < maxIterations")
    case False
    with "1.prems"(1) have "r = \<lparr>finalState = currentState, history = hist,
        iterations = iteration, terminatedByMaxIterations = True\<rparr>"
      unfolding u by simp
    with False "1.prems"(2) show ?thesis by simp
  next
    case lt: True
    show ?thesis
    proof (cases "anyTrue condition currentState")
      case False
      with lt "1.prems"(1) have "r = \<lparr>finalState = currentState, history = hist,
          iterations = iteration, terminatedByMaxIterations = False\<rparr>"
        unfolding u by simp
      with False lt show ?thesis by simp
    next
      case any: True
      from "1.prems"(1) have
        "(case applyConditionalBody currentState iteration condition bodyFn of
             Throw e \<Rightarrow> Throw e
           | Return nextState \<Rightarrow>
               (case clone nextState of
                  Throw e \<Rightarrow> Throw e
                | Return snapshot \<Rightarrow>
                    while_loop condition bodyFn maxIterations (iteration + 1) nextState
                      (hist @ [snapshot]))) = Return r"
        unfolding u using lt any by simp
      then obtain nextState snapshot where
        a: "applyConditionalBody currentState iteration condition bodyFn = Return nextState"
        and c: "clone nextState = Return snapshot"
        and w: "while_loop condition bodyFn maxIterations (iteration + 1) nextState (hist @ [snapshot]) = Return r"
        by (auto split: outcome.splits)
      from "1.IH" [OF lt _ a c w] any lt
      show ?thesis by simp
    qed
  qed
qed

lemma while_loop_stops_on_condition:
  assumes "iteration < maxIterations" and "\<not> anyTrue condition currentState"
  shows "while_loop condition bodyFn maxIterations iteration currentState hist =
           Return \<lparr>finalState = currentState, history = hist, iterations = iteration,
                   terminatedByMaxIterations = False\<rparr>"
  using assms by (subst while_loop_unfold) simp

lemma while_loop_stops_on_guard:
  assumes "\<not> iteration < maxIterations"
  shows "while_loop condition bodyFn maxIterations iteration currentState hist =
           Return \<lparr>finalState = currentState, history = hist, iterations = iteration,
                   terminatedByMaxIterations = True\<rparr>"
  using assms by (subst while_loop_unfold) simp

text \<open>
  C7, as amended. \<open>quantumWhile\<close> is a total function: its loop is defined by recursion on
  \<open>maxIterations - iteration\<close>. Whenever it returns a result, for every non-negative
  \<open>maxIterations\<close> (0 included) and every initial state: the number of iterations is at most
  \<open>maxIterations\<close>; \<open>terminatedByMaxIterations\<close> is true exactly when the loop ran
  \<open>maxIterations\<close> iterations, and so false exactly when it stopped earlier; and when it is
  false, no outcome of the final state satisfies the condition. At the head of the loop,
  with iterations left, a state none of whose outcomes satisfies the condition makes the
  loop stop there with the flag false; with no iterations left the loop stops with the flag
  true, and the condition is not looked at (so with \<open>maxIterations = 0\<close> the flag is true
  and no iteration ran).
\<close>

theorem quantumWhile_termination_flag:
  "(\<forall>condition bodyFn initialState maxIterations r.
      quantumWhile condition bodyFn initialState maxIterations = Return r \<longrightarrow>
        0 \<le> maxIterations \<and> int (iterations r) \<le> maxIterations \<and>
        (terminatedByMaxIterations r \<longleftrightarrow> int (iterations r) = maxIterations) \<and>
        (\<not> terminatedByMaxIterations r \<longrightarrow> \<not> anyTrue condition (finalState r))) \<and>
   (\<forall>condition bodyFn maxIterations iteration currentState hist.
      iteration < maxIterations \<and> \<not> anyTrue condition currentState \<longrightarrow>
        while_loop condition bodyFn maxIterations iteration currentState hist =
          Return \<lparr>finalState = currentState, history = hist, iterations = iteration,
                  terminatedByMaxIterations = False\<rparr>) \<and>
   (\<forall>condition bodyFn maxIterations iteration currentState hist.
      \<not> iteration < maxIterations \<longrightarrow>
        while_loop condition bodyFn maxIterations iteration currentState hist =
          Return \<lparr>finalState = currentState, history = hist, iterations = iteration,
                  terminatedByMaxIterations = True\<rparr>)"
proof -
  have A: "\<forall>condition bodyFn initialState maxIterations r.
      quantumWhile condition bodyFn initialState maxIterations = Return r \<longrightarrow>
        0 \<le> maxIterations \<and> int (iterations r) \<le> maxIterations \<and>
        (terminatedByMaxIterations r \<longleftrightarrow> int (iterations r) = maxIterations) \<and>
        (\<not> terminatedByMaxIterations r \<longrightarrow> \<not> anyTrue condition (finalState r))"
  proof (intro allI impI)
    fix condition :: "val \<Rightarrow> bool" and bodyFn :: "val \<Rightarrow> nat \<Rightarrow> branch_result"
      and initialState :: QuantumState and maxIterations :: int and r :: while_result
    assume q: "quantumWhile condition bodyFn initialState maxIterations = Return r"
    then have nn: "0 \<le> maxIterations"
      by (simp add: quantumWhile_def split: if_splits)
    from q nn obtain currentState snapshot where
      "while_loop condition bodyFn (nat maxIterations) 0 currentState [snapshot] = Return r"
      by (simp add: quantumWhile_def split: outcome.splits)
    from while_loop_flag [OF this] nn
    show "0 \<le> maxIterations \<and> int (iterations r) \<le> maxIterations \<and>
          (terminatedByMaxIterations r \<longleftrightarrow> int (iterations r) = maxIterations) \<and>
          (\<not> terminatedByMaxIterations r \<longrightarrow> \<not> anyTrue condition (finalState r))"
      by auto
  qed
  have B: "\<forall>condition bodyFn maxIterations iteration currentState hist.
      iteration < maxIterations \<and> \<not> anyTrue condition currentState \<longrightarrow>
        while_loop condition bodyFn maxIterations iteration currentState hist =
          Return \<lparr>finalState = currentState, history = hist, iterations = iteration,
                  terminatedByMaxIterations = False\<rparr>"
    by (simp add: while_loop_stops_on_condition)
  have C: "\<forall>condition bodyFn maxIterations iteration currentState hist.
      \<not> iteration < maxIterations \<longrightarrow>
        while_loop condition bodyFn maxIterations iteration currentState hist =
          Return \<lparr>finalState = currentState, history = hist, iterations = iteration,
                  terminatedByMaxIterations = True\<rparr>"
    by (simp add: while_loop_stops_on_guard)
  from A B C show ?thesis by (intro conjI)
qed

section \<open>A counting loop\<close>

lemmas loop_defs = quantumWhile_def clone_def ctor_defs applyConditionalBody_def
  coerceResultState_def add_weighted_def buildStateFromMap_def anyTrue_def Complex_multiply_def
  Complex_clone_def Complex_magnitude_def below_two_def add_one_def classical_num_def

lemma count_to_two_early:
  "quantumWhile below_two add_one (classical_num 0) 10 =
     Return \<lparr>finalState = classical_num 2,
             history = [classical_num 0, classical_num 1, classical_num 2],
             iterations = 2, terminatedByMaxIterations = False\<rparr>"
  by (simp add: loop_defs while_loop_unfold)

lemma count_to_two_guard:
  "quantumWhile below_two add_one (classical_num 0) 2 =
     Return \<lparr>finalState = classical_num 2,
             history = [classical_num 0, classical_num 1, classical_num 2],
             iterations = 2, terminatedByMaxIterations = True\<rparr>"
  by (simp add: loop_defs while_loop_unfold)

lemma no_iterations_allowed:
  "quantumWhile below_two add_one (classical_num 2) 0 =
     Return \<lparr>finalState = classical_num 2, history = [classical_num 2],
             iterations = 0, terminatedByMaxIterations = True\<rparr>"
  by (simp add: loop_defs while_loop_unfold)

theorem quantumWhile_termination_flag_witness:
  "new_QuantumState [(VNum 0, new_Complex 1 0)] = Return (classical_num 0) \<and>
   anyTrue below_two (classical_num 0) \<and> anyTrue below_two (classical_num 1) \<and>
   \<not> anyTrue below_two (classical_num 2) \<and>
   quantumWhile below_two add_one (classical_num 0) 10 =
     Return \<lparr>finalState = classical_num 2,
             history = [classical_num 0, classical_num 1, classical_num 2],
             iterations = 2, terminatedByMaxIterations = False\<rparr> \<and>
   while_loop below_two add_one 10 2 (classical_num 2) [] =
     Return \<lparr>finalState = classical_num 2, history = [], iterations = 2,
             terminatedByMaxIterations = False\<rparr> \<and>
   while_loop below_two add_one 2 2 (classical_num 2) [] =
     Return \<lparr>finalState = classical_num 2, history = [], iterations = 2,
             terminatedByMaxIterations = True\<rparr>"
proof -
  have n: "new_QuantumState [(VNum 0, new_Complex 1 0)] = Return (classical_num 0)"
    by (simp add: ctor_defs classical_num_def Complex_magnitude_def)
  have y: "anyTrue below_two (classical_num 0)" "anyTrue below_two (classical_num 1)"
    by (simp_all add: anyTrue_def classical_num_def below_two_def)
  have na: "\<not> anyTrue below_two (classical_num 2)"
    by (simp add: anyTrue_def classical_num_def below_two_def)
  from quantumWhile_termination_flag [THEN conjunct1, rule_format, OF count_to_two_early]
  have f: "\<not> terminatedByMaxIterations
              \<lparr>finalState = classical_num 2,
               history = [classical_num 0, classical_num 1, classical_num 2],
               iterations = 2, terminatedByMaxIterations = False\<rparr>"
    by simp
  have "(2::nat) < 10 \<and> \<not> anyTrue below_two (classical_num 2)" using na by simp
  from quantumWhile_termination_flag [THEN conjunct2, THEN conjunct1, rule_format, OF this]
  have b: "while_loop below_two add_one 10 2 (classical_num 2) [] =
     Return \<lparr>finalState = classical_num 2, history = [], iterations = 2,
             terminatedByMaxIterations = False\<rparr>" .
  have "\<not> (2::nat) < 2" by simp
  from quantumWhile_termination_flag [THEN conjunct2, THEN conjunct2, rule_format, OF this]
  have c: "while_loop below_two add_one 2 2 (classical_num 2) [] =
     Return \<lparr>finalState = classical_num 2, history = [], iterations = 2,
             terminatedByMaxIterations = True\<rparr>" .
  from n y na count_to_two_early b c show ?thesis by (intro conjI)
qed

text \<open>
  C7 as stated fails where the loop ends in a state none of whose outcomes satisfies the
  condition just as the iterations are used up: the flag is then true. Counting from 0
  while the value is below 2, the loop has converged after two iterations; with
  \<open>maxIterations = 2\<close> the flag is true, with the same final state, history and iteration
  count that give the flag false with \<open>maxIterations = 10\<close>. With \<open>maxIterations = 0\<close> the
  flag is true on a state where nothing satisfies the condition.
\<close>

theorem quantumWhile_flag_true_on_converged_state:
  "quantumWhile below_two add_one (classical_num 0) 2 =
     Return \<lparr>finalState = classical_num 2,
             history = [classical_num 0, classical_num 1, classical_num 2],
             iterations = 2, terminatedByMaxIterations = True\<rparr> \<and>
   quantumWhile below_two add_one (classical_num 2) 0 =
     Return \<lparr>finalState = classical_num 2, history = [classical_num 2],
             iterations = 0, terminatedByMaxIterations = True\<rparr> \<and>
   \<not> anyTrue below_two (classical_num 2)"
proof -
  have na: "\<not> anyTrue below_two (classical_num 2)"
    by (simp add: anyTrue_def classical_num_def below_two_def)
  from count_to_two_guard no_iterations_allowed na show ?thesis by (intro conjI)
qed

section \<open>What setAmplitude leaves behind when it raises\<close>

lemma setAmplitude_throw_fields:
  assumes sa: "setAmplitude (Suc (Suc k)) this value (Some a) w = (Throw e, w')"
    and na: "\<not> is_active_source w this"
  shows "isCollapsed (states w' this) = isCollapsed (states w this) \<and>
         collapsedValue (states w' this) = collapsedValue (states w this) \<and>
         measurementHistory (states w' this) = measurementHistory (states w this) \<and>
         entanglements (states w' this) = entanglements (states w this) \<and>
         (basis (states w' this) = pruned_overwrite (states w this) value a \<or>
          basis (states w' this) = []) \<and>
         (\<forall>t. t \<noteq> this \<longrightarrow> states w' t = states w t) \<and> ents w' = ents w"
proof -
  let ?s1 = "(states w this)\<lparr>basis := Map_set (basis (states w this)) value a\<rparr>"
  obtain r s2 where p: "pruneNearZeroAmplitudes ?s1 = (r, s2)" by (cases "pruneNearZeroAmplitudes ?s1")
  note pf = pruneNearZeroAmplitudes_fields [OF p]
  have b2: "basis s2 = pruned_overwrite (states w this) value a"
    using pf by (simp add: pruned_overwrite_def)
  show ?thesis
  proof (cases r)
    case (Throw e')
    with sa p have "w' = put_state this s2 w" by (simp add: setAmplitude_def)
    with pf b2 show ?thesis by (simp add: put_state_def)
  next
    case (Return u)
    with pf have ne: "basis s2 \<noteq> []"
      using p by (auto simp add: pruneNearZeroAmplitudes_def Let_def split: if_splits)
    let ?w1 = "put_state this s2 w"
    obtain r' s3 where nt: "normalize_this (states ?w1 this) = (r', s3)"
      by (cases "normalize_this (states ?w1 this)")
    have na1: "\<not> is_active_source ?w1 this"
      using na pf by (simp add: is_active_source_def put_state_def)
    from sa p Return ne have "normalize (Suc (Suc k)) this ?w1 = (Throw e, w')"
      by (simp add: setAmplitude_def)
    with normalize_no_propagation [OF na1 nt, of k]
    have r': "r' = Throw e" and w': "w' = put_state this s3 ?w1" by simp_all
    from nt r' have nt': "normalize_this s2 = (Throw e, s3)" by (simp add: put_state_def)
    from normalize_this_throw [OF nt'] normalize_this_fields [OF nt'] pf b2 w'
    show ?thesis by (auto simp add: put_state_def)
  qed
qed

text \<open>
  C5, as amended. If \<open>setAmplitude(key, amp)\<close> raises because \<open>amp\<close> is not a
  \<open>Complex\<close>, nothing at all is mutated. If it raises otherwise, on a superposition that
  is not the source of an active correlation (and with call stack left for its
  notifications), then the collapsed flag, \<open>collapsedValue\<close>, the history and the
  registered correlations of the superposition are as before the call, and so is every other
  object; but its basis is not: it is the basis with \<open>key\<close> overwritten and the near-zero
  entries pruned, or it is empty.
\<close>

theorem setAmplitude_error_effects:
  assumes "setAmplitude n this value amplitude w = (Throw e, w')"
  shows "(amplitude = None \<longrightarrow> w' = w) \<and>
         (\<forall>a. amplitude = Some a \<and> 2 \<le> n \<and> \<not> is_active_source w this \<longrightarrow>
            isCollapsed (states w' this) = isCollapsed (states w this) \<and>
            collapsedValue (states w' this) = collapsedValue (states w this) \<and>
            measurementHistory (states w' this) = measurementHistory (states w this) \<and>
            entanglements (states w' this) = entanglements (states w this) \<and>
            (basis (states w' this) = pruned_overwrite (states w this) value a \<or>
             basis (states w' this) = []) \<and>
            (\<forall>t. t \<noteq> this \<longrightarrow> states w' t = states w t) \<and> ents w' = ents w)"
proof -
  have A: "amplitude = None \<longrightarrow> w' = w"
    using assms by (auto simp add: setAmplitude_def)
  have B: "\<forall>a. amplitude = Some a \<and> 2 \<le> n \<and> \<not> is_active_source w this \<longrightarrow>
            isCollapsed (states w' this) = isCollapsed (states w this) \<and>
            collapsedValue (states w' this) = collapsedValue (states w this) \<and>
            measurementHistory (states w' this) = measurementHistory (states w this) \<and>
            entanglements (states w' this) = entanglements (states w this) \<and>
            (basis (states w' this) = pruned_overwrite (states w this) value a \<or>
             basis (states w' this) = []) \<and>
            (\<forall>t. t \<noteq> this \<longrightarrow> states w' t = states w t) \<and> ents w' = ents w"
  proof (intro allI impI)
    fix a
    assume h: "amplitude = Some a \<and> 2 \<le> n \<and> \<not> is_active_source w this"
    then obtain k where "n = Suc (Suc k)" using that [of "n - 2"] by auto
    with assms h have "setAmplitude (Suc (Suc k)) this value (Some a) w = (Throw e, w')" by simp
    from setAmplitude_throw_fields [OF this] h
    show "isCollapsed (states w' this) = isCollapsed (states w this) \<and>
            collapsedValue (states w' this) = collapsedValue (states w this) \<and>
            measurementHistory (states w' this) = measurementHistory (states w this) \<and>
            entanglements (states w' this) = entanglements (states w this) \<and>
            (basis (states w' this) = pruned_overwrite (states w this) value a \<or>
             basis (states w' this) = []) \<and>
            (\<forall>t. t \<noteq> this \<longrightarrow> states w' t = states w t) \<and> ents w' = ents w"
      by simp
  qed
  from A B show ?thesis by (intro conjI)
qed

lemma setAmplitude_zero_throws:
  "setAmplitude 2 0 (VStr ''A'') (Some (new_Complex 0 0)) (put_state 0 classical_A blank_world)
     = (Throw (Error ''Quantum state has no non-zero amplitudes after pruning.''),
        put_state 0 (classical_A\<lparr>basis := []\<rparr>) blank_world)"
  by (simp add: setAmplitude_def put_state_def classical_A_def pruneNearZeroAmplitudes_def
      AMPLITUDE_PRUNE_EPSILON_def Let_def)

theorem setAmplitude_error_effects_witness:
  "setAmplitude 2 0 (VStr ''A'') (Some (new_Complex 0 0)) (put_state 0 classical_A blank_world)
     = (Throw (Error ''Quantum state has no non-zero amplitudes after pruning.''),
        put_state 0 (classical_A\<lparr>basis := []\<rparr>) blank_world) \<and>
   \<not> is_active_source (put_state 0 classical_A blank_world) 0 \<and>
   isCollapsed (states (put_state 0 (classical_A\<lparr>basis := []\<rparr>) blank_world) 0) \<and>
   measurementHistory (states (put_state 0 (classical_A\<lparr>basis := []\<rparr>) blank_world) 0) = []"
proof -
  have na: "\<not> is_active_source (put_state 0 classical_A blank_world) 0"
    by (simp add: is_active_source_def put_state_def classical_A_def)
  from setAmplitude_error_effects [OF setAmplitude_zero_throws, THEN conjunct2, rule_format,
      of "new_Complex 0 0"] na
  have "isCollapsed (states (put_state 0 (classical_A\<lparr>basis := []\<rparr>) blank_world) 0)
          = isCollapsed (states (put_state 0 classical_A blank_world) 0) \<and>
        measurementHistory (states (put_state 0 (classical_A\<lparr>basis := []\<rparr>) blank_world) 0)
          = measurementHistory (states (put_state 0 classical_A blank_world) 0)"
    by simp
  then show ?thesis using setAmplitude_zero_throws na
    by (simp add: put_state_def classical_A_def)
qed

text \<open>
  C5 as stated fails. Setting the only amplitude of a classical state to zero raises from
  the pruning step and leaves the basis empty, where it had one entry before the call. And
  on the source of an active correlation whose mapping is undefined at the new key, the
  call raises during propagation after the collapsed flag has been reset.
\<close>

theorem setAmplitude_error_mutates:
  "fst (setAmplitude 2 0 (VStr ''A'') (Some (new_Complex 0 0)) (put_state 0 classical_A blank_world))
     = Throw (Error ''Quantum state has no non-zero amplitudes after pruning.'') \<and>
   basis (states (put_state 0 classical_A blank_world) 0) = [(VStr ''A'', new_Complex 1 0)] \<and>
   basis (states (snd (setAmplitude 2 0 (VStr ''A'') (Some (new_Complex 0 0))
                         (put_state 0 classical_A blank_world))) 0) = [] \<and>
   fst (setAmplitude 3 0 (VStr ''B'') (Some (new_Complex 1 0)) correlated_world)
     = Throw (Error ''Entanglement relationFn returned undefined for an input value.'') \<and>
   isCollapsed (states correlated_world 0) \<and>
   \<not> isCollapsed (states (snd (setAmplitude 3 0 (VStr ''B'') (Some (new_Complex 1 0))
                                   correlated_world)) 0)"
proof -
  have np: "\<not> 1 / sqrt 2 < (1::real) / 10 ^ 12" by (rule inv_sqrt2_not_pruned)
  have "setAmplitude 3 0 (VStr ''B'') (Some (new_Complex 1 0)) correlated_world
     = (Throw (Error ''Entanglement relationFn returned undefined for an input value.''),
        put_state 0 (plus_state\<lparr>entanglements := [0]\<rparr>) correlated_world)"
    using np
    by (simp add: setAmplitude_def correlated_world_def blank_world_def classical_A_def
        pruneNearZeroAmplitudes_def AMPLITUDE_PRUNE_EPSILON_def Let_def put_state_def
        normalize_def numeral_3_eq_3 normalize_body_def normalize_this_def totalProbability_def
        Complex_magnitudeSquared_def NORMALIZATION_EPSILON_def Complex_scale_def
        updateCollapsedFlags_def notifyEntanglementUpdates_def updateEntanglement_body_def
        A_to_x_def accumulate_def Complex_add_def Complex_zero_def plus_state_def)
  then have c: "fst (setAmplitude 3 0 (VStr ''B'') (Some (new_Complex 1 0)) correlated_world)
     = Throw (Error ''Entanglement relationFn returned undefined for an input value.'')"
    "\<not> isCollapsed (states (snd (setAmplitude 3 0 (VStr ''B'') (Some (new_Complex 1 0))
                                   correlated_world)) 0)"
    by (simp_all add: put_state_def plus_state_def)
  have z: "fst (setAmplitude 2 0 (VStr ''A'') (Some (new_Complex 0 0)) (put_state 0 classical_A blank_world))
     = Throw (Error ''Quantum state has no non-zero amplitudes after pruning.'')"
    "basis (states (snd (setAmplitude 2 0 (VStr ''A'') (Some (new_Complex 0 0))
                         (put_state 0 classical_A blank_world))) 0) = []"
    unfolding setAmplitude_zero_throws by (simp_all add: put_state_def)
  have i: "basis (states (put_state 0 classical_A blank_world) 0) = [(VStr ''A'', new_Complex 1 0)]"
    "isCollapsed (states correlated_world 0)"
    by (simp_all add: put_state_def classical_A_def correlated_world_def)
  from c z i show ?thesis by (intro conjI)
qed

section \<open>Correlations propagate in one direction\<close>

lemma reach_without:
  assumes "(t, x) \<in> (edges w)\<^sup>*"
  shows "(t, x) \<in> (edges_without e w)\<^sup>* \<or> (t, state1 (ents w e)) \<in> (edges_without e w)\<^sup>*"
  using assms
proof (induction rule: rtrancl_induct)
  case base
  show ?case by simp
next
  case (step y z)
  show ?case
  proof (cases "(t, state1 (ents w e)) \<in> (edges_without e w)\<^sup>*")
    case True
    then show ?thesis by simp
  next
    case False
    with step.IH have ty: "(t, y) \<in> (edges_without e w)\<^sup>*" by simp
    from step.hyps(2) obtain e' where e': "isActive (ents w e')" "state1 (ents w e') = y"
        "state2 (ents w e') = z"
      by (auto simp add: edges_def)
    show ?thesis
    proof (cases "e' = e")
      case True
      with e' ty show ?thesis by simp
    next
      case ne: False
      with e' have "(y, z) \<in> edges_without e w" by (auto simp add: edges_without_def)
      with ty show ?thesis by (simp add: rtrancl.rtrancl_into_rtrancl)
    qed
  qed
qed

lemma source_not_reached_through_own_edge:
  assumes "state1 (ents w e) \<notin> (edges_without e w)\<^sup>* `` {t}"
  shows "state1 (ents w e) \<notin> (edges w)\<^sup>* `` {t}"
  using assms reach_without [of t "state1 (ents w e)" w e] by auto


lemma updateEntanglement_not_source:
  "src \<noteq> state1 (ents w e) \<Longrightarrow> updateEntanglement (Suc n) e (Some src) w = (Return (), w)"
  by (simp add: updateEntanglement_def updateEntanglement_body_def)

lemma onMeasurement_not_source:
  "m \<noteq> state1 (ents w e) \<Longrightarrow> onMeasurement (Suc n) e m v w = (Return (), w)"
  by (simp add: onMeasurement_def onMeasurement_body_def)

lemma target_operations_keep:
  assumes "s \<notin> (edges w)\<^sup>* `` {t}"
  shows "states (snd (normalize n t w)) s = states w s \<and>
         states (snd (setAmplitude n t key amp w)) s = states w s \<and>
         states (snd (stabilize n t w)) s = states w s \<and>
         states (snd (collapseTo n t v meta w)) s = states w s \<and>
         states (snd (measure_qs n t w)) s = states w s"
proof (intro conjI)
  show "states (snd (normalize n t w)) s = states w s"
    using normalize_frame [of n t w "fst (normalize n t w)" "snd (normalize n t w)"] assms
    by (simp add: same_except_def)
  show "states (snd (setAmplitude n t key amp w)) s = states w s"
    using setAmplitude_frame [of n t key amp w "fst (setAmplitude n t key amp w)"
        "snd (setAmplitude n t key amp w)"] assms
    by (simp add: same_except_def)
  show "states (snd (stabilize n t w)) s = states w s"
    using stabilize_frame [of n t w "fst (stabilize n t w)" "snd (stabilize n t w)"] assms
    by (simp add: same_except_def)
  show "states (snd (collapseTo n t v meta w)) s = states w s"
    using collapseTo_frame [of n t v meta w "fst (collapseTo n t v meta w)"
        "snd (collapseTo n t v meta w)"] assms
    by (simp add: same_except_def)
  show "states (snd (measure_qs n t w)) s = states w s"
    using measure_frame [of n t w "fst (measure_qs n t w)" "snd (measure_qs n t w)"] assms
    by simp
qed

text \<open>
  C10. Propagation through a correlation is one-directional. An update notification, or a
  measurement notification, whose originating state is not the correlation's source
  (\<open>state1\<close>) returns at once and changes nothing. Consequently normalizing, mutating
  (\<open>setAmplitude\<close>, \<open>stabilize\<close>) or collapsing (\<open>collapseTo\<close>, \<open>measure\<close>) the target
  of a correlation leaves its source exactly as it was, whether the call returns or raises,
  unless some chain of other active correlations leads from the target back to the source:
  the correlation itself never carries a change to its own source.
\<close>

theorem correlation_one_directional:
  "(\<forall>n e src w. src \<noteq> state1 (ents w e) \<longrightarrow>
       updateEntanglement (Suc n) e (Some src) w = (Return (), w)) \<and>
   (\<forall>n e m v w. m \<noteq> state1 (ents w e) \<longrightarrow>
       onMeasurement (Suc n) e m v w = (Return (), w)) \<and>
   (\<forall>n e w key amp v meta.
       state1 (ents w e) \<notin> (edges_without e w)\<^sup>* `` {state2 (ents w e)} \<longrightarrow>
         states (snd (normalize n (state2 (ents w e)) w)) (state1 (ents w e))
           = states w (state1 (ents w e)) \<and>
         states (snd (setAmplitude n (state2 (ents w e)) key amp w)) (state1 (ents w e))
           = states w (state1 (ents w e)) \<and>
         states (snd (stabilize n (state2 (ents w e)) w)) (state1 (ents w e))
           = states w (state1 (ents w e)) \<and>
         states (snd (collapseTo n (state2 (ents w e)) v meta w)) (state1 (ents w e))
           = states w (state1 (ents w e)) \<and>
         states (snd (measure_qs n (state2 (ents w e)) w)) (state1 (ents w e))
           = states w (state1 (ents w e)))"
proof -
  have A: "\<forall>n e src w. src \<noteq> state1 (ents w e) \<longrightarrow>
       updateEntanglement (Suc n) e (Some src) w = (Return (), w)"
    by (simp add: updateEntanglement_not_source)
  have B: "\<forall>n e m v w. m \<noteq> state1 (ents w e) \<longrightarrow>
       onMeasurement (Suc n) e m v w = (Return (), w)"
    by (simp add: onMeasurement_not_source)
  have C: "\<forall>n e w key amp v meta.
       state1 (ents w e) \<notin> (edges_without e w)\<^sup>* `` {state2 (ents w e)} \<longrightarrow>
         states (snd (normalize n (state2 (ents w e)) w)) (state1 (ents w e))
           = states w (state1 (ents w e)) \<and>
         states (snd (setAmplitude n (state2 (ents w e)) key amp w)) (state1 (ents w e))
           = states w (state1 (ents w e)) \<and>
         states (snd (stabilize n (state2 (ents w e)) w)) (state1 (ents w e))
           = states w (state1 (ents w e)) \<and>
         states (snd (collapseTo n (state2 (ents w e)) v meta w)) (state1 (ents w e))
           = states w (state1 (ents w e)) \<and>
         states (snd (measure_qs n (state2 (ents w e)) w)) (state1 (ents w e))
           = states w (state1 (ents w e))"
  proof (intro allI impI)
    fix n e w key amp v meta
    assume "state1 (ents w e) \<notin> (edges_without e w)\<^sup>* `` {state2 (ents w e)}"
    then have "state1 (ents w e) \<notin> (edges w)\<^sup>* `` {state2 (ents w e)}"
      by (rule source_not_reached_through_own_edge)
    then show "states (snd (normalize n (state2 (ents w e)) w)) (state1 (ents w e))
           = states w (state1 (ents w e)) \<and>
         states (snd (setAmplitude n (state2 (ents w e)) key amp w)) (state1 (ents w e))
           = states w (state1 (ents w e)) \<and>
         states (snd (stabilize n (state2 (ents w e)) w)) (state1 (ents w e))
           = states w (state1 (ents w e)) \<and>
         states (snd (collapseTo n (state2 (ents w e)) v meta w)) (state1 (ents w e))
           = states w (state1 (ents w e)) \<and>
         states (snd (measure_qs n (state2 (ents w e)) w)) (state1 (ents w e))
           = states w (state1 (ents w e))"
      by (rule target_operations_keep)
  qed
  from A B C show ?thesis by (intro conjI)
qed

lemma correlated_world_fields:
  "ents correlated_world 0 = \<lparr>state1 = 0, state2 = 1, relationFn = A_to_x, isActive = True\<rparr>"
  "edges_without 0 correlated_world = {}"
  by (auto simp add: correlated_world_def blank_world_def edges_without_def)

theorem correlation_one_directional_witness:
  "(1::nat) \<noteq> state1 (ents correlated_world 0) \<and>
   updateEntanglement 1 0 (Some 1) correlated_world = (Return (), correlated_world) \<and>
   onMeasurement 1 0 1 (VStr ''x'') correlated_world = (Return (), correlated_world) \<and>
   state1 (ents correlated_world 0) \<notin> (edges_without 0 correlated_world)\<^sup>* `` {state2 (ents correlated_world 0)} \<and>
   states (snd (setAmplitude 3 1 (VStr ''y'') (Some (new_Complex 1 0)) correlated_world)) 0
     = states correlated_world 0 \<and>
   states (snd (collapseTo 3 1 (VStr ''x'') \<lparr>m_reason = None, m_preMeasurementProbs = None\<rparr>
                  correlated_world)) 0
     = states correlated_world 0"
proof -
  have ne: "(1::nat) \<noteq> state1 (ents correlated_world 0)"
    by (simp add: correlated_world_fields)
  have nr: "state1 (ents correlated_world 0)
              \<notin> (edges_without 0 correlated_world)\<^sup>* `` {state2 (ents correlated_world 0)}"
    by (simp add: correlated_world_fields)
  from correlation_one_directional [THEN conjunct1, rule_format, OF ne, of 0]
  have u: "updateEntanglement 1 0 (Some 1) correlated_world = (Return (), correlated_world)"
    by simp
  from correlation_one_directional [THEN conjunct2, THEN conjunct1, rule_format, OF ne, of 0 "VStr ''x''"]
  have m: "onMeasurement 1 0 1 (VStr ''x'') correlated_world = (Return (), correlated_world)"
    by simp
  from correlation_one_directional [THEN conjunct2, THEN conjunct2, rule_format, OF nr,
      of 3 "VStr ''y''" "Some (new_Complex 1 0)" "VStr ''x''"
         "\<lparr>m_reason = None, m_preMeasurementProbs = None\<rparr>"]
  have k: "states (snd (setAmplitude 3 1 (VStr ''y'') (Some (new_Complex 1 0)) correlated_world)) 0
     = states correlated_world 0"
    "states (snd (collapseTo 3 1 (VStr ''x'') \<lparr>m_reason = None, m_preMeasurementProbs = None\<rparr>
                  correlated_world)) 0
     = states correlated_world 0"
    by (simp_all add: correlated_world_fields)
  from ne u m nr k show ?thesis by (intro conjI)
qed

section \<open>Measurement is idempotent\<close>

lemma not_on_cycle:
  assumes "(this, this) \<notin> (edges w)\<^sup>+"
  shows "this \<notin> (edges w)\<^sup>* `` (edges w `` {this})"
proof
  assume "this \<in> (edges w)\<^sup>* `` (edges w `` {this})"
  then obtain x where "(this, x) \<in> edges w" "(x, this) \<in> (edges w)\<^sup>*" by auto
  then have "(this, this) \<in> (edges w)\<^sup>+" by (rule rtrancl_into_trancl2)
  with assms show False by simp
qed

lemma collapseTo_keeps_collapsed:
  assumes acyc: "(this, this) \<notin> (edges w)\<^sup>+"
    and c: "collapseTo n this v meta w = (Return u, w')"
  shows "isCollapsed (states w' this) \<and> collapsedValue (states w' this) = v \<and>
         basis (states w' this) = [(v, new_Complex 1 0)]"
proof (cases n)
  case 0
  with c show ?thesis by (simp add: collapseTo_def)
next
  case (Suc k)
  with c have b: "collapseTo_body (exec k) this v meta w = (Return u, w')"
    by (simp add: collapseTo_def)
  then have has: "Map_has (basis (states w this)) v"
    by (auto simp add: collapseTo_body_def split: if_splits)
  with b obtain s' where n: "notifyEntangledStates (exec k) this v (put_state this s' w) = (Return u, w')"
    and s': "isCollapsed s'" "collapsedValue s' = v" "basis s' = [(v, new_Complex 1 0)]"
    by (simp add: collapseTo_body_def Let_def)
  have ed: "edges (put_state this s' w) = edges w" by (simp add: edges_def put_state_def)
  from notifyEntangledStates_frame_succ [OF frame_ok_exec n] not_on_cycle [OF acyc]
  have "states w' this = states (put_state this s' w) this"
    unfolding ed by (simp add: same_except_def)
  with s' show ?thesis by (simp add: put_state_def)
qed

lemma for_each_keeps:
  assumes "\<And>x w r w'. f x w = (r, w') \<Longrightarrow> Q w \<Longrightarrow> Q w'"
    and "for_each f xs w = (r, w')" and "Q w"
  shows "Q w'"
  using assms(2,3)
proof (induction xs arbitrary: w)
  case Nil
  then show ?case by simp
next
  case (Cons x xs)
  obtain r1 w1 where f: "f x w = (r1, w1)" by (cases "f x w")
  from assms(1) [OF f Cons.prems(2)] have q: "Q w1" .
  show ?case
  proof (cases r1)
    case (Throw e)
    with f Cons.prems(1) have "w' = w1" by simp
    with q show ?thesis by simp
  next
    case (Return u)
    with f Cons.prems(1) have "for_each f xs w1 = (r, w')" by simp
    from Cons.IH [OF this q] show ?thesis .
  qed
qed

lemma keeps_collapsedD:
  "keeps_collapsed rec \<Longrightarrow> collapsing c \<Longrightarrow> rec c w = (r, w') \<Longrightarrow> isCollapsed (states w t)
     \<Longrightarrow> isCollapsed (states w' t)"
  unfolding keeps_collapsed_def by blast

lemma notifyEntangledStates_keeps:
  assumes k: "keeps_collapsed rec"
    and n: "notifyEntangledStates rec this v w = (r, w')"
    and c: "isCollapsed (states w t)"
  shows "isCollapsed (states w' t)"
proof (rule for_each_keeps [where Q = "\<lambda>w. isCollapsed (states w t)"
      and f = "\<lambda>entanglement. rec (OnMeasurement entanglement this v)"])
  fix x w0 r0 w1
  assume "rec (OnMeasurement x this v) w0 = (r0, w1)" "isCollapsed (states w0 t)"
  with keeps_collapsedD [OF k, of "OnMeasurement x this v" w0 r0 w1 t]
  show "isCollapsed (states w1 t)" by simp
next
  from n show "for_each (\<lambda>entanglement. rec (OnMeasurement entanglement this v))
                 (entanglements (states w this)) w = (r, w')"
    by (simp add: notifyEntangledStates_def)
next
  from c show "isCollapsed (states w t)" .
qed

lemma collapseTo_body_keeps:
  assumes k: "keeps_collapsed rec"
    and b: "collapseTo_body rec this v meta w = (r, w')"
    and c: "isCollapsed (states w t)"
  shows "isCollapsed (states w' t)"
proof (cases "Map_has (basis (states w this)) v")
  case False
  with b c show ?thesis by (simp add: collapseTo_body_def)
next
  case True
  with b obtain s' where n: "notifyEntangledStates rec this v (put_state this s' w) = (r, w')"
    and s': "isCollapsed s'"
    by (simp add: collapseTo_body_def Let_def)
  from c s' have "isCollapsed (states (put_state this s' w) t)" by (simp add: put_state_def)
  from notifyEntangledStates_keeps [OF k n this] show ?thesis .
qed

lemma collapseState2_body_keeps:
  assumes k: "keeps_collapsed rec"
    and b: "collapseState2_body rec e v w = (r, w')"
    and c: "isCollapsed (states w t)"
  shows "isCollapsed (states w' t)"
proof (cases "Map_has (basis (states w (state2 (ents w e)))) v")
  case True
  with b have "rec (CollapseTo (state2 (ents w e)) v
        \<lparr>m_reason = Some ''entanglement-collapse'', m_preMeasurementProbs = None\<rparr>) w = (r, w')"
    by (simp add: collapseState2_body_def Let_def)
  from keeps_collapsedD [OF k _ this c] show ?thesis by simp
next
  case False
  with b c show ?thesis by (auto simp add: collapseState2_body_def Let_def put_state_def)
qed

lemma onMeasurement_body_keeps:
  assumes k: "keeps_collapsed rec"
    and b: "onMeasurement_body rec e m v w = (r, w')"
    and c: "isCollapsed (states w t)"
  shows "isCollapsed (states w' t)"
proof (cases "isActive (ents w e) \<and> m = state1 (ents w e) \<and> relationFn (ents w e) v \<noteq> VUndefined")
  case True
  with b have "rec (CollapseState2 e (relationFn (ents w e) v)) w = (r, w')"
    by (simp add: onMeasurement_body_def Let_def)
  from keeps_collapsedD [OF k _ this c] show ?thesis by simp
next
  case False
  with b have "w' = w" by (auto simp add: onMeasurement_body_def Let_def split: if_splits)
  with c show ?thesis by simp
qed

lemma keeps_collapsed_step: "keeps_collapsed rec \<Longrightarrow> keeps_collapsed (step rec)"
  unfolding keeps_collapsed_def [of "step rec"]
proof (intro allI impI)
  fix c w r w' t
  assume k: "keeps_collapsed rec" and col: "collapsing c" and s: "step rec c w = (r, w')"
    and c: "isCollapsed (states w t)"
  show "isCollapsed (states w' t)"
  proof (cases c)
    case (Normalize x)
    with col show ?thesis by simp
  next
    case (UpdateEntanglement e src)
    with col show ?thesis by simp
  next
    case (OnMeasurement e m v)
    with s onMeasurement_body_keeps [OF k _ c] show ?thesis by simp
  next
    case (CollapseState2 e v)
    with s collapseState2_body_keeps [OF k _ c] show ?thesis by simp
  next
    case (CollapseTo this v meta)
    with s collapseTo_body_keeps [OF k _ c] show ?thesis by simp
  qed
qed

lemma keeps_collapsed_exec: "keeps_collapsed (exec n)"
proof (induction n)
  case 0
  show ?case by (simp add: keeps_collapsed_def)
next
  case (Suc n)
  then show ?case by (simp add: keeps_collapsed_step)
qed

lemma collapseTo_collapsed:
  assumes c: "collapseTo n this v meta w = (Return u, w')"
  shows "isCollapsed (states w' this)"
proof (cases n)
  case 0
  with c show ?thesis by (simp add: collapseTo_def)
next
  case (Suc k)
  with c have b: "collapseTo_body (exec k) this v meta w = (Return u, w')"
    by (simp add: collapseTo_def)
  then have has: "Map_has (basis (states w this)) v"
    by (auto simp add: collapseTo_body_def split: if_splits)
  with b obtain s' where n: "notifyEntangledStates (exec k) this v (put_state this s' w) = (Return u, w')"
    and s': "isCollapsed s'"
    by (simp add: collapseTo_body_def Let_def)
  have "isCollapsed (states (put_state this s' w) this)" using s' by (simp add: put_state_def)
  from notifyEntangledStates_keeps [OF keeps_collapsed_exec n this] show ?thesis .
qed

text \<open>
  C2, as amended. Whenever a first \<open>measure()\<close> returns, the object is collapsed, so a
  second call, with any call-stack depth, returns the stored \<open>collapsedValue\<close> and leaves
  the whole heap as the first call left it: the history gains no record and the count of
  \<open>Math.random\<close> calls does not move, so nothing is resampled. The first call draws at
  most one sample. The second call returns the outcome of the first when the measured
  object does not lie on a cycle of active correlations: propagation writes only along
  active correlations, so only such a cycle can write to the measured object again while
  its own collapse propagates.
\<close>

theorem measure_idempotent:
  assumes first: "measure_qs n this w = (Return v, w1)"
  shows "measure_qs m this w1 = (Return (collapsedValue (states w1 this)), w1) \<and>
         random_calls w1 \<le> random_calls w + 1 \<and>
         ((this, this) \<notin> (edges w)\<^sup>+ \<longrightarrow> measure_qs m this w1 = (Return v, w1))"
proof (cases "isCollapsed (states w this)")
  case True
  with first have "w1 = w" "v = collapsedValue (states w this)"
    by (auto simp add: measure_qs_def)
  with True show ?thesis by (simp add: measure_qs_def)
next
  case False
  let ?w0 = "w\<lparr>random_calls := random_calls w + 1\<rparr>"
  from False first obtain meta u where c: "collapseTo n this v meta ?w0 = (Return u, w1)"
    by (auto simp add: measure_qs_def Let_def split: prod.splits outcome.splits)
  have ed: "edges ?w0 = edges w" by (simp add: edges_def)
  from collapseTo_collapsed [OF c] have col: "isCollapsed (states w1 this)" .
  then have stored: "measure_qs m this w1 = (Return (collapsedValue (states w1 this)), w1)"
    by (simp add: measure_qs_def)
  from collapseTo_frame [OF c] have calls: "random_calls w1 = random_calls w + 1"
    by (simp add: same_except_def)
  have "measure_qs m this w1 = (Return v, w1)" if acyc: "(this, this) \<notin> (edges w)\<^sup>+"
  proof -
    from acyc have "(this, this) \<notin> (edges ?w0)\<^sup>+" unfolding ed .
    from collapseTo_keeps_collapsed [OF this c]
    have "collapsedValue (states w1 this) = v" by simp
    with stored show ?thesis by simp
  qed
  with stored calls show ?thesis by simp
qed

theorem measure_idempotent_witness:
  "(0, 0) \<notin> (edges fair_coin_world)\<^sup>+ \<and>
   \<not> isCollapsed (states fair_coin_world 0) \<and>
   fst (measure_qs 1 0 fair_coin_world) = Return (VStr ''A'') \<and>
   measure_qs 1 0 (snd (measure_qs 1 0 fair_coin_world))
     = (Return (VStr ''A''), snd (measure_qs 1 0 fair_coin_world)) \<and>
   collapsedValue (states (snd (measure_qs 1 0 fair_coin_world)) 0) = VStr ''A'' \<and>
   random_calls (snd (measure_qs 1 0 fair_coin_world)) = 1"
proof -
  have a: "(0, 0) \<notin> (edges fair_coin_world)\<^sup>+" by (simp add: fair_coin_edges)
  have n: "\<not> isCollapsed (states fair_coin_world 0)"
    by (simp add: fair_coin_world_def put_state_def plus_state_def)
  have f: "measure_qs 1 0 fair_coin_world = (Return (VStr ''A''), snd (measure_qs 1 0 fair_coin_world))"
    unfolding fair_coin_first by simp
  have r: "random_calls (snd (measure_qs 1 0 fair_coin_world)) = 1"
    unfolding fair_coin_first by (simp add: put_state_def)
  have f1: "fst (measure_qs 1 0 fair_coin_world) = Return (VStr ''A'')"
    unfolding fair_coin_first by simp
  note idem = measure_idempotent [OF f, of 1]
  from idem a have s: "measure_qs 1 0 (snd (measure_qs 1 0 fair_coin_world))
     = (Return (VStr ''A''), snd (measure_qs 1 0 fair_coin_world))"
    by blast
  from idem s have c: "collapsedValue (states (snd (measure_qs 1 0 fair_coin_world)) 0) = VStr ''A''"
    by simp
  from a n f1 s c r show ?thesis by (intro conjI)
qed

subsection \<open>A ring of three correlations\<close>

text \<open>
  The three constructor calls return, and leave \<open>s2\<close> (reference 2) in an even
  superposition of \<open>p\<close> and \<open>q\<close>, \<open>s0\<close> collapsed to \<open>k\<close> and \<open>s1\<close> collapsed to \<open>z\<close>
  by injection. Measuring \<open>s2\<close> with the sample 0 picks \<open>p\<close>; the collapse propagates
  through \<open>b\<close> to \<open>s0\<close>, through \<open>c\<close> to \<open>s1\<close> and through \<open>a\<close> back to \<open>s2\<close>, whose basis
  by then holds only \<open>p\<close>, so \<open>_collapseState2\<close> injects \<open>q\<close> there. Nine nested calls
  are made.
\<close>

lemmas ring_defs = new_Entanglement_def Set_add_def put_state_def updateEntanglement_body_def
  normalize_body_def notifyEntanglementUpdates_def notifyEntangledStates_def
  collapseState2_body_def collapseTo_body_def onMeasurement_body_def Map_has_def

lemma sqrt2_small: "\<not> 1000000000000 < sqrt 2"
  using sqrt2_bounds(2) by linarith

lemma ring_a_built:
  "new_Entanglement 3 1 2 to_pq ring_start =
     (Return 0,
      blank_world\<lparr>states := (\<lambda>r. blank_state)
         (0 := classical_A,
          1 := plus_state\<lparr>entanglements := [0]\<rparr>,
          2 := \<lparr>basis = [(VStr ''p'', new_Complex (1 / sqrt 2) 0), (VStr ''q'', new_Complex (1 / sqrt 2) 0)],
                entanglements = [0], measurementHistory = [], isCollapsed = False,
                collapsedValue = VUndefined\<rparr>),
        ents := (ents blank_world)(0 := \<lparr>state1 = 1, state2 = 2, relationFn = to_pq, isActive = True\<rparr>),
        next_ref := 1\<rparr>)"
  by (simp add: ring_start_def blank_world_def classical_A_def plus_state_def ring_defs
     eval_nat_numeral ctor_defs to_pq_def sqrt2_small)

lemma ring_a_eq:
  "ring_a =
      blank_world\<lparr>states := (\<lambda>r. blank_state)
         (0 := classical_A,
          1 := plus_state\<lparr>entanglements := [0]\<rparr>,
          2 := \<lparr>basis = [(VStr ''p'', new_Complex (1 / sqrt 2) 0), (VStr ''q'', new_Complex (1 / sqrt 2) 0)],
                entanglements = [0], measurementHistory = [], isCollapsed = False,
                collapsedValue = VUndefined\<rparr>),
        ents := (ents blank_world)(0 := \<lparr>state1 = 1, state2 = 2, relationFn = to_pq, isActive = True\<rparr>),
        next_ref := 1\<rparr>"
  unfolding ring_a_def ring_a_built by simp

lemma ring_b_built:
  "new_Entanglement 3 2 0 to_k ring_a =
     (Return 1,
      blank_world\<lparr>states := (\<lambda>r. blank_state)
         (1 := plus_state\<lparr>entanglements := [0]\<rparr>,
          2 := \<lparr>basis = [(VStr ''p'', new_Complex (1 / sqrt 2) 0), (VStr ''q'', new_Complex (1 / sqrt 2) 0)],
                entanglements = [0, 1], measurementHistory = [], isCollapsed = False,
                collapsedValue = VUndefined\<rparr>,
          0 := \<lparr>basis = [(VStr ''k'', new_Complex 1 0)], entanglements = [1],
                measurementHistory = [], isCollapsed = True, collapsedValue = VStr ''k''\<rparr>),
        ents := (ents blank_world)
         (0 := \<lparr>state1 = 1, state2 = 2, relationFn = to_pq, isActive = True\<rparr>,
          1 := \<lparr>state1 = 2, state2 = 0, relationFn = to_k, isActive = True\<rparr>),
        next_ref := 2\<rparr>)"
  unfolding ring_a_eq
  by (simp add: blank_world_def classical_A_def plus_state_def ring_defs
     eval_nat_numeral ctor_defs to_k_def sqrt2_small)

lemma ring_b_eq:
  "ring_b =
      blank_world\<lparr>states := (\<lambda>r. blank_state)
         (1 := plus_state\<lparr>entanglements := [0]\<rparr>,
          2 := \<lparr>basis = [(VStr ''p'', new_Complex (1 / sqrt 2) 0), (VStr ''q'', new_Complex (1 / sqrt 2) 0)],
                entanglements = [0, 1], measurementHistory = [], isCollapsed = False,
                collapsedValue = VUndefined\<rparr>,
          0 := \<lparr>basis = [(VStr ''k'', new_Complex 1 0)], entanglements = [1],
                measurementHistory = [], isCollapsed = True, collapsedValue = VStr ''k''\<rparr>),
        ents := (ents blank_world)
         (0 := \<lparr>state1 = 1, state2 = 2, relationFn = to_pq, isActive = True\<rparr>,
          1 := \<lparr>state1 = 2, state2 = 0, relationFn = to_k, isActive = True\<rparr>),
        next_ref := 2\<rparr>"
  unfolding ring_b_def ring_b_built by simp

lemma ring_c_built:
  "new_Entanglement 3 0 1 to_z ring_b =
     (Return 2,
      blank_world\<lparr>states := (\<lambda>r. blank_state)
         (2 := \<lparr>basis = [(VStr ''p'', new_Complex (1 / sqrt 2) 0), (VStr ''q'', new_Complex (1 / sqrt 2) 0)],
                entanglements = [0, 1], measurementHistory = [], isCollapsed = False,
                collapsedValue = VUndefined\<rparr>,
          0 := \<lparr>basis = [(VStr ''k'', new_Complex 1 0)], entanglements = [1, 2],
                measurementHistory = [], isCollapsed = True, collapsedValue = VStr ''k''\<rparr>,
          1 := \<lparr>basis = [(VStr ''z'', new_Complex 1 0)], entanglements = [0, 2],
                measurementHistory =
                  [\<lparr>timestamp = 0, result = VStr ''z'', reason = ''entanglement-collapse'',
                    preMeasurementProbs = []\<rparr>],
                isCollapsed = True, collapsedValue = VStr ''z''\<rparr>),
        ents := (ents blank_world)
         (0 := \<lparr>state1 = 1, state2 = 2, relationFn = to_pq, isActive = True\<rparr>,
          1 := \<lparr>state1 = 2, state2 = 0, relationFn = to_k, isActive = True\<rparr>,
          2 := \<lparr>state1 = 0, state2 = 1, relationFn = to_z, isActive = True\<rparr>),
        next_ref := 3\<rparr>)"
  unfolding ring_b_eq
  by (simp add: blank_world_def classical_A_def plus_state_def ring_defs
     eval_nat_numeral ctor_defs to_z_def sqrt2_small)

lemma ring_world_eq:
  "ring_world =
      blank_world\<lparr>states := (\<lambda>r. blank_state)
         (2 := \<lparr>basis = [(VStr ''p'', new_Complex (1 / sqrt 2) 0), (VStr ''q'', new_Complex (1 / sqrt 2) 0)],
                entanglements = [0, 1], measurementHistory = [], isCollapsed = False,
                collapsedValue = VUndefined\<rparr>,
          0 := \<lparr>basis = [(VStr ''k'', new_Complex 1 0)], entanglements = [1, 2],
                measurementHistory = [], isCollapsed = True, collapsedValue = VStr ''k''\<rparr>,
          1 := \<lparr>basis = [(VStr ''z'', new_Complex 1 0)], entanglements = [0, 2],
                measurementHistory =
                  [\<lparr>timestamp = 0, result = VStr ''z'', reason = ''entanglement-collapse'',
                    preMeasurementProbs = []\<rparr>],
                isCollapsed = True, collapsedValue = VStr ''z''\<rparr>),
        ents := (ents blank_world)
         (0 := \<lparr>state1 = 1, state2 = 2, relationFn = to_pq, isActive = True\<rparr>,
          1 := \<lparr>state1 = 2, state2 = 0, relationFn = to_k, isActive = True\<rparr>,
          2 := \<lparr>state1 = 0, state2 = 1, relationFn = to_z, isActive = True\<rparr>),
        next_ref := 3\<rparr>"
  unfolding ring_world_def ring_c_built by simp

lemma ring_first:
  "measure_qs 9 2 ring_world =
     (Return (VStr ''p''),
      blank_world\<lparr>states := (\<lambda>r. blank_state)
         (0 := \<lparr>basis = [(VStr ''k'', new_Complex 1 0)], entanglements = [1, 2],
                measurementHistory =
                  [\<lparr>timestamp = 0, result = VStr ''k'', reason = ''entanglement-collapse'',
                    preMeasurementProbs = [(VStr ''k'', 1)]\<rparr>],
                isCollapsed = True, collapsedValue = VStr ''k''\<rparr>,
          1 := \<lparr>basis = [(VStr ''z'', new_Complex 1 0)], entanglements = [0, 2],
                measurementHistory =
                  [\<lparr>timestamp = 0, result = VStr ''z'', reason = ''entanglement-collapse'',
                    preMeasurementProbs = []\<rparr>,
                   \<lparr>timestamp = 0, result = VStr ''z'', reason = ''entanglement-collapse'',
                    preMeasurementProbs = [(VStr ''z'', 1)]\<rparr>],
                isCollapsed = True, collapsedValue = VStr ''z''\<rparr>,
          2 := \<lparr>basis = [(VStr ''q'', new_Complex 1 0)], entanglements = [0, 1],
                measurementHistory =
                  [\<lparr>timestamp = 0, result = VStr ''p'', reason = ''measurement'',
                    preMeasurementProbs = [(VStr ''p'', 1 / 2), (VStr ''q'', 1 / 2)]\<rparr>,
                   \<lparr>timestamp = 0, result = VStr ''q'', reason = ''entanglement-collapse'',
                    preMeasurementProbs = []\<rparr>],
                isCollapsed = True, collapsedValue = VStr ''q''\<rparr>),
        ents := (ents blank_world)
         (0 := \<lparr>state1 = 1, state2 = 2, relationFn = to_pq, isActive = True\<rparr>,
          1 := \<lparr>state1 = 2, state2 = 0, relationFn = to_k, isActive = True\<rparr>,
          2 := \<lparr>state1 = 0, state2 = 1, relationFn = to_z, isActive = True\<rparr>),
        next_ref := 3, random_calls := 1\<rparr>)"
  unfolding ring_world_eq
  by (simp add: blank_world_def measure_qs_def collapseTo_def getProbabilities_def
     Complex_magnitudeSquared_def ring_defs Let_def
     eval_nat_numeral to_z_def to_k_def to_pq_def)

lemma ring_on_cycle: "(2, 2) \<in> (edges ring_world)\<^sup>+"
proof -
  have b: "isActive (ents ring_world 1) \<and> state1 (ents ring_world 1) = 2 \<and> state2 (ents ring_world 1) = 0"
    unfolding ring_world_eq by (simp add: blank_world_def)
  have c: "isActive (ents ring_world 2) \<and> state1 (ents ring_world 2) = 0 \<and> state2 (ents ring_world 2) = 1"
    unfolding ring_world_eq by (simp add: blank_world_def)
  have a: "isActive (ents ring_world 0) \<and> state1 (ents ring_world 0) = 1 \<and> state2 (ents ring_world 0) = 2"
    unfolding ring_world_eq by (simp add: blank_world_def)
  from b have "(2, 0) \<in> edges ring_world" unfolding edges_def by blast
  then have "(2, 0) \<in> (edges ring_world)\<^sup>+" by (rule r_into_trancl)
  moreover from c have "(0, 1) \<in> edges ring_world" unfolding edges_def by blast
  ultimately have "(2, 1) \<in> (edges ring_world)\<^sup>+" by (rule trancl_into_trancl)
  moreover from a have "(1, 2) \<in> edges ring_world" unfolding edges_def by blast
  ultimately show ?thesis by (rule trancl_into_trancl)
qed

text \<open>
  C2 as stated fails on an object that lies on a cycle of correlations. In the ring built
  above by the constructors, the first \<open>measure()\<close> of \<open>s2\<close> returns \<open>p\<close> and the second
  returns \<open>q\<close>: while the first call propagates its collapse round the ring, the last
  correlation overwrites the object just measured. Nothing in the code detects a cycle.
\<close>

theorem measure_twice_differs_on_ring:
  "new_QuantumState [(VStr ''A'', new_Complex 1 0)] = Return classical_A \<and>
   new_QuantumState [(VStr ''A'', new_Complex 1 0), (VStr ''B'', new_Complex 1 0)] = Return plus_state \<and>
   fst (new_Entanglement 3 1 2 to_pq ring_start) = Return 0 \<and>
   fst (new_Entanglement 3 2 0 to_k ring_a) = Return 1 \<and>
   fst (new_Entanglement 3 0 1 to_z ring_b) = Return 2 \<and>
   fst (measure_qs 9 2 ring_world) = Return (VStr ''p'') \<and>
   fst (measure_qs 9 2 (snd (measure_qs 9 2 ring_world))) = Return (VStr ''q'')"
proof -
  have c: "new_QuantumState [(VStr ''A'', new_Complex 1 0)] = Return classical_A"
    by (simp add: ctor_defs classical_A_def)
  have a: "fst (new_Entanglement 3 1 2 to_pq ring_start) = Return 0"
    unfolding ring_a_built by simp
  have b: "fst (new_Entanglement 3 2 0 to_k ring_a) = Return 1"
    unfolding ring_b_built by simp
  have z: "fst (new_Entanglement 3 0 1 to_z ring_b) = Return 2"
    unfolding ring_c_built by simp
  have m1: "fst (measure_qs 9 2 ring_world) = Return (VStr ''p'')"
    unfolding ring_first by simp
  have m2: "fst (measure_qs 9 2 (snd (measure_qs 9 2 ring_world))) = Return (VStr ''q'')"
    unfolding ring_first by (simp add: measure_qs_def)
  from c new_plus_state a b z m1 m2 show ?thesis by (intro conjI)
qed

section \<open>Randomness and measurement\<close>

lemma exec_random:
  "random_calls (snd (exec n c w)) = random_calls w \<and> Math_random (snd (exec n c w)) = Math_random w"
  using exec_frame [of n c w "fst (exec n c w)" "snd (exec n c w)"]
  by (simp add: same_except_def)

lemma snd_rethrow:
  "snd (case p of (Throw e, w') \<Rightarrow> (Throw e, w') | (Return u, w') \<Rightarrow> (Return x, w')) = snd p"
  by (auto split: prod.splits outcome.splits)

lemma fst_rethrow:
  "fst (case p of (Throw e, w') \<Rightarrow> (Throw e, w') | (Return u, w') \<Rightarrow> (Return x, w'))
     = (case fst p of Throw e \<Rightarrow> Throw e | Return u \<Rightarrow> Return x)"
  by (auto split: prod.splits outcome.splits)

lemma measure_qs_unfold:
  assumes "\<not> isCollapsed (states w this)"
  shows "measure_qs n this w =
     (case collapseTo n this (measured_value (Math_random w (random_calls w)) (states w this))
              \<lparr>m_reason = Some ''measurement'',
                m_preMeasurementProbs = Some (getProbabilities (states w this))\<rparr>
              (w\<lparr>random_calls := random_calls w + 1\<rparr>) of
        (Throw e, w2) \<Rightarrow> (Throw e, w2)
      | (Return u, w2) \<Rightarrow>
          (Return (measured_value (Math_random w (random_calls w)) (states w this)), w2))"
  using assms
  by (simp add: measure_qs_def measured_value_def Let_def split: prod.splits outcome.splits)

lemma measure_random:
  "random_calls (snd (measure_qs n this w))
     = (if isCollapsed (states w this) then random_calls w else random_calls w + 1) \<and>
   Math_random (snd (measure_qs n this w)) = Math_random w"
proof (cases "isCollapsed (states w this)")
  case True
  then show ?thesis by (simp add: measure_qs_def)
next
  case False
  show ?thesis
    unfolding measure_qs_unfold [OF False] snd_rethrow collapseTo_def
    using False by (simp add: exec_random)
qed

lemma setAmplitude_random:
  "random_calls (snd (setAmplitude n this value a w)) = random_calls w \<and>
   Math_random (snd (setAmplitude n this value a w)) = Math_random w"
  using setAmplitude_frame [of n this "value" a w "fst (setAmplitude n this value a w)"
      "snd (setAmplitude n this value a w)"]
  by (simp add: same_except_def)

lemma stabilize_random:
  "random_calls (snd (stabilize n this w)) = random_calls w \<and>
   Math_random (snd (stabilize n this w)) = Math_random w"
  using stabilize_frame [of n this w "fst (stabilize n this w)" "snd (stabilize n this w)"]
  by (simp add: same_except_def)

lemma new_Entanglement_random:
  "random_calls (snd (new_Entanglement n s1 s2 f w)) = random_calls w \<and>
   Math_random (snd (new_Entanglement n s1 s2 f w)) = Math_random w"
proof (cases "s1 = s2")
  case True
  then show ?thesis by (simp add: new_Entanglement_def)
next
  case False
  show ?thesis
    using False unfolding new_Entanglement_def Let_def
    by (simp add: snd_rethrow exec_random put_state_def)
qed

lemma measure_reseed:
  assumes "g k = Math_random w (random_calls w)"
  shows "fst (measure_qs n this (reseed g k w)) = fst (measure_qs n this w) \<and>
         states (snd (measure_qs n this (reseed g k w))) = states (snd (measure_qs n this w)) \<and>
         ents (snd (measure_qs n this (reseed g k w))) = ents (snd (measure_qs n this w))"
proof (cases "isCollapsed (states w this)")
  case True
  then show ?thesis by (simp add: measure_qs_def)
next
  case False
  let ?w0 = "w\<lparr>random_calls := random_calls w + 1\<rparr>"
  let ?mv = "measured_value (Math_random w (random_calls w)) (states w this)"
  let ?meta = "\<lparr>m_reason = Some ''measurement'',
                m_preMeasurementProbs = Some (getProbabilities (states w this))\<rparr>"
  have W: "(reseed g k w)\<lparr>random_calls := random_calls (reseed g k w) + 1\<rparr>
             = reseed g (Suc k) ?w0"
    by (simp add: reseed_def)
  have F: "\<not> isCollapsed (states (reseed g k w) this)" using False by simp
  have L: "measure_qs n this (reseed g k w) =
     (case apsnd (reseed g (Suc k)) (collapseTo n this ?mv ?meta ?w0) of
        (Throw e, w2) \<Rightarrow> (Throw e, w2)
      | (Return u, w2) \<Rightarrow> (Return ?mv, w2))"
    unfolding measure_qs_unfold [OF F] W collapseTo_def exec_reseed
    using assms by (simp split: prod.splits outcome.splits)
  obtain r1 w1 where c: "collapseTo n this ?mv ?meta ?w0 = (r1, w1)"
    by (cases "collapseTo n this ?mv ?meta ?w0")
  show ?thesis
    unfolding L measure_qs_unfold [OF False] c
    by (cases r1) simp_all
qed


lemma dispose_random: "random_calls (dispose e w) = random_calls w"
  by (simp add: dispose_def Let_def put_state_def)

text \<open>
  C8, as amended. \<open>measure()\<close> on an uncollapsed state calls \<open>Math.random\<close> exactly once,
  whether it then returns or raises, and on a collapsed state not at all. No other
  operation calls it: \<open>normalize\<close>, \<open>collapseTo\<close>, \<open>setAmplitude\<close>, \<open>stabilize\<close>, the
  constructor and methods of \<open>Entanglement\<close> leave the generator where it was (the
  constructor of \<open>QuantumState\<close>, the gates, \<open>interfere\<close> and the combinators do not even
  take the heap). The sample comes from the process-wide generator. With that one sample
  fixed, the outcome of \<open>measure()\<close>, the states and the correlations it leaves are
  determined by the heap: they do not depend on the rest of the generator.
\<close>

theorem measurement_randomness:
  "(\<forall>n this w.
      random_calls (snd (measure_qs n this w))
        = (if isCollapsed (states w this) then random_calls w else random_calls w + 1) \<and>
      Math_random (snd (measure_qs n this w)) = Math_random w) \<and>
   (\<forall>n this w v meta e src m key a s1 s2 f.
      random_calls (snd (normalize n this w)) = random_calls w \<and>
      random_calls (snd (collapseTo n this v meta w)) = random_calls w \<and>
      random_calls (snd (setAmplitude n this key a w)) = random_calls w \<and>
      random_calls (snd (stabilize n this w)) = random_calls w \<and>
      random_calls (snd (updateEntanglement n e src w)) = random_calls w \<and>
      random_calls (snd (onMeasurement n e m v w)) = random_calls w \<and>
      random_calls (snd (new_Entanglement n s1 s2 f w)) = random_calls w \<and>
      random_calls (dispose e w) = random_calls w) \<and>
   (\<forall>n this w g k.
      g k = Math_random w (random_calls w) \<longrightarrow>
        fst (measure_qs n this (reseed g k w)) = fst (measure_qs n this w) \<and>
        states (snd (measure_qs n this (reseed g k w))) = states (snd (measure_qs n this w)) \<and>
        ents (snd (measure_qs n this (reseed g k w))) = ents (snd (measure_qs n this w)))"
proof -
  have A: "\<forall>n this w.
      random_calls (snd (measure_qs n this w))
        = (if isCollapsed (states w this) then random_calls w else random_calls w + 1) \<and>
      Math_random (snd (measure_qs n this w)) = Math_random w"
    using measure_random by blast
  have B: "\<forall>n this w v meta e src m key a s1 s2 f.
      random_calls (snd (normalize n this w)) = random_calls w \<and>
      random_calls (snd (collapseTo n this v meta w)) = random_calls w \<and>
      random_calls (snd (setAmplitude n this key a w)) = random_calls w \<and>
      random_calls (snd (stabilize n this w)) = random_calls w \<and>
      random_calls (snd (updateEntanglement n e src w)) = random_calls w \<and>
      random_calls (snd (onMeasurement n e m v w)) = random_calls w \<and>
      random_calls (snd (new_Entanglement n s1 s2 f w)) = random_calls w \<and>
      random_calls (dispose e w) = random_calls w"
    by (simp add: normalize_def collapseTo_def updateEntanglement_def onMeasurement_def
        exec_random setAmplitude_random stabilize_random new_Entanglement_random dispose_random)
  have C: "\<forall>n this w g k.
      g k = Math_random w (random_calls w) \<longrightarrow>
        fst (measure_qs n this (reseed g k w)) = fst (measure_qs n this w) \<and>
        states (snd (measure_qs n this (reseed g k w))) = states (snd (measure_qs n this w)) \<and>
        ents (snd (measure_qs n this (reseed g k w))) = ents (snd (measure_qs n this w))"
    using measure_reseed by blast
  from A B C show ?thesis by (intro conjI)
qed

theorem measurement_randomness_witness:
  "seeded 7 = Math_random fair_coin_world (random_calls fair_coin_world) \<and>
   \<not> isCollapsed (states fair_coin_world 0) \<and>
   fst (measure_qs 1 0 (reseed seeded 7 fair_coin_world)) = Return (VStr ''A'') \<and>
   random_calls (snd (measure_qs 1 0 fair_coin_world)) = 1"
proof -
  have h: "seeded 7 = Math_random fair_coin_world (random_calls fair_coin_world)"
    by (simp add: fair_coin_world_def put_state_def blank_world_def seeded_def)
  have n: "\<not> isCollapsed (states fair_coin_world 0)"
    by (simp add: fair_coin_world_def put_state_def plus_state_def)
  have f1: "fst (measure_qs 1 0 fair_coin_world) = Return (VStr ''A'')"
    unfolding fair_coin_first by simp
  from measurement_randomness [THEN conjunct2, THEN conjunct2, rule_format,
      where g = seeded and k = 7 and w = fair_coin_world and n = 1 and this = 0, OF h] f1
  have a: "fst (measure_qs 1 0 (reseed seeded 7 fair_coin_world)) = Return (VStr ''A'')"
    by simp
  from measurement_randomness [THEN conjunct1, rule_format, of 1 0 fair_coin_world] n
  have r: "random_calls (snd (measure_qs 1 0 fair_coin_world)) = 1"
    by (simp add: fair_coin_world_def put_state_def blank_world_def)
  from h n a r show ?thesis by (intro conjI)
qed

text \<open>
  C8 as stated fails: no generator is injected. \<open>measure\<close> takes its sample from the
  process-wide \<open>Math.random\<close>: the same object, in heaps that differ in nothing but that
  global generator, measures to "A" in one and to "B" in the other.
\<close>

theorem measure_reads_process_wide_generator:
  "states (fair_coin_world\<lparr>Math_random := (\<lambda>k. 1)\<rparr>) = states fair_coin_world \<and>
   ents (fair_coin_world\<lparr>Math_random := (\<lambda>k. 1)\<rparr>) = ents fair_coin_world \<and>
   fst (measure_qs 1 0 fair_coin_world) = Return (VStr ''A'') \<and>
   fst (measure_qs 1 0 (fair_coin_world\<lparr>Math_random := (\<lambda>k. 1)\<rparr>)) = Return (VStr ''B'')"
proof -
  have f1: "fst (measure_qs 1 0 fair_coin_world) = Return (VStr ''A'')"
    unfolding fair_coin_first by simp
  have f2: "fst (measure_qs 1 0 (fair_coin_world\<lparr>Math_random := (\<lambda>k. 1)\<rparr>)) = Return (VStr ''B'')"
    by (simp add: measure_qs_def fair_coin_world_def put_state_def blank_world_def plus_state_def
      getProbabilities_def Complex_magnitudeSquared_def Let_def collapseTo_def
      collapseTo_body_def Map_has_def notifyEntangledStates_def)
  from f1 f2 show ?thesis by simp
qed

section \<open>The invariants of a superposition\<close>

lemma heap_bound:
  assumes "\<forall>t. length (basis (states w t)) < 2 ^ 32"
  shows "bounded (2 ^ 32) w"
  using assms unfolding bounded_def by (simp add: less_imp_le)

lemma K_ok: "(1::nat) \<le> 2 ^ 32" "(2::nat) ^ 32 \<le> 10 ^ 15"
  by simp_all

lemma normalize_established:
  assumes b: "bounded (2 ^ 32) w" and n: "normalize n this w = (Return u, w')"
  shows "normalized (states w' this) \<and> (\<forall>t. states w' t = states w t \<or> normalized (states w' t))"
proof -
  from n have "exec n (Normalize this) w = (Return u, w')" by (simp add: normalize_def)
  from keeps_normalizedD [OF keeps_normalized_exec [OF K_ok] b this]
  show ?thesis by (auto simp add: good_def fits_def)
qed

lemma length_Map_set: "length (Map_set m k v) \<le> Suc (length m)"
proof -
  have "length (map fst (Map_set m k v)) \<le> Suc (length m)"
    unfolding keys_Map_set by simp
  then show ?thesis by simp
qed

lemma after_write_established:
  assumes b: "\<forall>t. length (basis (states w t)) < 2 ^ 32"
    and l: "length (basis s) \<le> 2 ^ 32"
    and n: "normalize n this (put_state this s w) = (Return u, w')"
  shows "normalized (states w' this) \<and> (\<forall>t. states w' t = states w t \<or> normalized (states w' t))"
proof -
  have b1: "bounded (2 ^ 32) (put_state this s w)"
    using b l unfolding bounded_def put_state_def by (simp add: less_imp_le)
  from normalize_established [OF b1 n]
  have e: "normalized (states w' this)"
    and g: "\<forall>t. states w' t = states (put_state this s w) t \<or> normalized (states w' t)"
    by simp_all
  have "\<forall>t. states w' t = states w t \<or> normalized (states w' t)"
  proof
    fix t
    show "states w' t = states w t \<or> normalized (states w' t)"
    proof (cases "t = this")
      case True
      with e show ?thesis by simp
    next
      case False
      with g [rule_format, of t] show ?thesis by (simp add: put_state_def)
    qed
  qed
  with e show ?thesis by simp
qed

lemma stabilize_established:
  assumes b: "\<forall>t. length (basis (states w t)) < 2 ^ 32"
    and n: "stabilize n this w = (Return u, w')"
  shows "normalized (states w' this) \<and> (\<forall>t. states w' t = states w t \<or> normalized (states w' t))"
proof -
  obtain r0 s where p: "pruneNearZeroAmplitudes (states w this) = (r0, s)"
    by (cases "pruneNearZeroAmplitudes (states w this)")
  with n have nn: "normalize n this (put_state this s w) = (Return u, w')"
    by (cases r0) (simp_all add: stabilize_def)
  have "length (basis s) \<le> length (basis (states w this))"
    using pruneNearZeroAmplitudes_fields [OF p] by simp
  also have "\<dots> \<le> 2 ^ 32" using b [rule_format, of this] by simp
  finally have "length (basis s) \<le> 2 ^ 32" .
  from after_write_established [OF b this nn] show ?thesis .
qed

lemma setAmplitude_established:
  assumes b: "\<forall>t. length (basis (states w t)) < 2 ^ 32"
    and n: "setAmplitude n this key amp w = (Return u, w')"
  shows "normalized (states w' this) \<and> (\<forall>t. states w' t = states w t \<or> normalized (states w' t))"
proof -
  from n obtain a where amp: "amp = Some a" by (cases amp) (simp_all add: setAmplitude_def)
  let ?s1 = "(states w this)\<lparr>basis := Map_set (basis (states w this)) key a\<rparr>"
  obtain r0 s where p: "pruneNearZeroAmplitudes ?s1 = (r0, s)"
    by (cases "pruneNearZeroAmplitudes ?s1")
  with n amp have nn: "normalize n this (put_state this s w) = (Return u, w')"
    by (cases r0) (auto simp add: setAmplitude_def split: if_splits)
  have "length (basis s) \<le> length (Map_set (basis (states w this)) key a)"
    using pruneNearZeroAmplitudes_fields [OF p] by simp
  also have "\<dots> \<le> Suc (length (basis (states w this)))" by (rule length_Map_set)
  also have "\<dots> \<le> 2 ^ 32" using b [rule_format, of this] by simp
  finally have "length (basis s) \<le> 2 ^ 32" .
  from after_write_established [OF b this nn] show ?thesis .
qed

text \<open>
  C1. Every superposition successfully returned by a public operation satisfies the
  invariants: its basis is not empty, every entry has magnitude at least the prune epsilon
  \<open>1e-12\<close>, and the squared magnitudes sum to 1 within \<open>1e-9\<close>. This holds for the
  constructor and \<open>clone\<close>; for \<open>normalize\<close>, \<open>setAmplitude\<close> and \<open>stabilize\<close> on an
  object of the heap, at any call-stack depth and through any correlations, where moreover
  every object the call wrote satisfies them; for the four gates, \<open>interfere\<close>, and the
  combinators \<open>quantumIf\<close>, \<open>quantumSwitch\<close>, \<open>quantumFor\<close> and \<open>quantumWhile\<close>, whose
  every recorded snapshot satisfies them too. Pruning after the division by the norm removes
  less than \<open>1e-24\<close> of probability per entry, so the bound \<open>1e-9\<close> rests on a basis
  having fewer than \<open>1e15\<close> entries: a constructed basis comes from an array, which has
  fewer than \<open>2^32\<close>, and the bases already in the heap are taken to be that small.
\<close>

theorem superposition_invariants:
  "(\<forall>entries s. new_QuantumState entries = Return s \<longrightarrow> normalized s) \<and>
   (\<forall>q s. clone q = Return s \<longrightarrow> normalized s) \<and>
   (\<forall>n this w u w'.
      (\<forall>t. length (basis (states w t)) < 2 ^ 32) \<and> normalize n this w = (Return u, w') \<longrightarrow>
        normalized (states w' this) \<and>
        (\<forall>t. states w' t = states w t \<or> normalized (states w' t))) \<and>
   (\<forall>n this key amp w u w'.
      (\<forall>t. length (basis (states w t)) < 2 ^ 32) \<and>
      setAmplitude n this key amp w = (Return u, w') \<longrightarrow>
        normalized (states w' this) \<and>
        (\<forall>t. states w' t = states w t \<or> normalized (states w' t))) \<and>
   (\<forall>n this w u w'.
      (\<forall>t. length (basis (states w t)) < 2 ^ 32) \<and> stabilize n this w = (Return u, w') \<longrightarrow>
        normalized (states w' this) \<and>
        (\<forall>t. states w' t = states w t \<or> normalized (states w' t))) \<and>
   (\<forall>q s. hadamard q = Return s \<longrightarrow> normalized s) \<and>
   (\<forall>q target angle s. phase_gate q target angle = Return s \<longrightarrow> normalized s) \<and>
   (\<forall>q angle s. rotate_gate q angle = Return s \<longrightarrow> normalized s) \<and>
   (\<forall>q targetValues factor s. amplify q targetValues factor = Return s \<longrightarrow> normalized s) \<and>
   (\<forall>qs weights s. interfere qs weights = Return s \<longrightarrow> normalized s) \<and>
   (\<forall>c thenFn elseFn s. quantumIf c thenFn elseFn = Return s \<longrightarrow> normalized s) \<and>
   (\<forall>q cases defaultCase s. quantumSwitch q cases defaultCase = Return s \<longrightarrow> normalized s) \<and>
   (\<forall>k q bodyFn r. quantumFor k q bodyFn = Return r \<longrightarrow>
      normalized (for_finalState r) \<and> (\<forall>h\<in>set (for_history r). normalized h)) \<and>
   (\<forall>condition bodyFn q k r. quantumWhile condition bodyFn q k = Return r \<longrightarrow>
      normalized (finalState r) \<and> (\<forall>h\<in>set (history r). normalized h))"
proof -
  have c1: "\<forall>entries s. new_QuantumState entries = Return s \<longrightarrow> normalized s"
    using new_QuantumState_normalized by blast
  have c2: "\<forall>q s. clone q = Return s \<longrightarrow> normalized s"
    using clone_normalized by blast
  have c3: "\<forall>n this w u w'.
      (\<forall>t. length (basis (states w t)) < 2 ^ 32) \<and> normalize n this w = (Return u, w') \<longrightarrow>
        normalized (states w' this) \<and>
        (\<forall>t. states w' t = states w t \<or> normalized (states w' t))"
    using normalize_established heap_bound by blast
  have c4: "\<forall>n this key amp w u w'.
      (\<forall>t. length (basis (states w t)) < 2 ^ 32) \<and>
      setAmplitude n this key amp w = (Return u, w') \<longrightarrow>
        normalized (states w' this) \<and>
        (\<forall>t. states w' t = states w t \<or> normalized (states w' t))"
    using setAmplitude_established by blast
  have c5: "\<forall>n this w u w'.
      (\<forall>t. length (basis (states w t)) < 2 ^ 32) \<and> stabilize n this w = (Return u, w') \<longrightarrow>
        normalized (states w' this) \<and>
        (\<forall>t. states w' t = states w t \<or> normalized (states w' t))"
    using stabilize_established by blast
  have c6: "\<forall>q s. hadamard q = Return s \<longrightarrow> normalized s"
    using hadamard_normalized by blast
  have c7: "\<forall>q target angle s. phase_gate q target angle = Return s \<longrightarrow> normalized s"
    using phase_gate_normalized by blast
  have c8: "\<forall>q angle s. rotate_gate q angle = Return s \<longrightarrow> normalized s"
    using rotate_gate_normalized by blast
  have c9: "\<forall>q targetValues factor s. amplify q targetValues factor = Return s \<longrightarrow> normalized s"
    using amplify_normalized by blast
  have c10: "\<forall>qs weights s. interfere qs weights = Return s \<longrightarrow> normalized s"
    using interfere_normalized by blast
  have c11: "\<forall>c thenFn elseFn s. quantumIf c thenFn elseFn = Return s \<longrightarrow> normalized s"
    using quantumIf_normalized by blast
  have c12: "\<forall>q cases defaultCase s. quantumSwitch q cases defaultCase = Return s \<longrightarrow> normalized s"
    using quantumSwitch_normalized by blast
  have c13: "\<forall>k q bodyFn r. quantumFor k q bodyFn = Return r \<longrightarrow>
      normalized (for_finalState r) \<and> (\<forall>h\<in>set (for_history r). normalized h)"
    using quantumFor_normalized by blast
  have c14: "\<forall>condition bodyFn q k r. quantumWhile condition bodyFn q k = Return r \<longrightarrow>
      normalized (finalState r) \<and> (\<forall>h\<in>set (history r). normalized h)"
    using quantumWhile_normalized by blast
  from c1 c2 c3 c4 c5 c6 c7 c8 c9 c10 c11 c12 c13 c14 show ?thesis by (intro conjI)
qed


lemma setAmplitude_second_outcome:
  "setAmplitude 2 0 (VStr ''B'') (Some (new_Complex 1 0)) (put_state 0 classical_A blank_world)
     = (Return (), fair_coin_world)"
  using inv_sqrt2_not_pruned
  by (simp add: setAmplitude_def put_state_def classical_A_def blank_world_def
      pruneNearZeroAmplitudes_def AMPLITUDE_PRUNE_EPSILON_def Let_def normalize_def
      numeral_2_eq_2 normalize_body_def normalize_this_def totalProbability_def
      Complex_magnitudeSquared_def NORMALIZATION_EPSILON_def Complex_scale_def
      updateCollapsedFlags_def notifyEntanglementUpdates_def fair_coin_world_def plus_state_def
      blank_state_def)

theorem superposition_invariants_witness:
  "new_QuantumState [(VStr ''A'', new_Complex 1 0), (VStr ''B'', new_Complex 1 0)] = Return plus_state \<and>
   normalized plus_state \<and>
   (\<forall>t. length (basis (states (put_state 0 classical_A blank_world) t)) < 2 ^ 32) \<and>
   setAmplitude 2 0 (VStr ''B'') (Some (new_Complex 1 0)) (put_state 0 classical_A blank_world)
     = (Return (), fair_coin_world) \<and>
   normalized (states fair_coin_world 0)"
proof -
  have a: "normalized plus_state"
    using superposition_invariants [THEN conjunct1, rule_format, OF new_plus_state] .
  have b: "\<forall>t. length (basis (states (put_state 0 classical_A blank_world) t)) < 2 ^ 32"
    by (simp add: put_state_def classical_A_def blank_world_def blank_state_def)
  have "(\<forall>t. length (basis (states (put_state 0 classical_A blank_world) t)) < 2 ^ 32) \<and>
      setAmplitude 2 0 (VStr ''B'') (Some (new_Complex 1 0)) (put_state 0 classical_A blank_world)
        = (Return (), fair_coin_world)"
    using b setAmplitude_second_outcome by simp
  from superposition_invariants [THEN conjunct2, THEN conjunct2, THEN conjunct2, THEN conjunct1,
      rule_format, OF this]
  have c: "normalized (states fair_coin_world 0)" by simp
  from new_plus_state a b setAmplitude_second_outcome c show ?thesis by (intro conjI)
qed

end
